(* ===== verification/Prelude.thy ===== *)
theory Prelude
  imports Complex_Main "HOL-Library.Word" "HOL-Library.Char_ord" "HOL-Library.List_Lexorder"
begin

text \<open>
  Shared vocabulary of the development: the machine integers of the wasm32 target, the error
  codes and flag constants the sources use, doubles as far as the sources use them, and the
  generic facts on lists and association lists that the component theories share.

  The integer types follow the static assertions of the sources: \<open>size_t\<close> is the 32-bit
  \<open>__wasi_size_t\<close> and \<open>off_t\<close> the 64-bit \<open>__wasi_filedelta_t\<close> (file_table.h), \<open>__wasi_fd_t\<close>
  is unsigned (syscalls.cpp, \<open>wasmfs_create_file\<close>), \<open>mode_t\<close> is \<open>unsigned int\<close>
  (node_backend.cpp). Signed and unsigned values of one width are the same word, read by \<open>sint\<close>
  or \<open>uint\<close>; a conversion between them is the identity.
\<close>

unbundle bit_operations_syntax

named_theorems fs_defs \<open>definitions of the elementary state updates\<close>
named_theorems frame \<open>parts of the state an operation leaves alone\<close>

section \<open>Machine types\<close>

type_synonym byte = "8 word"
type_synonym u16 = "16 word"
type_synonym u32 = "32 word"
type_synonym u64 = "64 word"

section \<open>Error codes\<close>

text \<open>
  The codes of \<open>errno.h\<close> the sources return; on this target they are the numbers of the WASI
  interface.
\<close>

datatype errno =
    EACCES | EBADF | EBUSY | EEXIST | EFAULT | EFBIG | EINVAL | EIO | EISDIR | ELOOP
  | ENAMETOOLONG | ENODEV | ENOENT | ENOMEM | ENOSYS | ENOTDIR | ENOTEMPTY | ENOTTY | EPERM
  | ERANGE | ESPIPE | EXDEV

fun errno_num :: "errno \<Rightarrow> nat" where
  "errno_num EACCES = 2"
| "errno_num EBADF = 8"
| "errno_num EBUSY = 10"
| "errno_num EEXIST = 20"
| "errno_num EFAULT = 21"
| "errno_num EFBIG = 22"
| "errno_num EINVAL = 28"
| "errno_num EIO = 29"
| "errno_num EISDIR = 31"
| "errno_num ELOOP = 32"
| "errno_num ENAMETOOLONG = 37"
| "errno_num ENODEV = 43"
| "errno_num ENOENT = 44"
| "errno_num ENOMEM = 48"
| "errno_num ENOSYS = 52"
| "errno_num ENOTDIR = 54"
| "errno_num ENOTEMPTY = 55"
| "errno_num ENOTTY = 59"
| "errno_num EPERM = 63"
| "errno_num ERANGE = 68"
| "errno_num ESPIPE = 70"
| "errno_num EXDEV = 75"

lemma errno_num_inject: "errno_num a = errno_num b \<Longrightarrow> a = b"
  by (cases a; cases b) simp_all

lemma errno_num_bounds: "0 < errno_num e" "errno_num e < 76"
  by (cases e; simp)+

text \<open>Error codes are ordered by their number, so that sorted containers can hold them.\<close>

instantiation errno :: linorder
begin
definition less_eq_errno :: "errno \<Rightarrow> errno \<Rightarrow> bool" where
  "less_eq_errno a b \<longleftrightarrow> errno_num a \<le> errno_num b"
definition less_errno :: "errno \<Rightarrow> errno \<Rightarrow> bool" where
  "less_errno a b \<longleftrightarrow> errno_num a < errno_num b"
instance
  by standard (auto simp: less_eq_errno_def less_errno_def intro: errno_num_inject)
end

text \<open>
  The value of a \<open>__wasi_errno_t\<close> (16 bits) that stands for an error, and the \<open>ssize_t\<close>
  (32 bits) by which file operations report it: minus the code.
\<close>

definition wasi :: "errno \<Rightarrow> u16" where
  "wasi e = of_nat (errno_num e)"

definition neg_errno :: "errno \<Rightarrow> u32" where
  "neg_errno e = - of_nat (errno_num e)"

section \<open>Flags and modes\<close>

abbreviation (input) "O_RDONLY \<equiv> (0 :: u32)"
abbreviation (input) "O_WRONLY \<equiv> (1 :: u32)"
abbreviation (input) "O_RDWR \<equiv> (2 :: u32)"
abbreviation (input) "O_ACCMODE \<equiv> (0x200003 :: u32)"
abbreviation (input) "O_CREAT \<equiv> (0x40 :: u32)"
abbreviation (input) "O_EXCL \<equiv> (0x80 :: u32)"
abbreviation (input) "O_NOCTTY \<equiv> (0x100 :: u32)"
abbreviation (input) "O_TRUNC \<equiv> (0x200 :: u32)"
abbreviation (input) "O_APPEND \<equiv> (0x400 :: u32)"
abbreviation (input) "O_LARGEFILE \<equiv> (0x8000 :: u32)"
abbreviation (input) "O_DIRECTORY \<equiv> (0x10000 :: u32)"
abbreviation (input) "O_NOFOLLOW \<equiv> (0x20000 :: u32)"
abbreviation (input) "O_CLOEXEC \<equiv> (0x80000 :: u32)"

abbreviation (input) "S_IFMT \<equiv> (0xF000 :: u32)"
abbreviation (input) "S_IFIFO \<equiv> (0x1000 :: u32)"
abbreviation (input) "S_IFCHR \<equiv> (0x2000 :: u32)"
abbreviation (input) "S_IFDIR \<equiv> (0x4000 :: u32)"
abbreviation (input) "S_IFREG \<equiv> (0x8000 :: u32)"
abbreviation (input) "S_IFLNK \<equiv> (0xA000 :: u32)"
abbreviation (input) "S_ISVTX \<equiv> (0x200 :: u32)"
abbreviation (input) "S_IRUGO \<equiv> (0x124 :: u32)"
abbreviation (input) "S_IWUGO \<equiv> (0x92 :: u32)"
abbreviation (input) "S_IXUGO \<equiv> (0x49 :: u32)"
abbreviation (input) "S_IRWXUGO \<equiv> (0x1FF :: u32)"
abbreviation (input) "S_IALLUGO \<equiv> (0xFFF :: u32)"

abbreviation (input) "AT_FDCWD \<equiv> (- 100 :: u32)"
abbreviation (input) "AT_SYMLINK_NOFOLLOW \<equiv> (0x100 :: u32)"
abbreviation (input) "AT_REMOVEDIR \<equiv> (0x200 :: u32)"
abbreviation (input) "AT_EACCESS \<equiv> (0x200 :: u32)"
abbreviation (input) "AT_NO_AUTOMOUNT \<equiv> (0x800 :: u32)"
abbreviation (input) "AT_EMPTY_PATH \<equiv> (0x1000 :: u32)"

abbreviation (input) "WASMFS_PERM_READ \<equiv> (0x124 :: u32)"
abbreviation (input) "WASMFS_PERM_WRITE \<equiv> (0x92 :: u32)"
abbreviation (input) "WASMFS_PERM_EXECUTE \<equiv> (0x49 :: u32)"
abbreviation (input) "WASMFS_NAME_MAX \<equiv> (255 :: nat)"

section \<open>Doubles\<close>

text \<open>
  The values of a C++ \<open>double\<close>; a finite one is a rational, and the two zeros are one value.
\<close>

datatype double = Fin rat | PosInf | NegInf | NaN

section \<open>Signed and unsigned readings\<close>

lemma sint_split: "sint w = uint w - 2 ^ LENGTH('a) * of_bool (bit (uint w) (LENGTH('a) - 1))"
  for w :: "'a::len word"
  by (simp add: sint_uint signed_take_bit_eq_take_bit_minus take_bit_int_eq_self)

lemma sint_nonneg_unat: "sint w = int (unat w)" if "0 \<le> sint w"
  for w :: "'a::len word"
proof (cases "bit (uint w) (LENGTH('a) - 1)")
  case True
  then show ?thesis using that sint_split [of w] uint_lt2p [of w] by simp
next
  case False
  then show ?thesis using sint_split [of w] by simp
qed

lemma sint_below_half: "sint w = int (unat w)" if "unat w < 2 ^ (LENGTH('a) - 1)"
  for w :: "'a::len word"
proof -
  have "uint w < 2 ^ (LENGTH('a) - 1)"
    using that by (metis of_nat_less_iff of_nat_numeral of_nat_power of_nat_unat uint_nat)
  moreover have "- (2 ^ (LENGTH('a) - 1)) \<le> uint w"
    by (rule order_trans [of _ 0]) simp_all
  ultimately show ?thesis
    by (simp add: sint_uint signed_take_bit_int_eq_self)
qed

lemma unat_ucast_u32: "unat (ucast w :: u32) = unat w mod 2 ^ 32"
  for w :: u64
  by (simp add: unsigned_ucast_eq take_bit_eq_mod)

lemma unat_ucast_u64: "unat (ucast w :: u64) = unat w"
  for w :: u32
  using unsigned_less [of w, where ?'a = nat]
  by (simp add: unsigned_ucast_eq take_bit_nat_eq_self)

lemma ucast_of_nat_32_64: "n < 2 ^ 32 \<Longrightarrow> ucast (of_nat n :: u32) = (of_nat n :: u64)"
  by (simp add: word_unat_eq_iff unat_ucast_u64 unat_of_nat)

lemma of_nat_unat_same: "of_nat (unat w) = w" for w :: "'a::len word"
  by simp

section \<open>Lists\<close>

text \<open>\<open>std::vector::resize\<close>: cut, or extend by zero bytes.\<close>

definition resize :: "nat \<Rightarrow> byte list \<Rightarrow> byte list" where
  "resize n xs = take n xs @ replicate (n - length xs) 0"

lemma length_resize [simp]: "length (resize n xs) = n"
  by (simp add: resize_def)

lemma resize_same [simp]: "resize (length xs) xs = xs"
  by (simp add: resize_def)

lemma take_resize: "k \<le> n \<Longrightarrow> k \<le> length xs \<Longrightarrow> take k (resize n xs) = take k xs"
  by (simp add: resize_def min_def)

text \<open>Overwriting a range that lies inside the list, as \<open>memcpy\<close> into a vector does.\<close>

definition overwrite :: "nat \<Rightarrow> 'a list \<Rightarrow> 'a list \<Rightarrow> 'a list" where
  "overwrite i ys xs = take i xs @ ys @ drop (i + length ys) xs"

lemma length_overwrite [simp]: "i + length ys \<le> length xs \<Longrightarrow> length (overwrite i ys xs) = length xs"
  by (simp add: overwrite_def)

lemma overwrite_read: "i + length ys \<le> length xs \<Longrightarrow> take (length ys) (drop i (overwrite i ys xs)) = ys"
  by (simp add: overwrite_def)

lemma overwrite_before: "k \<le> i \<Longrightarrow> i \<le> length xs \<Longrightarrow> take k (overwrite i ys xs) = take k xs"
  by (simp add: overwrite_def min_def)

lemma overwrite_Nil [simp]: "overwrite i [] xs = xs"
  by (simp add: overwrite_def)

text \<open>Erasing the first element that satisfies a test, as \<open>find_if\<close> and \<open>erase\<close> do.\<close>

fun erase_first :: "('a \<Rightarrow> bool) \<Rightarrow> 'a list \<Rightarrow> 'a list" where
  "erase_first P [] = []"
| "erase_first P (x # xs) = (if P x then xs else x # erase_first P xs)"

lemma set_erase_first_subset: "set (erase_first P xs) \<subseteq> set xs"
  by (induction xs) auto

lemma erase_first_none: "\<forall>x \<in> set xs. \<not> P x \<Longrightarrow> erase_first P xs = xs"
  by (induction xs) auto

lemma distinct_map_erase_first:
  "distinct (map f xs) \<Longrightarrow> distinct (map f (erase_first P xs))"
  by (induction xs) (auto dest: set_erase_first_subset [THEN subsetD])

lemma set_erase_first_key:
  "distinct (map f xs) \<Longrightarrow> set (erase_first (\<lambda>x. f x = k) xs) = {x \<in> set xs. f x \<noteq> k}"
  by (induction xs) (auto simp: rev_image_eqI)

lemma map_of_erase_first_key:
  "distinct (map fst xs) \<Longrightarrow>
     map_of (erase_first (\<lambda>x. fst x = k) xs) = (map_of xs)(k := None)"
  by (induction xs) (auto simp: fun_eq_iff map_of_eq_None_iff)

lemma length_erase_first:
  "x \<in> set xs \<Longrightarrow> P x \<Longrightarrow> length xs = Suc (length (erase_first P xs))"
  by (induction xs) auto

section \<open>Reachability\<close>

text \<open>
  Reaching \<open>r\<close> carries over from one relation to another on a set that the first one does not
  leave, when each of its steps is a step of the second or starts where \<open>r\<close> is reached anyway.
\<close>

lemma rtrancl_transfer:
  assumes step: "\<And>a b. (a, b) \<in> U \<Longrightarrow> a \<in> S \<Longrightarrow> b \<in> S \<and> ((a, b) \<in> V \<or> (a, r) \<in> V\<^sup>*)"
    and reach: "(x, r) \<in> U\<^sup>*" and x: "x \<in> S"
  shows "(x, r) \<in> V\<^sup>*"
proof -
  have "x \<in> S \<longrightarrow> (x, r) \<in> V\<^sup>*"
    using reach
  proof (induction rule: converse_rtrancl_induct)
    case (step y z)
    then show ?case
      using assms(1) [of y z] by (blast intro: converse_rtrancl_into_rtrancl)
  qed simp
  with x show ?thesis by simp
qed

section \<open>Ordered maps\<close>

text \<open>
  \<open>std::map\<close>, as an association list sorted by key: \<open>insert\<close>, which leaves an existing key
  alone, assignment through an iterator, and \<open>erase\<close>. \<open>find\<close> is \<open>map_of\<close>.
\<close>

fun omap_insert :: "'k::linorder \<Rightarrow> 'v \<Rightarrow> ('k \<times> 'v) list \<Rightarrow> ('k \<times> 'v) list" where
  "omap_insert k v [] = [(k, v)]"
| "omap_insert k v (p # ps) =
     (if k = fst p then p # ps else if k < fst p then (k, v) # p # ps else p # omap_insert k v ps)"

definition omap_assign :: "'k \<Rightarrow> 'v \<Rightarrow> ('k \<times> 'v) list \<Rightarrow> ('k \<times> 'v) list" where
  "omap_assign k v ps = map (\<lambda>p. if fst p = k then (k, v) else p) ps"

definition omap_erase :: "'k \<Rightarrow> ('k \<times> 'v) list \<Rightarrow> ('k \<times> 'v) list" where
  "omap_erase k ps = filter (\<lambda>p. fst p \<noteq> k) ps"

lemma keys_omap_insert: "fst ` set (omap_insert k v ps) = insert k (fst ` set ps)"
  by (induction ps) auto

lemma set_omap_insert_subset: "set (omap_insert k v ps) \<subseteq> insert (k, v) (set ps)"
  by (induction ps) auto

lemma sorted_omap_insert:
  "sorted_wrt (<) (map fst ps) \<Longrightarrow> sorted_wrt (<) (map fst (omap_insert k v ps))"
proof (induction ps)
  case (Cons p ps)
  then show ?case
    using keys_omap_insert [of k v ps] by (auto dest: less_trans)
qed simp

lemma map_of_omap_insert:
  "sorted_wrt (<) (map fst ps) \<Longrightarrow>
     map_of (omap_insert k v ps) = (if k \<in> fst ` set ps then map_of ps else (map_of ps)(k \<mapsto> v))"
proof (induction ps)
  case (Cons p ps)
  then show ?case by (cases p) (auto simp: fun_eq_iff map_of_eq_None_iff)
qed simp

lemma keys_omap_assign [simp]: "map fst (omap_assign k v ps) = map fst ps"
  by (simp add: omap_assign_def)

lemma set_omap_assign_subset: "set (omap_assign k v ps) \<subseteq> insert (k, v) (set ps)"
  by (auto simp: omap_assign_def)

lemma set_omap_erase: "set (omap_erase k ps) = {p \<in> set ps. fst p \<noteq> k}"
  by (simp add: omap_erase_def)

lemma sorted_omap_erase:
  "sorted_wrt (<) (map fst ps) \<Longrightarrow> sorted_wrt (<) (map fst (omap_erase k ps))"
  by (induction ps) (auto simp: omap_erase_def)

lemma map_of_omap_erase: "map_of (omap_erase k ps) = (map_of ps)(k := None)"
  by (induction ps) (auto simp: omap_erase_def fun_eq_iff)

end
