(* ===== verification/State.thy ===== *)
theory State
  imports Prelude
begin

text \<open>
  The state of the file system: the objects of file.h, file_table.h, pipe_backend.h and wasmfs.h.

  Every \<open>std::shared_ptr<File>\<close> is an index into a store of file objects, so that sharing and
  aliasing are explicit; a null pointer is \<open>None\<close>. The store is total and \<open>fs_next\<close> bounds the
  objects created so far. Objects are never freed: a weak parent pointer always finds its target.
  The invariant of the theory Tree shows where this can matter: a directory whose own parent is
  null has no entries left, so no file reached through a directory has an expired parent.
  Locks have no state of their own here: the model is of one thread.
\<close>

section \<open>Files\<close>

type_synonym fid = nat
type_synonym ofid = nat
type_synonym backend_t = nat

datatype FileKind = UnknownKind | DataFileKind | DirectoryKind | SymlinkKind

datatype DCacheKind = DCNormal | DCMount

record DCacheEntry =
  dc_kind :: DCacheKind
  dc_file :: fid

datatype std_stream = Stdout | Stderr

text \<open>
  The classes that derive from \<open>File\<close>, each with its own fields: the memory backend's three,
  the special files of /dev, and the two ends of a pipe. A directory also has the directory
  cache of its base class, an ordered map, kept here as a list sorted by name.
\<close>

datatype node =
    MemoryDataFile (buffer: "byte list")
  | MemoryDirectory (dir_entries: "(string \<times> fid) list") (dir_dcache: "(string \<times> DCacheEntry) list")
  | MemorySymlink (target: string)
  | NullFile
  | StdinFile
  | WritingStdFile std_stream (writeBuffer: "byte list")
  | RandomFile
  | PipeFile nat

fun kind_of :: "node \<Rightarrow> FileKind" where
  "kind_of (MemoryDirectory _ _) = DirectoryKind"
| "kind_of (MemorySymlink _) = SymlinkKind"
| "kind_of _ = DataFileKind"

record file_obj =
  f_node :: node
  f_mode :: u32
  f_atime :: double
  f_mtime :: double
  f_ctime :: double
  f_parent :: "fid option"
  f_backend :: "backend_t option"
  f_seekable :: bool

section \<open>Open files\<close>

record dirent =
  de_name :: string
  de_kind :: FileKind
  de_ino :: nat

record OpenFileState =
  of_file :: fid
  of_position :: u64
  of_flags :: u32
  of_uses :: int
  of_dirents :: "dirent list"

section \<open>The host\<close>

text \<open>
  The functions the module imports: the clock, the standard streams of memfs.cpp and
  \<open>getentropy\<close>. Each call has a number, and its answer is any function of the number and the
  arguments. Reading stdin returns the \<open>size_t\<close> the host reports and the bytes it stores into
  the buffer; it stores no more than the buffer holds.
\<close>

record host =
  host_date_now :: "nat \<Rightarrow> double"
  host_read_stdin :: "nat \<Rightarrow> u32 \<Rightarrow> u64 \<Rightarrow> u32 \<times> byte list"
  host_write_std :: "nat \<Rightarrow> std_stream \<Rightarrow> byte list \<Rightarrow> u64 \<Rightarrow> u32"
  host_getentropy :: "nat \<Rightarrow> nat \<Rightarrow> byte list"

section \<open>The global state\<close>

record fs =
  fs_heap :: "fid \<Rightarrow> file_obj"
  fs_next :: nat
  fs_root :: fid
  fs_cwd :: fid
  fs_ofiles :: "ofid \<Rightarrow> OpenFileState"
  fs_ofnext :: nat
  fs_table :: "ofid option list"
  fs_pipes :: "nat \<Rightarrow> byte list"
  fs_pnext :: nat
  fs_backends :: nat
  fs_mem :: "u32 \<Rightarrow> byte"
  fs_host :: host
  fs_calls :: nat
  fs_output :: "(std_stream \<times> byte list \<times> u64) list"

section \<open>Accessors and updates\<close>

abbreviation node_of :: "fs \<Rightarrow> fid \<Rightarrow> node" where
  "node_of s f \<equiv> f_node (fs_heap s f)"

abbreviation parent_of :: "fs \<Rightarrow> fid \<Rightarrow> fid option" where
  "parent_of s f \<equiv> f_parent (fs_heap s f)"

abbreviation mode_of :: "fs \<Rightarrow> fid \<Rightarrow> u32" where
  "mode_of s f \<equiv> f_mode (fs_heap s f)"

abbreviation backend_of :: "fs \<Rightarrow> fid \<Rightarrow> backend_t option" where
  "backend_of s f \<equiv> f_backend (fs_heap s f)"

abbreviation kind :: "fs \<Rightarrow> fid \<Rightarrow> FileKind" where
  "kind s f \<equiv> kind_of (node_of s f)"

abbreviation is_dir :: "fs \<Rightarrow> fid \<Rightarrow> bool" where
  "is_dir s f \<equiv> kind s f = DirectoryKind"

abbreviation is_data :: "fs \<Rightarrow> fid \<Rightarrow> bool" where
  "is_data s f \<equiv> kind s f = DataFileKind"

abbreviation is_link :: "fs \<Rightarrow> fid \<Rightarrow> bool" where
  "is_link s f \<equiv> kind s f = SymlinkKind"

fun entries_of_node :: "node \<Rightarrow> (string \<times> fid) list" where
  "entries_of_node (MemoryDirectory es _) = es"
| "entries_of_node _ = []"

fun dcache_of_node :: "node \<Rightarrow> (string \<times> DCacheEntry) list" where
  "dcache_of_node (MemoryDirectory _ dc) = dc"
| "dcache_of_node _ = []"

abbreviation entries :: "fs \<Rightarrow> fid \<Rightarrow> (string \<times> fid) list" where
  "entries s d \<equiv> entries_of_node (node_of s d)"

abbreviation dcache :: "fs \<Rightarrow> fid \<Rightarrow> (string \<times> DCacheEntry) list" where
  "dcache s d \<equiv> dcache_of_node (node_of s d)"

lemma kind_of_dir_iff: "kind_of n = DirectoryKind \<longleftrightarrow> (\<exists>es dc. n = MemoryDirectory es dc)"
  by (cases n) auto

lemma kind_of_link_iff: "kind_of n = SymlinkKind \<longleftrightarrow> (\<exists>t. n = MemorySymlink t)"
  by (cases n) auto

lemma not_dir_no_entries [simp]: "kind_of n \<noteq> DirectoryKind \<Longrightarrow> entries_of_node n = []"
  by (cases n) auto

lemma not_dir_no_dcache [simp]: "kind_of n \<noteq> DirectoryKind \<Longrightarrow> dcache_of_node n = []"
  by (cases n) auto

definition upd_file :: "fid \<Rightarrow> (file_obj \<Rightarrow> file_obj) \<Rightarrow> fs \<Rightarrow> fs" where
  [fs_defs]: "upd_file f g s = s\<lparr>fs_heap := (fs_heap s)(f := g (fs_heap s f))\<rparr>"

text \<open>The setters of \<open>File::Handle\<close>.\<close>

definition setParent :: "fid \<Rightarrow> fid option \<Rightarrow> fs \<Rightarrow> fs" where
  [fs_defs]: "setParent f p = upd_file f (f_parent_update (\<lambda>_. p))"

definition setMode :: "fid \<Rightarrow> u32 \<Rightarrow> fs \<Rightarrow> fs" where
  [fs_defs]: "setMode f m = upd_file f (f_mode_update (\<lambda>old. (old AND S_IFMT) OR (m AND NOT S_IFMT)))"

definition setATime :: "fid \<Rightarrow> double \<Rightarrow> fs \<Rightarrow> fs" where
  [fs_defs]: "setATime f t = upd_file f (f_atime_update (\<lambda>_. t))"

definition setMTime :: "fid \<Rightarrow> double \<Rightarrow> fs \<Rightarrow> fs" where
  [fs_defs]: "setMTime f t = upd_file f (f_mtime_update (\<lambda>_. t))"

definition setCTime :: "fid \<Rightarrow> double \<Rightarrow> fs \<Rightarrow> fs" where
  [fs_defs]: "setCTime f t = upd_file f (f_ctime_update (\<lambda>_. t))"

definition set_node :: "fid \<Rightarrow> node \<Rightarrow> fs \<Rightarrow> fs" where
  [fs_defs]: "set_node f n = upd_file f (f_node_update (\<lambda>_. n))"

text \<open>\<open>emscripten_date_now\<close>, and the three handle operations that store its answer.\<close>

definition date_now :: "fs \<Rightarrow> double \<times> fs" where
  [fs_defs]: "date_now s = (host_date_now (fs_host s) (fs_calls s), s\<lparr>fs_calls := Suc (fs_calls s)\<rparr>)"

definition updateMTime :: "fid \<Rightarrow> fs \<Rightarrow> fs" where
  [fs_defs]: "updateMTime f s = (let (t, s) = date_now s in setMTime f t s)"

definition updateCTime :: "fid \<Rightarrow> fs \<Rightarrow> fs" where
  [fs_defs]: "updateCTime f s = (let (t, s) = date_now s in setCTime f t s)"

text \<open>
  The constructor \<open>File(kind, mode, backend)\<close> inside \<open>std::make_shared\<close>: a new object with its
  three times set to now, no parent, seekable unless its class says otherwise.
\<close>

definition new_file :: "node \<Rightarrow> u32 \<Rightarrow> backend_t option \<Rightarrow> bool \<Rightarrow> fs \<Rightarrow> fid \<times> fs" where
  [fs_defs]: "new_file n m b sk s =
    (let (t, s) = date_now s; f = fs_next s in
     (f, s\<lparr>fs_heap := (fs_heap s)(f := \<lparr>f_node = n, f_mode = m, f_atime = t, f_mtime = t,
              f_ctime = t, f_parent = None, f_backend = b, f_seekable = sk\<rparr>),
           fs_next := Suc f\<rparr>))"

text \<open>What the setters change, and that they change nothing else.\<close>

lemma setParent_effect [simp]:
  "node_of (setParent f p s) g = node_of s g"
  "parent_of (setParent f p s) g = (if g = f then p else parent_of s g)"
  "mode_of (setParent f p s) g = mode_of s g"
  "backend_of (setParent f p s) g = backend_of s g"
  "fs_next (setParent f p s) = fs_next s" "fs_root (setParent f p s) = fs_root s"
  "fs_cwd (setParent f p s) = fs_cwd s" "fs_table (setParent f p s) = fs_table s"
  "fs_ofiles (setParent f p s) = fs_ofiles s" "fs_ofnext (setParent f p s) = fs_ofnext s"
  by (simp_all add: fs_defs)

lemma setParent_same [simp]: "parent_of s f = p \<Longrightarrow> setParent f p s = s"
  by (auto simp: fs_defs intro!: fs.equality)

lemma updateMTime_effect [simp]:
  "node_of (updateMTime f s) g = node_of s g" "parent_of (updateMTime f s) g = parent_of s g"
  "mode_of (updateMTime f s) g = mode_of s g" "backend_of (updateMTime f s) g = backend_of s g"
  "fs_next (updateMTime f s) = fs_next s" "fs_root (updateMTime f s) = fs_root s"
  "fs_cwd (updateMTime f s) = fs_cwd s" "fs_table (updateMTime f s) = fs_table s"
  "fs_ofiles (updateMTime f s) = fs_ofiles s" "fs_ofnext (updateMTime f s) = fs_ofnext s"
  by (simp_all add: fs_defs)

lemma updateCTime_effect [simp]:
  "node_of (updateCTime f s) g = node_of s g" "parent_of (updateCTime f s) g = parent_of s g"
  "mode_of (updateCTime f s) g = mode_of s g" "backend_of (updateCTime f s) g = backend_of s g"
  "fs_next (updateCTime f s) = fs_next s" "fs_root (updateCTime f s) = fs_root s"
  "fs_cwd (updateCTime f s) = fs_cwd s" "fs_table (updateCTime f s) = fs_table s"
  "fs_ofiles (updateCTime f s) = fs_ofiles s" "fs_ofnext (updateCTime f s) = fs_ofnext s"
  by (simp_all add: fs_defs)

lemma new_file_effect:
  assumes "new_file n m b sk s = (f, t)"
  shows "f = fs_next s" "fs_next t = Suc (fs_next s)" "fs_root t = fs_root s" "fs_cwd t = fs_cwd s"
    "fs_table t = fs_table s" "fs_ofiles t = fs_ofiles s" "fs_ofnext t = fs_ofnext s"
    "node_of t g = (if g = fs_next s then n else node_of s g)"
    "parent_of t g = (if g = fs_next s then None else parent_of s g)"
    "mode_of t g = (if g = fs_next s then m else mode_of s g)"
    "backend_of t g = (if g = fs_next s then b else backend_of s g)"
  using assms by (auto simp: fs_defs Let_def)

text \<open>Bytes of the linear memory, read from and stored to an address.\<close>

definition mem_read :: "fs \<Rightarrow> u32 \<Rightarrow> u32 \<Rightarrow> byte list" where
  "mem_read s a n = map (\<lambda>i. fs_mem s (a + of_nat i)) [0..<unat n]"

fun mem_store :: "u32 \<Rightarrow> byte list \<Rightarrow> (u32 \<Rightarrow> byte) \<Rightarrow> (u32 \<Rightarrow> byte)" where
  "mem_store a [] m = m"
| "mem_store a (b # bs) m = mem_store (a + 1) bs (m(a := b))"

lemma length_mem_read [simp]: "length (mem_read s a n) = unat n"
  by (simp add: mem_read_def)

lemma mem_store_append: "mem_store a (xs @ ys) m = mem_store (a + of_nat (length xs)) ys (mem_store a xs m)"
  by (induction xs arbitrary: a m) (simp_all add: add.assoc)

lemma mem_store_other:
  "\<forall>i < length bs. x \<noteq> a + of_nat i \<Longrightarrow> mem_store a bs m x = m x"
proof (induction bs arbitrary: a m)
  case (Cons b bs)
  then have "x \<noteq> a" "\<forall>i < length bs. x \<noteq> (a + 1) + of_nat i"
    by (auto simp: All_less_Suc2 add.assoc)
  then show ?case
    using Cons.IH [of "a + 1"] by simp
qed simp

lemma mem_store_nth:
  assumes "i < length bs" and "length bs \<le> 2 ^ 32"
  shows "mem_store a bs m (a + of_nat i) = bs ! i"
  using assms
proof (induction bs arbitrary: a m i)
  case (Cons b bs)
  show ?case
  proof (cases i)
    case 0
    have "a \<noteq> (a + 1) + of_nat j" if "j < length bs" for j
    proof
      assume "a = (a + 1) + of_nat j"
      then have "(of_nat (Suc j) :: u32) = 0"
        by (simp add: add.assoc)
      then have "2 ^ 32 dvd Suc j"
        by (simp only: word_of_nat_eq_0_iff) simp
      then show False
        using that Cons.prems by (auto dest: dvd_imp_le)
    qed
    then show ?thesis
      using 0 by (simp add: mem_store_other)
  next
    case (Suc j)
    have "mem_store (a + 1) bs (m(a := b)) ((a + 1) + of_nat j) = bs ! j"
      using Suc Cons.prems by (intro Cons.IH) auto
    then show ?thesis
      using Suc by (simp add: add.assoc del: fun_upd_apply)
  qed
qed simp

text \<open>Reading back a buffer that a store has filled.\<close>

lemma mem_read_store:
  "length bs = unat n \<Longrightarrow> mem_read (s\<lparr>fs_mem := mem_store a bs m\<rparr>) a n = bs"
  using unsigned_less [of n, where ?'a = nat]
  by (auto simp: mem_read_def mem_store_nth intro!: nth_equalityI)

section \<open>Shape\<close>

text \<open>
  Two states have the same shape when they have the same objects, in the same places of the tree:
  with the same modes: contents of data files, times, the file table and the host may differ. The tree
  invariant depends on the shape only.
\<close>

definition same_shape :: "fs \<Rightarrow> fs \<Rightarrow> bool" where
  "same_shape s t \<longleftrightarrow> fs_next t = fs_next s \<and> fs_root t = fs_root s \<and> fs_cwd t = fs_cwd s \<and>
     (\<forall>f. kind t f = kind s f \<and> entries t f = entries s f \<and> dcache t f = dcache s f \<and>
          parent_of t f = parent_of s f \<and> mode_of t f = mode_of s f)"

lemma same_shape_refl [simp]: "same_shape s s"
  by (simp add: same_shape_def)

lemma same_shape_trans: "same_shape s t \<Longrightarrow> same_shape t u \<Longrightarrow> same_shape s u"
  by (simp add: same_shape_def)

lemma same_shapeD:
  assumes "same_shape s t"
  shows "fs_next t = fs_next s" "fs_root t = fs_root s" "fs_cwd t = fs_cwd s"
    "kind t f = kind s f" "entries t f = entries s f" "dcache t f = dcache s f"
    "parent_of t f = parent_of s f" "mode_of t f = mode_of s f"
  using assms by (simp_all add: same_shape_def)

text \<open>The setters of times, and every update outside the heap, keep the shape.\<close>

lemma same_shape_setters [frame]:
  "same_shape s (setATime f t s)" "same_shape s (setMTime f t s)"
  "same_shape s (setCTime f t s)" "same_shape s (updateMTime f s)" "same_shape s (updateCTime f s)"
  by (simp_all add: same_shape_def fs_defs)

lemma same_shape_outside [frame]:
  "same_shape s (s\<lparr>fs_ofiles := v1\<rparr>)" "same_shape s (s\<lparr>fs_ofnext := v2\<rparr>)"
  "same_shape s (s\<lparr>fs_table := v3\<rparr>)" "same_shape s (s\<lparr>fs_pipes := v4\<rparr>)"
  "same_shape s (s\<lparr>fs_pnext := v5\<rparr>)" "same_shape s (s\<lparr>fs_mem := v6\<rparr>)"
  "same_shape s (s\<lparr>fs_calls := v7\<rparr>)" "same_shape s (s\<lparr>fs_output := v8\<rparr>)"
  "same_shape s (s\<lparr>fs_backends := v9\<rparr>)"
  by (simp_all add: same_shape_def)

lemma same_shape_set_node:
  "kind_of n = kind s f \<Longrightarrow> entries_of_node n = entries s f \<Longrightarrow> dcache_of_node n = dcache s f \<Longrightarrow>
     same_shape s (set_node f n s)"
  by (simp add: same_shape_def fs_defs)

end
