(* ===== verification/MemoryBackend.thy ===== *)
theory MemoryBackend
  imports State
begin

text \<open>
  The memory backend (memory_backend.h, backends/memory_backend.cpp): data files are byte vectors,
  directories are vectors of named children that track file identity themselves. The interfaces
  \<open>data_file\<close> and \<open>directory_backend\<close> state what the rest of the program relies on, and are
  interpreted on the backend's own operations.
\<close>

section \<open>Data files\<close>

text \<open>
  \<open>std::vector<uint8_t>::max_size()\<close> on wasm32 is \<open>PTRDIFF_MAX\<close>.
\<close>

abbreviation (input) "MAX_SIZE \<equiv> (0x7FFFFFFF :: nat)"

text \<open>
  \<open>MemoryDataFile::write\<close>. The sum \<open>offset + len\<close> is an \<open>off_t\<close>; the index \<open>buffer[offset]\<close> is
  the offset cut to the 32 bits of \<open>size_t\<close>. \<open>None\<close> is undefined behaviour: an overflow of
  the signed sum, or a copy that runs outside the vector. The result is the \<open>ssize_t\<close> and the
  new contents.
\<close>

definition memdata_write :: "byte list \<Rightarrow> byte list \<Rightarrow> u64 \<Rightarrow> (u32 \<times> byte list) option" where
  "memdata_write b data offset =
    (let stop = sint offset + int (length data) in
     if 2 ^ 63 \<le> stop then None
     else if int (length b) < stop \<and> int MAX_SIZE < stop then Some (neg_errno EIO, b)
     else
       let b' = (if int (length b) < stop then resize (nat stop) b else b);
           i = unat (ucast offset :: u32) in
       if data = [] then Some (0, b')
       else if i + length data \<le> length b' then Some (of_nat (length data), overwrite i data b')
       else None)"

text \<open>
  \<open>MemoryDataFile::read\<close>: the bytes copied out, \<open>None\<close> when the copy runs outside the vector.
  The length \<open>buffer.size() - offset\<close> is stored back into a \<open>size_t\<close>.
\<close>

definition memdata_read :: "byte list \<Rightarrow> u32 \<Rightarrow> u64 \<Rightarrow> byte list option" where
  "memdata_read b len offset =
    (let n = (if int (length b) \<le> sint offset then 0
              else if int (length b) \<le> sint offset + uint len
                then unat (of_int (int (length b) - sint offset) :: u32)
              else unat len);
         i = unat (ucast offset :: u32) in
     if n = 0 then Some []
     else if i + n \<le> length b then Some (take n (drop i b)) else None)"

text \<open>
  \<open>MemoryDataFile::setSize\<close>: \<open>vector::resize\<close> takes a \<open>size_t\<close>, and a size beyond \<open>max_size\<close>
  aborts the program (exceptions are off).
\<close>

definition memdata_setSize :: "u64 \<Rightarrow> byte list \<Rightarrow> byte list option" where
  "memdata_setSize sz b =
    (let n = unat (ucast sz :: u32) in if MAX_SIZE < n then None else Some (resize n b))"

text \<open>What a write at an offset promises: the file grown to hold the range, then overwritten.\<close>

definition write_spec :: "nat \<Rightarrow> byte list \<Rightarrow> byte list \<Rightarrow> byte list" where
  "write_spec off data b = overwrite off data (resize (max (length b) (off + length data)) b)"

lemma length_write_spec [simp]:
  "length (write_spec off data b) = max (length b) (off + length data)"
  by (simp add: write_spec_def)

lemma read_write_spec:
  "take (length data) (drop off (write_spec off data b)) = data"
  by (simp add: write_spec_def overwrite_read)

lemma nth_resize: "i < n \<Longrightarrow> resize n b ! i = (if i < length b then b ! i else 0)"
  by (auto simp: resize_def nth_append)

lemma nth_write_spec:
  assumes "i < max (length b) (off + length data)"
  shows "write_spec off data b ! i =
    (if i < off then if i < length b then b ! i else 0
     else if i < off + length data then data ! (i - off) else b ! i)"
proof -
  let ?r = "resize (max (length b) (off + length data)) b"
  have "overwrite off data ?r ! i =
      (if i < off then ?r ! i else if i < off + length data then data ! (i - off) else ?r ! i)"
    using assms by (auto simp: overwrite_def nth_append min_def)
  then show ?thesis
    using assms by (auto simp: write_spec_def nth_resize)
qed

lemma write_spec_append:
  "write_spec (off + length a) c (write_spec off a b) = write_spec off (a @ c) b"
proof (rule nth_equalityI)
  fix i
  assume "i < length (write_spec (off + length a) c (write_spec off a b))"
  then show "write_spec (off + length a) c (write_spec off a b) ! i = write_spec off (a @ c) b ! i"
    by (auto simp: nth_write_spec nth_append)
qed auto

lemma write_spec_at_end: "write_spec (length b) data b = b @ data"
  by (simp add: write_spec_def overwrite_def resize_def)

section \<open>The contract of a data file\<close>

text \<open>
  What \<open>DataFile\<close> promises in file.h for offsets that are not negative: a read returns the
  bytes of the range that exist, a write replaces the range and grows the file with zeros up to
  it, a write that cannot fit changes nothing, and \<open>setSize\<close> cuts or zero-extends.
\<close>

locale data_file =
  fixes rd :: "'d \<Rightarrow> u32 \<Rightarrow> u64 \<Rightarrow> byte list option"
    and wr :: "'d \<Rightarrow> byte list \<Rightarrow> u64 \<Rightarrow> (u32 \<times> 'd) option"
    and rs :: "u64 \<Rightarrow> 'd \<Rightarrow> 'd option"
    and bytes :: "'d \<Rightarrow> byte list"
  assumes rd_law: "length (bytes d) \<le> MAX_SIZE \<Longrightarrow> 0 \<le> sint off \<Longrightarrow>
      rd d len off = Some (take (unat len) (drop (unat off) (bytes d)))"
    and wr_law: "length (bytes d) \<le> MAX_SIZE \<Longrightarrow> 0 \<le> sint off \<Longrightarrow>
      unat off + length data \<le> MAX_SIZE \<Longrightarrow>
      \<exists>d'. wr d data off = Some (of_nat (length data), d') \<and>
        bytes d' = write_spec (unat off) data (bytes d)"
    and wr_full: "length (bytes d) \<le> MAX_SIZE \<Longrightarrow> 0 \<le> sint off \<Longrightarrow>
      MAX_SIZE < unat off + length data \<Longrightarrow> unat off + length data < 2 ^ 63 \<Longrightarrow>
      wr d data off = Some (neg_errno EIO, d)"
    and rs_law: "unat n \<le> MAX_SIZE \<Longrightarrow>
      \<exists>d'. rs n d = Some d' \<and> bytes d' = resize (unat n) (bytes d)"
begin

lemma write_then_read:
  assumes "length (bytes d) \<le> MAX_SIZE" and "0 \<le> sint off"
    and fits: "unat off + length data \<le> MAX_SIZE" and len: "unat len = length data"
  shows "\<exists>n d'. wr d data off = Some (n, d') \<and> rd d' len off = Some data"
proof -
  obtain d' where d': "wr d data off = Some (of_nat (length data), d')"
      "bytes d' = write_spec (unat off) data (bytes d)"
    using wr_law assms by blast
  moreover have "length (bytes d') \<le> MAX_SIZE"
    using d' assms by simp
  ultimately show ?thesis
    using assms by (simp add: rd_law read_write_spec)
qed

lemma write_keeps_other_bytes:
  assumes "length (bytes d) \<le> MAX_SIZE" "0 \<le> sint off" "unat off + length data \<le> MAX_SIZE"
    and "wr d data off = Some (n, d')" "i < length (bytes d)"
    and "i < unat off \<or> unat off + length data \<le> i"
  shows "bytes d' ! i = bytes d ! i"
  using wr_law [of d off data] assms by (auto simp: nth_write_spec)

lemma two_writes_as_one:
  assumes ok: "length (bytes d) \<le> MAX_SIZE" "0 \<le> sint off"
    and fits: "unat off + length (a @ c) \<le> MAX_SIZE"
    and off': "unat off' = unat off + length a" "0 \<le> sint off'"
    and wa: "wr d a off = Some (na, d1)" and wc: "wr d1 c off' = Some (nc, d2)"
  shows "\<exists>d3. wr d (a @ c) off = Some (of_nat (length (a @ c)), d3) \<and> bytes d2 = bytes d3"
proof -
  have "bytes d1 = write_spec (unat off) a (bytes d)"
    using wr_law [of d off a] ok fits wa by auto
  moreover from this have "bytes d2 = write_spec (unat off') c (bytes d1)"
    using wr_law [of d1 off' c] ok fits off' wc by auto
  ultimately show ?thesis
    using wr_law [OF ok fits] off' by (auto simp: write_spec_append)
qed

lemma truncate_then_read:
  assumes "unat n \<le> MAX_SIZE" "rs n d = Some d'" "unat n \<le> unat off" "0 \<le> sint off"
  shows "rd d' len off = Some []"
  using rs_law [of n d] assms by (auto simp: rd_law)

end

lemma unat_ucast_small: "unat w \<le> MAX_SIZE \<Longrightarrow> unat (ucast w :: u32) = unat w"
  for w :: u64
  by (simp add: unat_ucast_u32)

lemma memdata_read_in_range:
  assumes "length b \<le> MAX_SIZE" "0 \<le> sint off"
  shows "memdata_read b len off = Some (take (unat len) (drop (unat off) b))"
proof -
  define k n where "k = unat off" and "n = unat len"
  have s: "sint off = int k" "uint len = int n"
    using sint_nonneg_unat [OF assms(2)] by (simp_all add: k_def n_def)
  show ?thesis
  proof (cases "length b \<le> k")
    case True
    then show ?thesis
      by (simp add: memdata_read_def s flip: k_def n_def)
  next
    case False
    then have i: "unat (ucast off :: u32) = k"
      using assms(1) unat_ucast_small [of off] by (simp add: k_def)
    have "unat (of_int (int (length b) - int k) :: u32) = length b - k"
      using False assms(1) by (simp add: unat_of_nat flip: of_nat_diff)
    then show ?thesis
      using False by (auto simp: memdata_read_def s i Let_def simp flip: k_def n_def)
  qed
qed

lemma memdata_write_in_range:
  assumes "length b \<le> MAX_SIZE" "0 \<le> sint off" "unat off + length data \<le> MAX_SIZE"
  shows "memdata_write b data off =
    Some (of_nat (length data), write_spec (unat off) data b)"
proof -
  define k where "k = unat off"
  have k: "k + length data \<le> MAX_SIZE" and s: "sint off = int k"
    and i: "unat (ucast off :: u32) = k"
    using assms sint_nonneg_unat [OF assms(2)] unat_ucast_small [of off] by (simp_all add: k_def)
  have stop: "sint off + int (length data) = int (k + length data)"
    by (simp add: s)
  define b' where "b' = resize (max (length b) (k + length data)) b"
  have grown: "(if int (length b) < int (k + length data) then resize (k + length data) b else b) = b'"
  proof (cases "length b < k + length data")
    case False
    then have "b' = b" by (simp only: b'_def max_absorb1 not_less resize_same)
    then show ?thesis using False by (simp only: of_nat_less_iff if_False)
  qed (simp add: b'_def max_absorb2)
  have fits: "k + length data \<le> length b'"
    by (simp add: b'_def)
  have "write_spec (unat off) data b = overwrite k data b'"
    by (simp add: write_spec_def b'_def k_def)
  then show ?thesis
    unfolding memdata_write_def Let_def stop nat_int grown i
    using k fits by simp
qed

lemma memdata_write_too_big:
  assumes "length b \<le> MAX_SIZE" "0 \<le> sint off" "MAX_SIZE < unat off + length data"
    and "unat off + length data < 2 ^ 63"
  shows "memdata_write b data off = Some (neg_errno EIO, b)"
proof -
  define k where "k = unat off"
  have stop: "sint off + int (length data) = int (k + length data)"
    using sint_nonneg_unat [OF assms(2)] by (simp add: k_def)
  show ?thesis
    unfolding memdata_write_def Let_def stop
    using assms by (simp flip: k_def)
qed

lemma memdata_setSize_in_range:
  "unat n \<le> MAX_SIZE \<Longrightarrow> memdata_setSize n b = Some (resize (unat n) b)"
  by (simp add: memdata_setSize_def unat_ucast_small)

interpretation memdata: data_file memdata_read memdata_write memdata_setSize "\<lambda>b. b"
  by unfold_locales
    (simp_all add: memdata_read_in_range memdata_write_in_range memdata_write_too_big
      memdata_setSize_in_range)

section \<open>Name maps\<close>

text \<open>
  The two containers of a directory, the backend's vector of entries and the \<open>std::map\<close> of the
  directory cache, offer the same operations on names. \<open>good\<close> is the well-formedness each keeps.
\<close>

locale name_map =
  fixes find_name :: "'m \<Rightarrow> string \<Rightarrow> 'v option"
    and add_name :: "string \<Rightarrow> 'v \<Rightarrow> 'm \<Rightarrow> 'm"
    and drop_name :: "string \<Rightarrow> 'm \<Rightarrow> 'm"
    and good :: "'m \<Rightarrow> bool"
    and fresh :: "'v \<Rightarrow> 'm \<Rightarrow> bool"
  assumes good_add: "good m \<Longrightarrow> find_name m n = None \<Longrightarrow> fresh v m \<Longrightarrow> good (add_name n v m)"
    and good_drop: "good m \<Longrightarrow> good (drop_name n m)"
    and find_add: "good m \<Longrightarrow> find_name m n = None \<Longrightarrow>
      find_name (add_name n v m) k = (if k = n then Some v else find_name m k)"
    and find_drop: "good m \<Longrightarrow> find_name (drop_name n m) k = (if k = n then None else find_name m k)"
    and fresh_drop: "fresh v m \<Longrightarrow> fresh v (drop_name n m)"
begin

lemma add_then_find: "good m \<Longrightarrow> find_name m n = None \<Longrightarrow> find_name (add_name n v m) n = Some v"
  by (simp add: find_add)

lemma drop_then_find: "good m \<Longrightarrow> find_name (drop_name n m) n = None"
  by (simp add: find_drop)

lemma replace_good: "good m \<Longrightarrow> fresh v m \<Longrightarrow> good (add_name n v (drop_name n m))"
  by (simp add: good_add good_drop find_drop fresh_drop)

lemma replace_find:
  "good m \<Longrightarrow> find_name (add_name n v (drop_name n m)) k = (if k = n then Some v else find_name m k)"
  by (simp add: find_add good_drop find_drop)

lemma add_then_drop_find:
  "good m \<Longrightarrow> find_name m n = None \<Longrightarrow> fresh v m \<Longrightarrow>
     find_name (drop_name n (add_name n v m)) k = find_name m k"
  by (simp add: find_drop find_add good_add)

end

text \<open>A name map that also tracks identity: a value is found under at most one name.\<close>

locale identity_map = name_map +
  fixes name_of :: "'a \<Rightarrow> 'b \<Rightarrow> string"
  assumes name_find: "good m \<Longrightarrow> find_name m n = Some v \<Longrightarrow> name_of m v = n"
begin

lemma one_name: "good m \<Longrightarrow> find_name m n = Some v \<Longrightarrow> find_name m k = Some v \<Longrightarrow> n = k"
  using name_find by metis

lemma name_of_added: "good m \<Longrightarrow> find_name m n = None \<Longrightarrow> fresh v m \<Longrightarrow>
    name_of (add_name n v m) v = n"
  by (rule name_find) (simp_all add: good_add find_add)

end

section \<open>Memory directories\<close>

text \<open>\<open>MemoryDirectory::findEntry\<close> on the vector of entries, and the vector operations.\<close>

definition findEntry :: "string \<Rightarrow> (string \<times> fid) list \<Rightarrow> (string \<times> fid) option" where
  "findEntry name es = find (\<lambda>e. fst e = name) es"

definition lookup_entry :: "(string \<times> fid) list \<Rightarrow> string \<Rightarrow> fid option" where
  "lookup_entry es name = map_option snd (findEntry name es)"

definition push_entry :: "string \<Rightarrow> fid \<Rightarrow> (string \<times> fid) list \<Rightarrow> (string \<times> fid) list" where
  "push_entry name child es = es @ [(name, child)]"

definition erase_entry :: "string \<Rightarrow> (string \<times> fid) list \<Rightarrow> (string \<times> fid) list" where
  "erase_entry name es = erase_first (\<lambda>e. fst e = name) es"

definition erase_child :: "fid \<Rightarrow> (string \<times> fid) list \<Rightarrow> (string \<times> fid) list" where
  "erase_child child es = erase_first (\<lambda>e. snd e = child) es"

definition name_of_child :: "(string \<times> fid) list \<Rightarrow> fid \<Rightarrow> string" where
  "name_of_child es child = (case find (\<lambda>e. snd e = child) es of Some e \<Rightarrow> fst e | None \<Rightarrow> '''')"

text \<open>Entries are well-formed when no name and no child occurs twice.\<close>

definition good_entries :: "(string \<times> fid) list \<Rightarrow> bool" where
  "good_entries es \<longleftrightarrow> distinct (map fst es) \<and> distinct (map snd es)"

lemma lookup_entry_map_of: "lookup_entry es name = map_of es name"
  by (induction es) (auto simp: lookup_entry_def findEntry_def)

lemma lookup_entry_None: "lookup_entry es name = None \<longleftrightarrow> name \<notin> fst ` set es"
  by (simp add: lookup_entry_map_of map_of_eq_None_iff)

lemma lookup_entry_Some:
  "good_entries es \<Longrightarrow> lookup_entry es name = Some c \<longleftrightarrow> (name, c) \<in> set es"
  by (simp add: lookup_entry_map_of good_entries_def)

lemma lookup_entry_in: "lookup_entry es name = Some c \<Longrightarrow> (name, c) \<in> set es"
  by (simp add: lookup_entry_map_of map_of_SomeD)

lemma name_of_child_unique:
  "distinct (map snd es) \<Longrightarrow> (n, c) \<in> set es \<Longrightarrow> name_of_child es c = n"
proof (induction es)
  case (Cons e es)
  then show ?case
    by (cases e) (force simp: name_of_child_def)
qed simp

lemma erase_entry_child:
  "good_entries es \<Longrightarrow> (n, c) \<in> set es \<Longrightarrow> erase_child c es = erase_entry n es"
proof (induction es)
  case (Cons e es)
  then show ?case
    by (cases e) (force simp: erase_child_def erase_entry_def good_entries_def)
qed simp

lemma set_erase_entry:
  "good_entries es \<Longrightarrow> set (erase_entry n es) = {e \<in> set es. fst e \<noteq> n}"
  by (simp add: erase_entry_def good_entries_def set_erase_first_key)

lemma set_erase_child:
  "good_entries es \<Longrightarrow> set (erase_child c es) = {e \<in> set es. snd e \<noteq> c}"
  by (simp add: erase_child_def good_entries_def set_erase_first_key)

lemma good_erase_entry: "good_entries es \<Longrightarrow> good_entries (erase_entry n es)"
  by (simp add: good_entries_def erase_entry_def distinct_map_erase_first)

lemma good_erase_child: "good_entries es \<Longrightarrow> good_entries (erase_child c es)"
  by (simp add: good_entries_def erase_child_def distinct_map_erase_first)

interpretation memdir: identity_map lookup_entry push_entry erase_entry good_entries
    "\<lambda>c es. c \<notin> snd ` set es" name_of_child
proof unfold_locales
  fix m :: "(string \<times> fid) list" and n k :: string and v :: fid
  show "good_entries m \<Longrightarrow> lookup_entry m n = None \<Longrightarrow> v \<notin> snd ` set m \<Longrightarrow>
      good_entries (push_entry n v m)"
    by (auto simp: lookup_entry_None good_entries_def push_entry_def)
  show "good_entries m \<Longrightarrow> good_entries (erase_entry n m)"
    by (rule good_erase_entry)
  show "good_entries m \<Longrightarrow> lookup_entry m n = None \<Longrightarrow>
      lookup_entry (push_entry n v m) k = (if k = n then Some v else lookup_entry m k)"
    by (auto simp: lookup_entry_map_of push_entry_def map_add_def split: option.splits)
  show "good_entries m \<Longrightarrow>
      lookup_entry (erase_entry n m) k = (if k = n then None else lookup_entry m k)"
    by (simp add: lookup_entry_map_of erase_entry_def good_entries_def map_of_erase_first_key)
  show "v \<notin> snd ` set m \<Longrightarrow> v \<notin> snd ` set (erase_entry n m)"
    using set_erase_first_subset unfolding erase_entry_def by fastforce
  show "good_entries m \<Longrightarrow> lookup_entry m n = Some v \<Longrightarrow> name_of_child m v = n"
    by (simp add: lookup_entry_Some good_entries_def name_of_child_unique)
qed

text \<open>The directory cache is an ordered map.\<close>

interpretation dcmap: name_map map_of omap_insert omap_erase
    "\<lambda>dc. sorted_wrt (<) (map fst dc)" "\<lambda>_ _. True"
  by unfold_locales
    (auto simp: sorted_omap_insert sorted_omap_erase map_of_omap_insert map_of_omap_erase
      map_of_eq_None_iff)

text \<open>Which directories track identity themselves: the override in memory_backend.h.\<close>

fun maintainsFileIdentity :: "node \<Rightarrow> bool" where
  "maintainsFileIdentity (MemoryDirectory _ _) = True"
| "maintainsFileIdentity _ = False"

lemma maintains_iff [simp]: "maintainsFileIdentity n \<longleftrightarrow> kind_of n = DirectoryKind"
  by (cases n) auto

text \<open>Replacing one of the two containers of a directory object.\<close>

definition set_entries :: "fid \<Rightarrow> (string \<times> fid) list \<Rightarrow> fs \<Rightarrow> fs" where
  [fs_defs]: "set_entries d es = upd_file d (f_node_update (\<lambda>n.
     case n of MemoryDirectory _ dc \<Rightarrow> MemoryDirectory es dc | _ \<Rightarrow> n))"

definition set_dcache :: "fid \<Rightarrow> (string \<times> DCacheEntry) list \<Rightarrow> fs \<Rightarrow> fs" where
  [fs_defs]: "set_dcache d dc = upd_file d (f_node_update (\<lambda>n.
     case n of MemoryDirectory es _ \<Rightarrow> MemoryDirectory es dc | _ \<Rightarrow> n))"

lemma set_entries_effect [simp]:
  "kind (set_entries d es s) g = kind s g"
  "entries (set_entries d es s) g = (if g = d \<and> is_dir s d then es else entries s g)"
  "dcache (set_entries d es s) g = dcache s g"
  "parent_of (set_entries d es s) g = parent_of s g" "mode_of (set_entries d es s) g = mode_of s g"
  "backend_of (set_entries d es s) g = backend_of s g"
  "fs_next (set_entries d es s) = fs_next s" "fs_root (set_entries d es s) = fs_root s"
  "fs_cwd (set_entries d es s) = fs_cwd s" "fs_table (set_entries d es s) = fs_table s"
  "fs_ofiles (set_entries d es s) = fs_ofiles s" "fs_ofnext (set_entries d es s) = fs_ofnext s"
  by (auto simp: fs_defs split: node.splits)

lemma set_dcache_effect [simp]:
  "kind (set_dcache d dc s) g = kind s g"
  "dcache (set_dcache d dc s) g = (if g = d \<and> is_dir s d then dc else dcache s g)"
  "entries (set_dcache d dc s) g = entries s g"
  "parent_of (set_dcache d dc s) g = parent_of s g" "mode_of (set_dcache d dc s) g = mode_of s g"
  "backend_of (set_dcache d dc s) g = backend_of s g"
  "fs_next (set_dcache d dc s) = fs_next s" "fs_root (set_dcache d dc s) = fs_root s"
  "fs_cwd (set_dcache d dc s) = fs_cwd s" "fs_table (set_dcache d dc s) = fs_table s"
  "fs_ofiles (set_dcache d dc s) = fs_ofiles s" "fs_ofnext (set_dcache d dc s) = fs_ofnext s"
  by (auto simp: fs_defs split: node.splits)

text \<open>
  The operations of \<open>MemoryDirectory\<close> on the state. \<open>removeChild\<close> and \<open>insertMove\<close> return 0 in
  the code; \<open>insertMove\<close> dereferences the parent of the file, and a null parent is undefined
  behaviour (\<open>None\<close>). The assertion of \<open>insertChild\<close> is compiled out (\<open>NDEBUG\<close>, memfs.cpp).
\<close>

definition memdir_getChild :: "fid \<Rightarrow> string \<Rightarrow> fs \<Rightarrow> fid option" where
  "memdir_getChild d name s = lookup_entry (entries s d) name"

definition memdir_insertChild :: "fid \<Rightarrow> string \<Rightarrow> fid \<Rightarrow> fs \<Rightarrow> fs" where
  "memdir_insertChild d name child s = set_entries d (push_entry name child (entries s d)) s"

definition memdir_removeChild :: "fid \<Rightarrow> string \<Rightarrow> fs \<Rightarrow> fs" where
  "memdir_removeChild d name s =
    (case findEntry name (entries s d) of
       None \<Rightarrow> s
     | Some e \<Rightarrow>
         let s = setParent (snd e) None s in
         set_entries d (erase_entry name (entries s d)) s)"

definition memdir_insertMove :: "fid \<Rightarrow> string \<Rightarrow> fid \<Rightarrow> fs \<Rightarrow> fs option" where
  "memdir_insertMove d name child s =
    (case parent_of s child of
       None \<Rightarrow> None
     | Some p \<Rightarrow>
         let s = set_entries p (erase_child child (entries s p)) s;
             s = memdir_removeChild d name s in
         Some (memdir_insertChild d name child s))"

definition memdir_getName :: "fid \<Rightarrow> fid \<Rightarrow> fs \<Rightarrow> string" where
  "memdir_getName d child s = name_of_child (entries s d) child"

text \<open>
  A vector of entries has fewer than $2^{31}$ elements, so the \<open>ssize_t\<close> of the code does not
  wrap and the count is a natural number. An inode number is the address of the file object.
\<close>

definition memdir_getNumEntries :: "fid \<Rightarrow> fs \<Rightarrow> nat" where
  "memdir_getNumEntries d s = length (entries s d)"

definition memdir_getEntries :: "fid \<Rightarrow> fs \<Rightarrow> dirent list" where
  "memdir_getEntries d s =
     map (\<lambda>(n, c). \<lparr>de_name = n, de_kind = kind s c, de_ino = c\<rparr>) (entries s d)"

section \<open>Creating files\<close>

text \<open>
  \<open>MemoryBackend::createFile\<close>, \<open>createDirectory\<close> and \<open>createSymlink\<close>, with the constructors of
  \<open>DataFile\<close>, \<open>Directory\<close> and \<open>Symlink\<close>. The backend is its own \<open>this\<close> pointer.
\<close>

definition createFile :: "u32 \<Rightarrow> backend_t option \<Rightarrow> fs \<Rightarrow> fid \<times> fs" where
  "createFile mode b = new_file (MemoryDataFile []) (mode OR S_IFREG) b True"

definition createDirectory :: "u32 \<Rightarrow> backend_t option \<Rightarrow> fs \<Rightarrow> fid \<times> fs" where
  "createDirectory mode b = new_file (MemoryDirectory [] []) (mode OR S_IFDIR) b True"

definition createSymlink :: "string \<Rightarrow> backend_t option \<Rightarrow> fs \<Rightarrow> fid \<times> fs" where
  "createSymlink tgt b = new_file (MemorySymlink tgt) S_IFLNK b True"

text \<open>
  \<open>insertDataFile\<close>, \<open>insertDirectory\<close> and \<open>insertSymlink\<close>: create with the directory's own
  backend, then append the entry. They never fail.
\<close>

definition memdir_insertDataFile :: "fid \<Rightarrow> string \<Rightarrow> u32 \<Rightarrow> fs \<Rightarrow> fid \<times> fs" where
  "memdir_insertDataFile d name mode s =
    (let (c, s) = createFile mode (backend_of s d) s in (c, memdir_insertChild d name c s))"

definition memdir_insertDirectory :: "fid \<Rightarrow> string \<Rightarrow> u32 \<Rightarrow> fs \<Rightarrow> fid \<times> fs" where
  "memdir_insertDirectory d name mode s =
    (let (c, s) = createDirectory mode (backend_of s d) s in (c, memdir_insertChild d name c s))"

definition memdir_insertSymlink :: "fid \<Rightarrow> string \<Rightarrow> string \<Rightarrow> fs \<Rightarrow> fid \<times> fs" where
  "memdir_insertSymlink d name tgt s =
    (let (c, s) = createSymlink tgt (backend_of s d) s in (c, memdir_insertChild d name c s))"

text \<open>\<open>createMemoryBackend\<close> and \<open>WasmFS::addBackend\<close>: the table only grows.\<close>

definition createMemoryBackend :: "fs \<Rightarrow> backend_t \<times> fs" where
  "createMemoryBackend s = (fs_backends s, s\<lparr>fs_backends := Suc (fs_backends s)\<rparr>)"

end
