(* ===== verification/DataFiles.thy ===== *)
theory DataFiles
  imports MemoryBackend
begin

text \<open>
  The virtual methods of \<open>DataFile\<close> (file.h) as one function each over the class of the object:
  the memory backend's data file, the special files of /dev (special_files.cpp), and the two ends
  of a pipe (pipe_backend.h). An \<open>ssize_t\<close> or \<open>int\<close> result is a 32-bit word, negative for an
  error. \<open>None\<close> is undefined behaviour or an abort, as in the theory MemoryBackend, and the
  dispatch on an object that is no data file, which the code's casts exclude.
\<close>

section \<open>Special files\<close>

text \<open>
  \<open>RandomFile::read\<close>: chunks of at most 256 bytes, one \<open>getentropy\<close> call each. The result is
  the bytes in order and the next call number. \<open>getentropy\<close> fills the whole range it is given.
\<close>

function random_fill :: "host \<Rightarrow> nat \<Rightarrow> nat \<Rightarrow> byte list \<times> nat" where
  "random_fill h c n =
    (if n = 0 then ([], c)
     else let k = min n 256; bs = resize k (host_getentropy h c k);
              (rest, c') = random_fill h (Suc c) (n - k) in
          (bs @ rest, c'))"
  by auto
termination
  by (relation "measure (\<lambda>(h, c, n). n)") auto

declare random_fill.simps [simp del]

lemma length_random_fill [simp]: "length (fst (random_fill h c n)) = n"
proof (induction h c n rule: random_fill.induct)
  case (1 h c n)
  then show ?case
    by (subst random_fill.simps) (auto simp: Let_def split_beta)
qed

text \<open>The call to \<open>write_stdout\<close> or \<open>write_stderr\<close>.\<close>

definition write_std :: "std_stream \<Rightarrow> byte list \<Rightarrow> u64 \<Rightarrow> fs \<Rightarrow> u32 \<times> fs" where
  "write_std strm data offset s =
    (host_write_std (fs_host s) (fs_calls s) strm data offset,
     s\<lparr>fs_calls := Suc (fs_calls s), fs_output := fs_output s @ [(strm, data, offset)]\<rparr>)"

text \<open>
  The methods of the special files that do something. \<open>read\<close> stores into the buffer at an address of
  the linear memory; what the host delivers for stdin beyond the length of the buffer is not stored.
  \<open>flush\<close> of a stream writes a null when bytes wait in its buffer, which no method fills.
\<close>

definition NullFile_write :: "byte list \<Rightarrow> u32" where
  [simp]: "NullFile_write data = of_nat (length data)"

definition StdinFile_read :: "u32 \<Rightarrow> u32 \<Rightarrow> u64 \<Rightarrow> fs \<Rightarrow> u32 \<times> fs" where
  [simp]: "StdinFile_read buf len offset s =
    (let (n, bs) = host_read_stdin (fs_host s) (fs_calls s) len offset in
     (n, s\<lparr>fs_calls := Suc (fs_calls s), fs_mem := mem_store buf (take (unat len) bs) (fs_mem s)\<rparr>))"

definition WritingStdFile_flush :: "std_stream \<Rightarrow> byte list \<Rightarrow> fs \<Rightarrow> u32 \<times> fs" where
  [simp]: "WritingStdFile_flush strm wb s = (0, if wb \<noteq> [] then snd (write_std strm [0] 0 s) else s)"

definition RandomFile_read :: "u32 \<Rightarrow> u32 \<Rightarrow> fs \<Rightarrow> u32 \<times> fs" where
  [simp]: "RandomFile_read buf len s =
    (let (bs, c) = random_fill (fs_host s) (fs_calls s) (unat len) in
     (len, s\<lparr>fs_calls := c, fs_mem := mem_store buf bs (fs_mem s)\<rparr>))"

section \<open>Pipes\<close>

text \<open>
  The loops over the queue of a pipe: bytes are pushed one by one, and taken from the front until the
  queue is empty or the length reached. They are an append and a split.
\<close>

fun pipe_push :: "byte list \<Rightarrow> byte list \<Rightarrow> byte list" where
  "pipe_push q [] = q"
| "pipe_push q (b # bs) = pipe_push (q @ [b]) bs"

fun pipe_pop :: "nat \<Rightarrow> byte list \<Rightarrow> byte list \<times> byte list" where
  "pipe_pop 0 q = ([], q)"
| "pipe_pop (Suc n) [] = ([], [])"
| "pipe_pop (Suc n) (b # q) = (let (bs, q) = pipe_pop n q in (b # bs, q))"

lemma pipe_push [simp]: "pipe_push q bs = q @ bs"
  by (induction bs arbitrary: q) simp_all

lemma pipe_pop [simp]: "pipe_pop n q = (take n q, drop n q)"
  by (induction n q rule: pipe_pop.induct) simp_all

definition PipeFile_write :: "nat \<Rightarrow> byte list \<Rightarrow> fs \<Rightarrow> u32 \<times> fs" where
  [simp]: "PipeFile_write p data s =
    (of_nat (length data), s\<lparr>fs_pipes := (fs_pipes s)(p := pipe_push (fs_pipes s p) data)\<rparr>)"

definition PipeFile_read :: "nat \<Rightarrow> u32 \<Rightarrow> u32 \<Rightarrow> fs \<Rightarrow> u32 \<times> fs" where
  [simp]: "PipeFile_read p buf len s =
    (let (bs, q) = pipe_pop (unat len) (fs_pipes s p) in
     (of_nat (length bs), s\<lparr>fs_pipes := (fs_pipes s)(p := q), fs_mem := mem_store buf bs (fs_mem s)\<rparr>))"

section \<open>Dispatch\<close>

text \<open>\<open>open\<close> and \<open>close\<close>: every class returns 0.\<close>

fun df_open :: "node \<Rightarrow> u32 \<Rightarrow> u32" where
  "df_open _ _ = 0"

fun df_close :: "node \<Rightarrow> u32" where
  "df_close _ = 0"

definition df_write :: "fid \<Rightarrow> byte list \<Rightarrow> u64 \<Rightarrow> fs \<Rightarrow> (u32 \<times> fs) option" where
  "df_write f data offset s =
    (case node_of s f of
       MemoryDataFile b \<Rightarrow>
         (case memdata_write b data offset of
            None \<Rightarrow> None
          | Some (r, b') \<Rightarrow> Some (r, set_node f (MemoryDataFile b') s))
     | NullFile \<Rightarrow> Some (NullFile_write data, s)
     | StdinFile \<Rightarrow> Some (neg_errno EINVAL, s)
     | WritingStdFile strm _ \<Rightarrow> Some (write_std strm data offset s)
     | RandomFile \<Rightarrow> Some (neg_errno EINVAL, s)
     | PipeFile p \<Rightarrow> Some (PipeFile_write p data s)
     | _ \<Rightarrow> None)"

definition df_read :: "fid \<Rightarrow> u32 \<Rightarrow> u32 \<Rightarrow> u64 \<Rightarrow> fs \<Rightarrow> (u32 \<times> fs) option" where
  "df_read f buf len offset s =
    (case node_of s f of
       MemoryDataFile b \<Rightarrow>
         (case memdata_read b len offset of
            None \<Rightarrow> None
          | Some bs \<Rightarrow> Some (of_nat (length bs), s\<lparr>fs_mem := mem_store buf bs (fs_mem s)\<rparr>))
     | NullFile \<Rightarrow> Some (0, s)
     | StdinFile \<Rightarrow> Some (StdinFile_read buf len offset s)
     | WritingStdFile _ _ \<Rightarrow> Some (neg_errno EINVAL, s)
     | RandomFile \<Rightarrow> Some (RandomFile_read buf len s)
     | PipeFile p \<Rightarrow> Some (PipeFile_read p buf len s)
     | _ \<Rightarrow> None)"

text \<open>\<open>getSize\<close> is defined for every file, also directories and symbolic links.\<close>

definition getSize :: "fid \<Rightarrow> fs \<Rightarrow> u64" where
  "getSize f s =
    (case node_of s f of
       MemoryDataFile b \<Rightarrow> of_nat (length b)
     | MemoryDirectory _ _ \<Rightarrow> 4096
     | MemorySymlink tgt \<Rightarrow> of_nat (length tgt)
     | PipeFile p \<Rightarrow> of_nat (length (fs_pipes s p))
     | _ \<Rightarrow> 0)"

definition df_setSize :: "fid \<Rightarrow> u64 \<Rightarrow> fs \<Rightarrow> (u32 \<times> fs) option" where
  "df_setSize f sz s =
    (case node_of s f of
       MemoryDataFile b \<Rightarrow>
         (case memdata_setSize sz b of
            None \<Rightarrow> None
          | Some b' \<Rightarrow> Some (0, set_node f (MemoryDataFile b') s))
     | NullFile \<Rightarrow> Some (neg_errno EPERM, s)
     | StdinFile \<Rightarrow> Some (neg_errno EPERM, s)
     | WritingStdFile _ _ \<Rightarrow> Some (neg_errno EPERM, s)
     | RandomFile \<Rightarrow> Some (neg_errno EPERM, s)
     | PipeFile _ \<Rightarrow> Some (0, s)
     | _ \<Rightarrow> None)"

definition df_flush :: "fid \<Rightarrow> fs \<Rightarrow> u32 \<times> fs" where
  "df_flush f s =
    (case node_of s f of
       WritingStdFile strm wb \<Rightarrow> WritingStdFile_flush strm wb s
     | _ \<Rightarrow> (0, s))"

section \<open>What the operations leave alone\<close>

lemma same_shape_write_std [frame]: "same_shape s (snd (write_std strm data off s))"
  by (simp add: write_std_def same_shape_def)

lemma df_write_shape [frame]: "df_write f data off s = Some (r, t) \<Longrightarrow> same_shape s t"
  by (auto simp: df_write_def same_shape_set_node same_shape_outside split: node.splits option.splits)
    (metis same_shape_write_std snd_conv)

lemma df_read_shape [frame]: "df_read f buf len off s = Some (r, t) \<Longrightarrow> same_shape s t"
  by (auto simp: df_read_def same_shape_def Let_def split: node.splits option.splits prod.splits)

lemma df_setSize_shape [frame]: "df_setSize f sz s = Some (r, t) \<Longrightarrow> same_shape s t"
  by (auto simp: df_setSize_def same_shape_set_node split: node.splits option.splits)

lemma df_flush_shape [frame]: "same_shape s (snd (df_flush f s))"
  by (auto simp: df_flush_def same_shape_write_std split: node.splits)

text \<open>No data operation touches the file table.\<close>

definition same_table :: "fs \<Rightarrow> fs \<Rightarrow> bool" where
  "same_table s t \<longleftrightarrow> fs_table t = fs_table s \<and> fs_ofiles t = fs_ofiles s \<and> fs_ofnext t = fs_ofnext s"

lemma df_write_table [frame]: "df_write f data off s = Some (r, t) \<Longrightarrow> same_table s t"
  by (auto simp: df_write_def same_table_def fs_defs write_std_def split: node.splits option.splits)

lemma df_read_table [frame]: "df_read f buf len off s = Some (r, t) \<Longrightarrow> same_table s t"
  by (auto simp: df_read_def same_table_def Let_def split: node.splits option.splits prod.splits)

lemma df_setSize_table [frame]: "df_setSize f sz s = Some (r, t) \<Longrightarrow> same_table s t"
  by (auto simp: df_setSize_def same_table_def fs_defs split: node.splits option.splits)

lemma df_flush_table [frame]: "same_table s (snd (df_flush f s))"
  by (auto simp: df_flush_def same_table_def write_std_def split: node.splits)

section \<open>Memory files and pipes\<close>

lemma df_write_memory:
  assumes "node_of s f = MemoryDataFile b" "length b \<le> MAX_SIZE" "0 \<le> sint off"
    and "unat off + length data \<le> MAX_SIZE"
  shows "df_write f data off s = Some (of_nat (length data),
    set_node f (MemoryDataFile (write_spec (unat off) data b)) s)"
  using assms by (simp add: df_write_def memdata_write_in_range)

lemma df_read_memory:
  assumes "node_of s f = MemoryDataFile b" "length b \<le> MAX_SIZE" "0 \<le> sint off"
  shows "df_read f buf len off s =
    (let bs = take (unat len) (drop (unat off) b) in
     Some (of_nat (length bs), s\<lparr>fs_mem := mem_store buf bs (fs_mem s)\<rparr>))"
  using assms by (simp add: df_read_def memdata_read_in_range Let_def)

lemma pipe_write_read:
  assumes "node_of s w = PipeFile p" "node_of s r = PipeFile p" "fs_pipes s p = q"
    and "unat len = length q + length data"
  shows "\<exists>t. df_write w data off s = Some (of_nat (length data), t) \<and>
     df_read r buf len off' t = Some (len,
       t\<lparr>fs_pipes := (fs_pipes t)(p := []), fs_mem := mem_store buf (q @ data) (fs_mem t)\<rparr>)"
proof -
  have "len = of_nat (length q + length data)"
    using assms(4) by (metis of_nat_unat_same)
  then show ?thesis
    using assms by (simp add: df_write_def df_read_def Let_def)
qed

end
