(* ===== verification/Directory.thy ===== *)
theory Directory
  imports DataFiles
begin

text \<open>
  \<open>Directory::Handle\<close> (file.h, file.cpp): the operations on a directory that combine its directory
  cache with its backend. The parent pointer of a directory decides whether it is still linked;
  the root is its own parent.
\<close>

section \<open>Operations\<close>

text \<open>\<open>cacheChild\<close>; \<open>std::map::insert\<close> leaves an existing key alone.\<close>

definition cacheChild :: "fid \<Rightarrow> string \<Rightarrow> fid \<Rightarrow> DCacheKind \<Rightarrow> fs \<Rightarrow> fs" where
  "cacheChild d name child k s =
    (let s = (if k = DCMount \<or> \<not> maintainsFileIdentity (node_of s d)
              then set_dcache d (omap_insert name \<lparr>dc_kind = k, dc_file = child\<rparr> (dcache s d)) s
              else s) in
     setParent child (Some d) s)"

definition getChild :: "fid \<Rightarrow> string \<Rightarrow> fs \<Rightarrow> fid option \<times> fs" where
  "getChild d name s =
    (case parent_of s d of
       None \<Rightarrow> (None, s)
     | Some p \<Rightarrow>
         if name = ''.'' then (Some d, s)
         else if name = ''..'' then (Some p, s)
         else (case map_of (dcache s d) name of
                 Some e \<Rightarrow> (Some (dc_file e), s)
               | None \<Rightarrow>
                   (case memdir_getChild d name s of
                      None \<Rightarrow> (None, s)
                    | Some c \<Rightarrow> (Some c, cacheChild d name c DCNormal s))))"

definition mountChild :: "fid \<Rightarrow> string \<Rightarrow> fid \<Rightarrow> fs \<Rightarrow> bool \<times> fs" where
  "mountChild d name child s =
    (case parent_of s d of
       None \<Rightarrow> (False, s)
     | Some _ \<Rightarrow> (True, cacheChild d name child DCMount s))"

definition insertDataFile :: "fid \<Rightarrow> string \<Rightarrow> u32 \<Rightarrow> fs \<Rightarrow> fid option \<times> fs" where
  "insertDataFile d name mode s =
    (case parent_of s d of
       None \<Rightarrow> (None, s)
     | Some _ \<Rightarrow>
         let (c, s) = memdir_insertDataFile d name mode s in
         (Some c, updateMTime d (cacheChild d name c DCNormal s)))"

definition insertDirectory :: "fid \<Rightarrow> string \<Rightarrow> u32 \<Rightarrow> fs \<Rightarrow> fid option \<times> fs" where
  "insertDirectory d name mode s =
    (case parent_of s d of
       None \<Rightarrow> (None, s)
     | Some _ \<Rightarrow>
         let (c, s) = memdir_insertDirectory d name mode s in
         (Some c, updateMTime d (cacheChild d name c DCNormal s)))"

definition insertSymlink :: "fid \<Rightarrow> string \<Rightarrow> string \<Rightarrow> fs \<Rightarrow> fid option \<times> fs" where
  "insertSymlink d name tgt s =
    (case parent_of s d of
       None \<Rightarrow> (None, s)
     | Some _ \<Rightarrow>
         let (c, s) = memdir_insertSymlink d name tgt s in
         (Some c, updateMTime d (cacheChild d name c DCNormal s)))"

text \<open>
  \<open>insertMove\<close>. The old parent is dereferenced: \<open>None\<close> when the file has no parent.
\<close>

definition insertMove :: "fid \<Rightarrow> string \<Rightarrow> fid \<Rightarrow> fs \<Rightarrow> ((errno + unit) \<times> fs) option" where
  "insertMove d name child s =
    (case parent_of s d of
       None \<Rightarrow> Some (Inl EPERM, s)
     | Some _ \<Rightarrow>
       (case parent_of s child of
          None \<Rightarrow> None
        | Some oldParent \<Rightarrow>
          let oldIt = find (\<lambda>kv. dc_file (snd kv) = child) (dcache s oldParent) in
          (case memdir_insertMove d name child s of
             None \<Rightarrow> None
           | Some s \<Rightarrow>
             let s = (case oldIt of
                        None \<Rightarrow> s
                      | Some (oldName, entry) \<Rightarrow>
                          let s = set_dcache oldParent (omap_erase oldName (dcache s oldParent)) s in
                          (case map_of (dcache s d) name of
                             None \<Rightarrow> set_dcache d (omap_insert name entry (dcache s d)) s
                           | Some it \<Rightarrow>
                               let s = setParent (dc_file it) None s in
                               set_dcache d (omap_assign name entry (dcache s d)) s));
                 s = setParent child (Some d) s;
                 s = updateMTime oldParent s;
                 s = updateMTime d s in
             Some (Inr (), s))))"

text \<open>\<open>removeChild\<close>; the backend's \<open>removeChild\<close> never fails here.\<close>

definition removeChild :: "fid \<Rightarrow> string \<Rightarrow> fs \<Rightarrow> (errno + unit) \<times> fs" where
  "removeChild d name s =
    (case map_of (dcache s d) name of
       None \<Rightarrow> (Inr (), updateMTime d (memdir_removeChild d name s))
     | Some e \<Rightarrow>
         if dc_kind e = DCMount then (Inr (), set_dcache d (omap_erase name (dcache s d)) s)
         else
           let s = memdir_removeChild d name s;
               s = setParent (dc_file e) None s;
               s = set_dcache d (omap_erase name (dcache s d)) s in
           (Inr (), updateMTime d s))"

definition getName :: "fid \<Rightarrow> fid \<Rightarrow> fs \<Rightarrow> string" where
  "getName d child s =
    (if maintainsFileIdentity (node_of s d) then memdir_getName d child s
     else case find (\<lambda>kv. dc_file (snd kv) = child) (dcache s d) of
            Some kv \<Rightarrow> fst kv | None \<Rightarrow> '''')"

text \<open>The count of mounts is a \<open>size_t\<close> added to the backend's count.\<close>

definition mounts :: "fid \<Rightarrow> fs \<Rightarrow> (string \<times> DCacheEntry) list" where
  "mounts d s = filter (\<lambda>kv. dc_kind (snd kv) = DCMount) (dcache s d)"

definition getNumEntries :: "fid \<Rightarrow> fs \<Rightarrow> nat" where
  "getNumEntries d s = memdir_getNumEntries d s + length (mounts d s)"

definition getEntries :: "fid \<Rightarrow> fs \<Rightarrow> dirent list" where
  "getEntries d s = memdir_getEntries d s @
     map (\<lambda>(n, e). \<lparr>de_name = n, de_kind = kind s (dc_file e), de_ino = dc_file e\<rparr>) (mounts d s)"

end
