(* ===== verification/Tree.thy ===== *)
theory Tree
  imports Directory
begin

text \<open>
  The invariant of the directory tree and what the operations of \<open>Directory::Handle\<close> do to it.
  Entries and parent pointers agree, mounts are leaves in directories nobody may write to, an
  unlinked directory is empty, and every linked directory reaches the root.
\<close>

section \<open>The invariant\<close>

definition up :: "fs \<Rightarrow> (fid \<times> fid) set" where
  "up s = {(c, p). parent_of s c = Some p}"

definition wf_roots :: "fs \<Rightarrow> bool" where
  "wf_roots s \<longleftrightarrow> is_dir s (fs_root s) \<and> parent_of s (fs_root s) = Some (fs_root s) \<and>
     is_dir s (fs_cwd s)"

definition wf_maps :: "fs \<Rightarrow> bool" where
  "wf_maps s \<longleftrightarrow> (\<forall>d. good_entries (entries s d) \<and> sorted_wrt (<) (map fst (dcache s d)) \<and>
     fst ` set (entries s d) \<inter> fst ` set (dcache s d) = {})"

definition wf_entries :: "fs \<Rightarrow> bool" where
  "wf_entries s \<longleftrightarrow> (\<forall>d n c. (n, c) \<in> set (entries s d) \<longrightarrow>
     c < fs_next s \<and> parent_of s c = Some d \<and> c \<noteq> fs_root s)"

definition wf_mounts :: "fs \<Rightarrow> bool" where
  "wf_mounts s \<longleftrightarrow> (\<forall>d n e. (n, e) \<in> set (dcache s d) \<longrightarrow>
     dc_kind e = DCMount \<and> dc_file e < fs_next s \<and> parent_of s (dc_file e) = Some d \<and>
     \<not> is_dir s (dc_file e) \<and> mode_of s d AND WASMFS_PERM_WRITE = 0)"

definition wf_parents :: "fs \<Rightarrow> bool" where
  "wf_parents s \<longleftrightarrow> (\<forall>c p. parent_of s c = Some p \<longrightarrow> c < fs_next s \<and> is_dir s p)"

definition wf_unlinked :: "fs \<Rightarrow> bool" where
  "wf_unlinked s \<longleftrightarrow> (\<forall>d. is_dir s d \<longrightarrow> d < fs_next s \<and>
     (parent_of s d = None \<longrightarrow> entries s d = [] \<and> dcache s d = []))"

definition wf_linked :: "fs \<Rightarrow> bool" where
  "wf_linked s \<longleftrightarrow> (\<forall>d p. is_dir s d \<longrightarrow> parent_of s d = Some p \<longrightarrow>
     (d \<noteq> fs_root s \<longrightarrow> d \<in> snd ` set (entries s p)) \<and> (d, fs_root s) \<in> (up s)\<^sup>*)"

definition wf_tree :: "fs \<Rightarrow> bool" where
  "wf_tree s \<longleftrightarrow> wf_roots s \<and> wf_maps s \<and> wf_entries s \<and> wf_mounts s \<and> wf_parents s \<and>
     wf_unlinked s \<and> wf_linked s"

lemmas wf_parts = wf_roots_def wf_maps_def wf_entries_def wf_mounts_def wf_parents_def
  wf_unlinked_def wf_linked_def

lemma wf_root:
  assumes "wf_tree s"
  shows "is_dir s (fs_root s)" "parent_of s (fs_root s) = Some (fs_root s)" "is_dir s (fs_cwd s)"
  using assms by (simp_all add: wf_tree_def wf_roots_def)

lemma wf_containers:
  assumes "wf_tree s"
  shows "good_entries (entries s d)" "sorted_wrt (<) (map fst (dcache s d))"
    "fst ` set (entries s d) \<inter> fst ` set (dcache s d) = {}"
  using assms by (simp_all add: wf_tree_def wf_maps_def)

lemma wf_entry:
  assumes "wf_tree s" "(n, c) \<in> set (entries s d)"
  shows "c < fs_next s" "parent_of s c = Some d" "c \<noteq> fs_root s"
proof -
  have "wf_entries s" using assms(1) by (simp add: wf_tree_def)
  then show "c < fs_next s" "parent_of s c = Some d" "c \<noteq> fs_root s"
    using assms(2) unfolding wf_entries_def by blast+
qed

lemma wf_mount:
  assumes "wf_tree s" "(n, e) \<in> set (dcache s d)"
  shows "dc_kind e = DCMount" "dc_file e < fs_next s" "parent_of s (dc_file e) = Some d"
    "\<not> is_dir s (dc_file e)" "mode_of s d AND WASMFS_PERM_WRITE = 0"
proof -
  have "wf_mounts s" using assms(1) by (simp add: wf_tree_def)
  then show "dc_kind e = DCMount" "dc_file e < fs_next s" "parent_of s (dc_file e) = Some d"
    "\<not> is_dir s (dc_file e)" "mode_of s d AND WASMFS_PERM_WRITE = 0"
    using assms(2) unfolding wf_mounts_def by blast+
qed

lemma wf_parent:
  assumes "wf_tree s" "parent_of s c = Some p"
  shows "c < fs_next s" "is_dir s p"
  using assms by (simp_all add: wf_tree_def wf_parents_def)

lemma wf_dir:
  assumes "wf_tree s" "is_dir s d"
  shows "d < fs_next s"
    "parent_of s d = None \<Longrightarrow> entries s d = []" "parent_of s d = None \<Longrightarrow> dcache s d = []"
    "parent_of s d = Some p \<Longrightarrow> d \<noteq> fs_root s \<Longrightarrow> d \<in> snd ` set (entries s p)"
    "parent_of s d = Some p \<Longrightarrow> (d, fs_root s) \<in> (up s)\<^sup>*"
  using assms by (simp_all add: wf_tree_def wf_unlinked_def wf_linked_def)

lemma same_shape_up: "same_shape s t \<Longrightarrow> up t = up s"
  by (simp add: up_def same_shapeD)

lemma wf_tree_shape [frame]:
  assumes "wf_tree s" "same_shape s t"
  shows "wf_tree t"
  using assms(1) unfolding wf_tree_def wf_parts same_shape_up [OF assms(2)] same_shapeD [OF assms(2)] .

lemma wf_tree_updateMTime [simp]: "wf_tree s \<Longrightarrow> wf_tree (updateMTime f s)"
  by (erule wf_tree_shape) (rule same_shape_setters)

lemma wf_parent_linked:
  assumes "wf_tree s" "is_dir s d" "parent_of s d = Some p"
  shows "\<exists>q. parent_of s p = Some q"
proof (cases "d = fs_root s")
  case True
  then show ?thesis using assms wf_root by auto
next
  case False
  then have "entries s p \<noteq> []"
    using wf_dir(4) [OF assms(1,2)] assms(3) by auto
  then show ?thesis
    using wf_dir(2) [OF assms(1) wf_parent(2) [OF assms(1,3)]] by (cases "parent_of s p") auto
qed

section \<open>Looking up a child\<close>

text \<open>What a lookup finds, as a function of the tree alone.\<close>

definition child_of :: "fs \<Rightarrow> fid \<Rightarrow> string \<Rightarrow> fid option" where
  "child_of s d name =
    (case parent_of s d of
       None \<Rightarrow> None
     | Some p \<Rightarrow>
         if name = ''.'' then Some d else if name = ''..'' then Some p
         else (case map_of (dcache s d) name of
                 Some e \<Rightarrow> Some (dc_file e)
               | None \<Rightarrow> map_of (entries s d) name))"

lemma getChild_child_of:
  assumes "wf_tree s"
  shows "getChild d name s = (child_of s d name, s)"
proof -
  have "cacheChild d name c DCNormal s = s" if "map_of (entries s d) name = Some c" for c
  proof -
    have "(name, c) \<in> set (entries s d)"
      using that by (rule map_of_SomeD)
    then have "parent_of s c = Some d" "is_dir s d"
      using wf_entry(2) [OF assms] by (auto intro: ccontr)
    then show ?thesis by (simp add: cacheChild_def)
  qed
  then show ?thesis
    by (auto simp: getChild_def child_of_def memdir_getChild_def lookup_entry_map_of
        split: option.splits)
qed

lemma child_of_shape: "same_shape s t \<Longrightarrow> child_of t d name = child_of s d name"
  by (simp only: child_of_def same_shapeD)

lemma child_of_linked:
  assumes "wf_tree s" "is_dir s d" "child_of s d name = Some c"
  shows "\<exists>p. parent_of s c = Some p" "c < fs_next s"
proof -
  have "(\<exists>p. parent_of s c = Some p)"
    using assms wf_parent_linked [OF assms(1,2)]
    by (auto simp: child_of_def split: option.splits if_splits dest!: map_of_SomeD
        dest: wf_mount(3) [OF assms(1)] wf_entry(2) [OF assms(1)])
  then show "\<exists>p. parent_of s c = Some p" "c < fs_next s"
    using wf_parent(1) [OF assms(1)] by auto
qed

lemma child_of_normal:
  assumes "wf_tree s" "child_of s d name = Some c" "name \<noteq> ''.''" "name \<noteq> ''..''"
  shows "(name, c) \<in> set (entries s d) \<or>
    (\<exists>e. (name, e) \<in> set (dcache s d) \<and> dc_file e = c)"
  using assms(2-) by (auto simp: child_of_def split: option.splits dest!: map_of_SomeD)

lemma child_of_None:
  assumes "child_of s d name = None" "parent_of s d = Some p"
  shows "name \<noteq> ''.''" "name \<noteq> ''..''" "name \<notin> fst ` set (entries s d)"
    "name \<notin> fst ` set (dcache s d)"
  using assms by (auto simp: child_of_def map_of_eq_None_iff split: option.splits if_splits)

section \<open>Inserting a new file\<close>

text \<open>The common course of \<open>insertDataFile\<close>, \<open>insertDirectory\<close> and \<open>insertSymlink\<close>.\<close>

definition insert_new :: "fid \<Rightarrow> string \<Rightarrow> node \<Rightarrow> u32 \<Rightarrow> fs \<Rightarrow> fs" where
  "insert_new d name n m s =
    (let (c, t) = new_file n m (backend_of s d) True s in
     updateMTime d (cacheChild d name c DCNormal (memdir_insertChild d name c t)))"

lemma inserts_new:
  assumes "parent_of s d = Some p"
  shows "insertDataFile d name m s =
      (Some (fs_next s), insert_new d name (MemoryDataFile []) (m OR S_IFREG) s)"
    "insertDirectory d name m s =
      (Some (fs_next s), insert_new d name (MemoryDirectory [] []) (m OR S_IFDIR) s)"
    "insertSymlink d name tgt s =
      (Some (fs_next s), insert_new d name (MemorySymlink tgt) S_IFLNK s)"
  using assms
  by (simp_all add: insertDataFile_def insertDirectory_def insertSymlink_def insert_new_def
      memdir_insertDataFile_def memdir_insertDirectory_def memdir_insertSymlink_def
      createFile_def createDirectory_def createSymlink_def split_beta new_file_def date_now_def Let_def)

lemma insert_new_effect:
  fixes name m
  assumes "wf_tree s" "is_dir s d" "entries_of_node n = []" "dcache_of_node n = []"
  defines "t \<equiv> insert_new d name n m s"
  shows "fs_next t = Suc (fs_next s)" "fs_root t = fs_root s" "fs_cwd t = fs_cwd s"
    "kind t g = (if g = fs_next s then kind_of n else kind s g)"
    "entries t g = (if g = d then entries s d @ [(name, fs_next s)] else entries s g)"
    "dcache t g = dcache s g"
    "parent_of t g = (if g = fs_next s then Some d else parent_of s g)"
    "mode_of t g = (if g = fs_next s then m else mode_of s g)"
    "fs_table t = fs_table s" "fs_ofiles t = fs_ofiles s" "fs_ofnext t = fs_ofnext s"
proof -
  obtain c u where u: "new_file n m (backend_of s d) True s = (c, u)"
    by (rule prod.exhaust)
  note eff = new_file_effect [OF u]
  have d: "d \<noteq> fs_next s" and nd: "\<not> is_dir s (fs_next s)"
    using wf_dir(1) [OF assms(1)] assms(2) by auto
  have t: "t = updateMTime d (setParent c (Some d) (set_entries d (push_entry name c (entries u d)) u))"
    using assms(2) d by (simp add: t_def insert_new_def u cacheChild_def memdir_insertChild_def eff)
  show "fs_next t = Suc (fs_next s)" "fs_root t = fs_root s" "fs_cwd t = fs_cwd s"
    "kind t g = (if g = fs_next s then kind_of n else kind s g)"
    "entries t g = (if g = d then entries s d @ [(name, fs_next s)] else entries s g)"
    "dcache t g = dcache s g"
    "parent_of t g = (if g = fs_next s then Some d else parent_of s g)"
    "mode_of t g = (if g = fs_next s then m else mode_of s g)"
    "fs_table t = fs_table s" "fs_ofiles t = fs_ofiles s" "fs_ofnext t = fs_ofnext s"
    unfolding t using assms(2-4) d nd by (auto simp: eff push_entry_def)
qed

lemma insert_new_nodes:
  assumes "wf_tree s" "is_dir s d"
  shows "node_of (insert_new d name n m s) (fs_next s) = n"
    "g \<noteq> d \<Longrightarrow> g \<noteq> fs_next s \<Longrightarrow> node_of (insert_new d name n m s) g = node_of s g"
    "fs_mem (insert_new d name n m s) = fs_mem s" "fs_pipes (insert_new d name n m s) = fs_pipes s"
    "backend_of (insert_new d name n m s) g = (if g = fs_next s then backend_of s d else backend_of s g)"
proof -
  obtain c u where u: "new_file n m (backend_of s d) True s = (c, u)"
    by (rule prod.exhaust)
  note eff = new_file_effect [OF u]
  have d: "d \<noteq> fs_next s"
    using wf_dir(1) [OF assms(1)] assms(2) by auto
  have mem: "fs_mem u = fs_mem s" "fs_pipes u = fs_pipes s"
    using u by (auto simp: fs_defs Let_def)
  have t: "insert_new d name n m s =
      updateMTime d (setParent c (Some d) (set_entries d (push_entry name c (entries u d)) u))"
    using assms(2) d by (simp add: insert_new_def u cacheChild_def memdir_insertChild_def eff)
  have keep: "node_of (set_entries d es u) g = node_of u g" if "g \<noteq> d" for es g
    using that by (simp add: fs_defs)
  show "node_of (insert_new d name n m s) (fs_next s) = n"
    "g \<noteq> d \<Longrightarrow> g \<noteq> fs_next s \<Longrightarrow> node_of (insert_new d name n m s) g = node_of s g"
    unfolding t using d keep by (simp_all add: eff)
  show "fs_mem (insert_new d name n m s) = fs_mem s" "fs_pipes (insert_new d name n m s) = fs_pipes s"
    unfolding t using mem by (simp_all add: fs_defs split_beta)
  show "backend_of (insert_new d name n m s) g = (if g = fs_next s then backend_of s d else backend_of s g)"
    unfolding t by (simp add: eff)
qed

lemma wf_tree_insert_new:
  assumes wf: "wf_tree s" and d: "is_dir s d" "parent_of s d = Some p" "child_of s d name = None"
    and n: "entries_of_node n = []" "dcache_of_node n = []"
  shows "wf_tree (insert_new d name n m s)"
proof -
  let ?t = "insert_new d name n m s" and ?c = "fs_next s"
  note eff = insert_new_effect [OF wf d(1) n, where name = name and m = m]
  have root: "fs_root s \<noteq> ?c" "fs_cwd s \<noteq> ?c" "d \<noteq> ?c"
    using wf_root [OF wf] wf_dir(1) [OF wf] d(1) by (metis less_irrefl)+
  have noent: "(k, ?c) \<notin> set (entries s g)" "(k, e) \<in> set (dcache s g) \<Longrightarrow> dc_file e \<noteq> ?c" for k g e
    using wf_entry(1) [OF wf] wf_mount(2) [OF wf] by (metis less_irrefl)+
  have par: "parent_of s ?c = None"
    using wf_parent(1) [OF wf] by (metis less_irrefl not_None_eq)
  then have up: "up ?t = insert (?c, d) (up s)"
    by (auto simp: up_def eff split: if_splits)
  have nodir: "\<not> is_dir s ?c"
    using wf_dir(1) [OF wf] by (metis less_irrefl)
  then have empty: "entries s ?c = []" "dcache s ?c = []" and nopar: "parent_of s g \<noteq> Some ?c" for g
    using wf_parent(2) [OF wf] by auto
  have "wf_roots ?t"
    using wf_root [OF wf] root by (simp add: wf_roots_def eff)
  moreover have "wf_maps ?t"
  proof -
    have "name \<notin> fst ` set (entries s d)" "name \<notin> fst ` set (dcache s d)"
      using child_of_None [OF d(3,2)] by auto
    moreover have "?c \<notin> snd ` set (entries s d)"
      using noent(1) by auto
    ultimately show ?thesis
      using wf_containers [OF wf] by (auto simp: wf_maps_def eff good_entries_def)
  qed
  moreover have "wf_entries ?t"
    using wf_entry [OF wf] root by (auto simp: wf_entries_def eff less_Suc_eq split: if_splits)
  moreover have "wf_mounts ?t"
    unfolding wf_mounts_def
  proof (intro allI impI)
    fix g k e
    assume "(k, e) \<in> set (dcache ?t g)"
    then have e: "(k, e) \<in> set (dcache s g)" and "g \<noteq> ?c"
      using empty(2) by (auto simp: eff)
    then show "dc_kind e = DCMount \<and> dc_file e < fs_next ?t \<and> parent_of ?t (dc_file e) = Some g \<and>
        \<not> is_dir ?t (dc_file e) \<and> mode_of ?t g AND WASMFS_PERM_WRITE = 0"
      using wf_mount [OF wf e] noent(2) [OF e] by (simp add: eff)
  qed
  moreover have "wf_parents ?t"
    using wf_parent [OF wf] d(1) root nopar by (auto simp: wf_parents_def eff less_Suc_eq)
  moreover have "wf_unlinked ?t"
    using wf_dir(1-3) [OF wf] d(2) root empty by (auto simp: wf_unlinked_def eff less_Suc_eq)
  moreover have "wf_linked ?t"
  proof -
    have "(g, fs_root s) \<in> (insert (?c, d) (up s))\<^sup>*" if "(g, fs_root s) \<in> (up s)\<^sup>*" for g
      using that by (rule rtrancl_mono [THEN subsetD, rotated]) auto
    moreover from this have "(?c, fs_root s) \<in> (insert (?c, d) (up s))\<^sup>*"
      using wf_dir(5) [OF wf d(1,2)] by (blast intro: converse_rtrancl_into_rtrancl)
    ultimately show ?thesis
      using wf_dir(4,5) [OF wf] d root nopar by (auto simp: wf_linked_def eff up)
  qed
  ultimately show ?thesis by (simp add: wf_tree_def)
qed

section \<open>Removing and moving\<close>

text \<open>
  One lemma covers the removal of an entry and a move: the files in \<open>M\<close> get the parent \<open>d\<close> under a
  new name, the files in \<open>R\<close>, old entries of \<open>d\<close>, lose their parent; a removed directory is
  empty, and \<open>d\<close> is not below a moved file.
\<close>

lemma wf_tree_relink:
  assumes wf: "wf_tree s" and d: "is_dir s d" "parent_of s d = Some q" "dcache s d = []"
    and M: "\<And>x. x \<in> M \<Longrightarrow> x < fs_next s \<and> x \<noteq> fs_root s"
      "\<And>g n e. (n, e) \<in> set (dcache s g) \<Longrightarrow> dc_file e \<notin> M"
      "(d, fs_root s) \<in> (up s \<inter> {(a, b). a \<notin> M})\<^sup>*"
    and R: "\<And>x. x \<in> R \<Longrightarrow> x \<in> snd ` set (entries s d) \<and> x \<notin> M"
      "\<And>x. x \<in> R \<Longrightarrow> is_dir s x \<Longrightarrow> entries s x = [] \<and> dcache s x = []"
    and t: "fs_next t = fs_next s" "fs_root t = fs_root s" "fs_cwd t = fs_cwd s"
      "\<And>g. kind t g = kind s g" "\<And>g. dcache t g = dcache s g" "\<And>g. mode_of t g = mode_of s g"
      "\<And>g. parent_of t g = (if g \<in> M then Some d else if g \<in> R then None else parent_of s g)"
      "\<And>g. set (entries t g) = {e \<in> set (entries s g). snd e \<notin> M \<and> snd e \<notin> R} \<union>
         (if g = d then Pair name ` M else {})"
      "\<And>g. good_entries (entries t g)"
  shows "wf_tree t"
proof -
  have R': "parent_of s x = Some d \<and> x \<noteq> fs_root s \<and> x \<noteq> d" if "x \<in> R" for x
    using R [OF that] wf_entry [OF wf] d(1) by fastforce
  have sub: "set (entries t g) \<subseteq> set (entries s g)" if "g \<noteq> d" for g
    using that by (auto simp: t)
  have "wf_roots t"
    using wf_root [OF wf] M(1) R' by (auto simp: wf_roots_def t)
  moreover have "wf_maps t"
    unfolding wf_maps_def t(5)
  proof (intro allI conjI)
    fix g
    show "good_entries (entries t g)" by (rule t)
    show "sorted_wrt (<) (map fst (dcache s g))" by (rule wf_containers [OF wf])
    show "fst ` set (entries t g) \<inter> fst ` set (dcache s g) = {}"
      using wf_containers(3) [OF wf, of g] sub [of g] d(3) by (cases "g = d") auto
  qed
  moreover have "wf_entries t"
    unfolding wf_entries_def
  proof (intro allI impI)
    fix g n c
    assume "(n, c) \<in> set (entries t g)"
    then show "c < fs_next t \<and> parent_of t c = Some g \<and> c \<noteq> fs_root t"
      using wf_entry [OF wf, of n c g] M(1) by (auto simp: t split: if_splits)
  qed
  moreover have "wf_mounts t"
    unfolding wf_mounts_def
  proof (intro allI impI)
    fix g n e
    assume "(n, e) \<in> set (dcache t g)"
    then have e: "(n, e) \<in> set (dcache s g)" by (simp add: t)
    then have "g \<noteq> d" using d(3) by auto
    then have "dc_file e \<notin> R"
      using wf_mount(3) [OF wf e] R' by fastforce
    then show "dc_kind e = DCMount \<and> dc_file e < fs_next t \<and> parent_of t (dc_file e) = Some g \<and>
        \<not> is_dir t (dc_file e) \<and> mode_of t g AND WASMFS_PERM_WRITE = 0"
      using wf_mount [OF wf e] M(2) [OF e] by (simp add: t)
  qed
  moreover have "wf_parents t"
    using wf_parent [OF wf] M(1) d(1) by (auto simp: wf_parents_def t split: if_splits)
  moreover have "wf_unlinked t"
    unfolding wf_unlinked_def
  proof (intro allI impI conjI)
    fix g
    assume "is_dir t g"
    then have g: "is_dir s g" by (simp add: t)
    then show "g < fs_next t" using wf_dir(1) [OF wf] by (simp add: t)
    assume "parent_of t g = None"
    then have "g \<noteq> d" and "g \<in> R \<or> parent_of s g = None"
      using d(2) R' by (auto simp: t split: if_splits)
    then have "entries s g = []" "dcache s g = []"
      using R(2) wf_dir(2,3) [OF wf] g by blast+
    then show "entries t g = []" "dcache t g = []"
      using sub [OF \<open>g \<noteq> d\<close>] by (simp_all add: t(5))
  qed
  moreover have "wf_linked t"
  proof -
    define S where "S = {x. is_dir s x \<and> x \<notin> R}"
    have stay: "b \<in> S" if "(a, b) \<in> up s" "a \<in> S" for a b
    proof -
      have b: "parent_of s a = Some b" "is_dir s b" and a: "is_dir s a"
        using that wf_parent(2) [OF wf] by (auto simp: up_def S_def)
      have "b \<notin> R"
      proof
        assume "b \<in> R"
        then have "b \<noteq> fs_root s" "entries s b = []"
          using R(2) b R' by blast+
        moreover from this(1) have "a \<noteq> fs_root s"
          using b(1) wf_root(2) [OF wf] by auto
        ultimately have "entries s b = []" "a \<noteq> fs_root s"
          by simp_all
        then show False using wf_dir(4) [OF wf a b(1)] by simp
      qed
      then show ?thesis using b by (simp add: S_def)
    qed
    have dS: "d \<in> S"
      using d R' by (auto simp: S_def)
    have keep: "(a, b) \<in> up t" if "(a, b) \<in> up s" "a \<in> S" "a \<notin> M" for a b
      using that by (simp add: up_def t S_def)
    have d_up: "(d, fs_root s) \<in> (up t)\<^sup>*"
      by (rule rtrancl_transfer [OF _ M(3) dS]) (use stay keep in auto)
    have reach: "(g, fs_root s) \<in> (up t)\<^sup>*" if "g \<in> S" "(g, fs_root s) \<in> (up s)\<^sup>*" for g
    proof (rule rtrancl_transfer [OF _ that(2,1)])
      fix a b
      assume ab: "(a, b) \<in> up s" "a \<in> S"
      have "(a, fs_root s) \<in> (up t)\<^sup>*" if "a \<in> M"
        using that d_up by (intro converse_rtrancl_into_rtrancl [of a d]) (simp add: up_def t)
      then show "b \<in> S \<and> ((a, b) \<in> up t \<or> (a, fs_root s) \<in> (up t)\<^sup>*)"
        using stay keep ab by blast
    qed
    show ?thesis
      unfolding wf_linked_def
    proof (intro allI impI conjI)
      fix g p
      assume "is_dir t g" and p: "parent_of t g = Some p"
      then have g: "is_dir s g" by (simp add: t)
      show "(g, fs_root t) \<in> (up t)\<^sup>*"
      proof (cases "g \<in> M")
        case True
        then show ?thesis
          using d_up by (intro converse_rtrancl_into_rtrancl [of g d]) (simp_all add: up_def t)
      next
        case False
        then have "g \<in> S" "parent_of s g = Some p"
          using p g by (auto simp: t S_def split: if_splits)
        then show ?thesis using reach wf_dir(5) [OF wf g] by (simp add: t)
      qed
      assume "g \<noteq> fs_root t"
      then show "g \<in> snd ` set (entries t p)"
        using p wf_dir(4) [OF wf g] by (force simp: t split: if_splits)
    qed
  qed
  ultimately show ?thesis by (simp add: wf_tree_def)
qed

lemma entry_name_unique: "good_entries es \<Longrightarrow> (n, x) \<in> set es \<Longrightarrow> (m, x) \<in> set es \<Longrightarrow> n = m"
  using memdir.one_name by (simp add: lookup_entry_Some)

lemma fst_iff_entry: "good_entries es \<Longrightarrow> e \<in> set es \<Longrightarrow> fst e = n \<longleftrightarrow> (n, snd e) \<in> set es"
  using entry_name_unique by (cases e) auto

lemma erase_entry_absent: "lookup_entry es name = None \<Longrightarrow> erase_entry name es = es"
  unfolding erase_entry_def by (rule erase_first_none) (auto simp: lookup_entry_None)

lemma memdir_removeChild_eq:
  "memdir_removeChild d name s =
    (case lookup_entry (entries s d) name of
       None \<Rightarrow> s
     | Some c \<Rightarrow> set_entries d (erase_entry name (entries s d)) (setParent c None s))"
  by (auto simp: memdir_removeChild_def lookup_entry_def Let_def split: option.splits)

lemma memdir_removeChild_effect:
  fixes name
  assumes "is_dir s d"
  defines "t \<equiv> memdir_removeChild d name s"
  shows "fs_next t = fs_next s" "fs_root t = fs_root s" "fs_cwd t = fs_cwd s"
    "kind t g = kind s g" "dcache t g = dcache s g" "mode_of t g = mode_of s g"
    "backend_of t g = backend_of s g"
    "entries t g = (if g = d then erase_entry name (entries s d) else entries s g)"
    "parent_of t g = (if lookup_entry (entries s d) name = Some g then None else parent_of s g)"
    "fs_table t = fs_table s" "fs_ofiles t = fs_ofiles s" "fs_ofnext t = fs_ofnext s"
  using assms(1) unfolding t_def memdir_removeChild_eq
  by (auto simp: erase_entry_absent split: option.splits)

lemma wf_tree_removeChild:
  assumes wf: "wf_tree s" and d: "is_dir s d" "parent_of s d = Some q" "dcache s d = []"
    and leaf: "\<And>c. (name, c) \<in> set (entries s d) \<Longrightarrow> is_dir s c \<Longrightarrow>
      entries s c = [] \<and> dcache s c = []"
  shows "wf_tree (snd (removeChild d name s))"
proof -
  let ?u = "memdir_removeChild d name s" and ?R = "{c. (name, c) \<in> set (entries s d)}"
  note good = wf_containers(1) [OF wf]
  note eff = memdir_removeChild_effect [OF d(1), where name = name]
  have "wf_tree ?u"
  proof (rule wf_tree_relink [where M = "{}" and R = ?R and name = name, OF wf d])
    show "set (entries ?u g) = {e \<in> set (entries s g). snd e \<notin> {} \<and> snd e \<notin> ?R} \<union>
        (if g = d then Pair name ` {} else {})" for g
    proof (cases "g = d")
      case True
      then show ?thesis
        using fst_iff_entry [OF good, of _ d name] by (auto simp: eff set_erase_entry [OF good])
    next
      case False
      have "(name, snd e) \<notin> set (entries s d)" if "e \<in> set (entries s g)" for e
        using that False wf_entry(2) [OF wf, of "fst e" "snd e" g]
          wf_entry(2) [OF wf, of name "snd e" d] by auto
      with False show ?thesis
        by (auto simp: eff)
    qed
  qed (use leaf good wf_dir(5) [OF wf d(1,2)] good_erase_entry in
      \<open>auto simp: eff lookup_entry_Some rev_image_eqI\<close>)
  then show ?thesis
    using d(3) by (simp add: removeChild_def)
qed

lemma insertMove_effect:
  assumes wf: "wf_tree s" and d: "is_dir s d" "parent_of s d = Some q" "dcache s d = []"
    and c: "parent_of s c = Some p" "\<And>n e. (n, e) \<in> set (dcache s p) \<Longrightarrow> dc_file e \<noteq> c"
  obtains t where "insertMove d name c s = Some (Inr (), t)"
    "fs_next t = fs_next s" "fs_root t = fs_root s" "fs_cwd t = fs_cwd s"
    "\<And>g. kind t g = kind s g" "\<And>g. dcache t g = dcache s g" "\<And>g. mode_of t g = mode_of s g"
    "\<And>g. backend_of t g = backend_of s g"
    "\<And>g. entries t g =
      (let es = (if g = p then erase_child c (entries s g) else entries s g) in
       if g = d then push_entry name c (erase_entry name es) else es)"
    "\<And>g. parent_of t g =
      (if g = c then Some d
       else if lookup_entry (if d = p then erase_child c (entries s d) else entries s d) name = Some g
         then None else parent_of s g)"
    "fs_table t = fs_table s" "fs_ofiles t = fs_ofiles s" "fs_ofnext t = fs_ofnext s"
proof -
  define s1 where "s1 = set_entries p (erase_child c (entries s p)) s"
  define s2 where "s2 = memdir_removeChild d name s1"
  define s3 where "s3 = memdir_insertChild d name c s2"
  define t where "t = updateMTime d (updateMTime p (setParent c (Some d) s3))"
  have p: "is_dir s p"
    using wf_parent(2) [OF wf c(1)] .
  have "find (\<lambda>kv. dc_file (snd kv) = c) (dcache s p) = None"
    using c(2) by (force simp: find_None_iff)
  then have run: "insertMove d name c s = Some (Inr (), t)"
    using d(2) c(1)
    by (simp add: insertMove_def memdir_insertMove_def Let_def t_def s3_def s2_def s1_def)
  have s1: "is_dir s1 d"
    using d(1) by (simp add: s1_def)
  note eff = memdir_removeChild_effect [OF s1, where name = name, folded s2_def]
  show thesis
    by (rule that [OF run]) (use d(1) p in \<open>auto simp: t_def s3_def memdir_insertChild_def eff s1_def Let_def\<close>)
qed

lemma wf_tree_insertMove:
  assumes wf: "wf_tree s" and d: "is_dir s d" "parent_of s d = Some q" "dcache s d = []"
    and c: "parent_of s c = Some p" "c \<in> snd ` set (entries s p)"
      "\<And>n e. (n, e) \<in> set (dcache s p) \<Longrightarrow> dc_file e \<noteq> c"
    and apart: "(d, fs_root s) \<in> (up s \<inter> {(a, b). a \<noteq> c})\<^sup>*"
    and leaf: "\<And>x. (name, x) \<in> set (entries s d) \<Longrightarrow> x \<noteq> c \<Longrightarrow> is_dir s x \<Longrightarrow>
      entries s x = [] \<and> dcache s x = []"
  obtains t where "insertMove d name c s = Some (Inr (), t)" "wf_tree t"
    "(name, c) \<in> set (entries t d)" "parent_of t c = Some d"
    "\<And>g n x. x \<noteq> c \<Longrightarrow> g \<noteq> d \<or> n \<noteq> name \<Longrightarrow>
      (n, x) \<in> set (entries t g) \<longleftrightarrow> (n, x) \<in> set (entries s g)"
    "fs_root t = fs_root s" "fs_next t = fs_next s" "\<And>g. kind t g = kind s g" "\<And>g. dcache t g = dcache s g"
    "fs_table t = fs_table s" "fs_ofiles t = fs_ofiles s" "fs_ofnext t = fs_ofnext s"
proof (rule insertMove_effect [OF wf d c(1,3), where name = name])
  fix t
  assume t: "insertMove d name c s = Some (Inr (), t)"
      "fs_next t = fs_next s" "fs_root t = fs_root s" "fs_cwd t = fs_cwd s"
      "\<And>g. kind t g = kind s g" "\<And>g. dcache t g = dcache s g" "\<And>g. mode_of t g = mode_of s g"
      "\<And>g. backend_of t g = backend_of s g"
      "\<And>g. entries t g =
        (let es = (if g = p then erase_child c (entries s g) else entries s g) in
         if g = d then push_entry name c (erase_entry name es) else es)"
      "\<And>g. parent_of t g =
        (if g = c then Some d
         else if lookup_entry (if d = p then erase_child c (entries s d) else entries s d) name = Some g
           then None else parent_of s g)"
      "fs_table t = fs_table s" "fs_ofiles t = fs_ofiles s" "fs_ofnext t = fs_ofnext s"
  define R where "R = {x. (name, x) \<in> set (entries s d) \<and> x \<noteq> c}"
  obtain n0 where n0: "(n0, c) \<in> set (entries s p)"
    using c(2) by auto
  note good = wf_containers(1) [OF wf]
  have croot: "c \<noteq> fs_root s" "c < fs_next s"
    using wf_entry [OF wf n0] by simp_all
  have nop: "(n, c) \<notin> set (entries s g)" if "g \<noteq> p" for g n
    using wf_entry(2) [OF wf] c(1) that by fastforce
  define es where "es g = (if g = p then erase_child c (entries s g) else entries s g)" for g
  have set_es: "set (es g) = {e \<in> set (entries s g). snd e \<noteq> c}" for g
    using nop [of g] good by (auto simp: es_def set_erase_child)
  have good_es: "good_entries (es g)" for g
    using good by (simp add: es_def good_erase_child)
  have ents: "entries t g = (if g = d then push_entry name c (erase_entry name (es g)) else es g)" for g
    by (simp add: t es_def)
  have look: "lookup_entry (es d) name = Some x \<longleftrightarrow> x \<in> R" for x
    using lookup_entry_Some [OF good_es] set_es by (auto simp: R_def)
  have par: "parent_of t g = (if g \<in> {c} then Some d else if g \<in> R then None else parent_of s g)" for g
    using look [of g] by (simp add: t es_def)
  have named: "fst e = name \<longleftrightarrow> snd e \<in> R" if "e \<in> set (es d)" for e
    using that fst_iff_entry [OF good, of e d name] by (simp add: R_def set_es)
  have set_t: "set (entries t g) = {e \<in> set (entries s g). snd e \<notin> {c} \<and> snd e \<notin> R} \<union>
      (if g = d then Pair name ` {c} else {})" for g
  proof (cases "g = d")
    case True
    have "set (erase_entry name (es d)) = {e \<in> set (es d). snd e \<notin> R}"
      unfolding set_erase_entry [OF good_es] using named by blast
    then show ?thesis
      using True by (auto simp: ents push_entry_def set_es)
  next
    case False
    have "snd e \<notin> R" if "e \<in> set (entries s g)" for e
      using that False wf_entry(2) [OF wf, of "fst e" "snd e" g]
        wf_entry(2) [OF wf, of name "snd e" d] by (auto simp: R_def)
    then show ?thesis
      using False by (auto simp: ents set_es)
  qed
  have "wf_tree t"
  proof (rule wf_tree_relink [where M = "{c}" and R = R and name = name, OF wf d])
    show "good_entries (entries t g)" for g
      using good_es [of g] good_erase_entry [OF good_es, of name g] set_es [of g]
        set_erase_entry [OF good_es, of name g]
      by (auto simp: ents push_entry_def good_entries_def)
    show "dc_file e \<notin> {c}" if "(n, e) \<in> set (dcache s g)" for g n e
      using wf_mount(3) [OF wf that] c(1) c(3) [of n e] that by auto
    show "(d, fs_root s) \<in> (up s \<inter> {(a, b). a \<notin> {c}})\<^sup>*"
      using apart by simp
    show "set (entries t g) = {e \<in> set (entries s g). snd e \<notin> {c} \<and> snd e \<notin> R} \<union>
        (if g = d then Pair name ` {c} else {})" for g
      by (rule set_t)
    show "parent_of t g = (if g \<in> {c} then Some d else if g \<in> R then None else parent_of s g)" for g
      by (rule par)
  qed (use croot leaf in \<open>auto simp: t R_def rev_image_eqI\<close>)
  moreover have "(n, x) \<in> set (entries t g) \<longleftrightarrow> (n, x) \<in> set (entries s g)"
    if "x \<noteq> c" "g \<noteq> d \<or> n \<noteq> name" for g n x
  proof (cases "g = d")
    case True
    then show ?thesis
      using that named [of "(n, x)"] set_es [of d] by (auto simp: set_t)
  next
    case False
    then show ?thesis
      using that wf_entry(2) [OF wf, of n x g] wf_entry(2) [OF wf, of name x d]
      by (auto simp: set_t R_def)
  qed
  moreover have "(name, c) \<in> set (entries t d)" "parent_of t c = Some d"
    by (simp_all add: set_t par)
  ultimately show thesis
    using that t by blast
qed

end
