(* ===== verification/FileTable.thy ===== *)
theory FileTable
  imports Tree
begin

text \<open>
  The open file table (file_table.h, file_table.cpp): a vector of shared open file states, indexed
  by the file descriptor, and the creation of open file states. Growing the vector is assumed to
  find memory.
\<close>

section \<open>The contract of a descriptor table\<close>

locale fd_table =
  fixes get :: "'t \<Rightarrow> nat \<Rightarrow> 'o option"
    and put :: "nat \<Rightarrow> 'o option \<Rightarrow> 't \<Rightarrow> 't"
    and free :: "'t \<Rightarrow> nat"
  assumes get_put: "get (put i v t) k = (if k = i then v else get t k)"
    and free_is_free: "get t (free t) = None"
    and free_is_least: "i < free t \<Longrightarrow> get t i \<noteq> None"
begin

lemma free_eqI: "get t i = None \<Longrightarrow> (\<And>k. k < i \<Longrightarrow> get t k \<noteq> None) \<Longrightarrow> free t = i"
  by (metis free_is_free free_is_least linorder_neqE_nat)

lemma put_free_keeps: "get t i = Some oid \<Longrightarrow> get (put (free t) v t) i = Some oid"
  using free_is_free [of t] by (auto simp: get_put)

text \<open>Two allocations in a row give different descriptors.\<close>

lemma free_twice: "free (put (free t) (Some oid) t) \<noteq> free t"
  using free_is_free [of "put (free t) (Some oid) t"] by (auto simp: get_put)

text \<open>A descriptor that is closed is the next one to be allocated when all below are open.\<close>

lemma free_after_close:
  "(\<And>k. k < i \<Longrightarrow> get t k \<noteq> None) \<Longrightarrow> free (put i None t) = i"
  by (rule free_eqI) (auto simp: get_put)

lemma close_undoes_alloc: "get (put (free t) None (put (free t) v t)) k = get t k"
  using free_is_free by (simp add: get_put)

end

section \<open>The vector of entries\<close>

definition tbl_get :: "'o option list \<Rightarrow> nat \<Rightarrow> 'o option" where
  "tbl_get tbl i = (if length tbl \<le> i then None else tbl ! i)"

text \<open>\<open>entries.resize(fd + 1)\<close> when needed, then the assignment.\<close>

definition tbl_grow :: "nat \<Rightarrow> 'o option list \<Rightarrow> 'o option list" where
  "tbl_grow i tbl = tbl @ replicate (Suc i - length tbl) None"

definition tbl_put :: "nat \<Rightarrow> 'o option \<Rightarrow> 'o option list \<Rightarrow> 'o option list" where
  "tbl_put i v tbl = (tbl_grow i tbl)[i := v]"

text \<open>The loop of \<open>addEntry\<close>: the first index without an entry.\<close>

fun first_free :: "'o option list \<Rightarrow> nat" where
  "first_free [] = 0"
| "first_free (None # _) = 0"
| "first_free (Some _ # tbl) = Suc (first_free tbl)"

lemma first_free_le: "first_free tbl \<le> length tbl"
  by (induction tbl rule: first_free.induct) auto

lemma tbl_get_Cons [simp]:
  "tbl_get [] i = None" "tbl_get (x # tbl) 0 = x" "tbl_get (x # tbl) (Suc i) = tbl_get tbl i"
  by (simp_all add: tbl_get_def)

lemma tbl_get_grow [simp]: "tbl_get (tbl_grow i tbl) k = tbl_get tbl k"
  by (auto simp: tbl_get_def tbl_grow_def nth_append)

lemma length_tbl_grow: "i < length (tbl_grow i tbl)"
  by (simp add: tbl_grow_def)

interpretation tbl: fd_table tbl_get tbl_put first_free
proof unfold_locales
  fix tbl :: "'o option list" and v i k
  show "tbl_get (tbl_put i v tbl) k = (if k = i then v else tbl_get tbl k)"
  proof (cases "k = i")
    case True
    then show ?thesis
      using length_tbl_grow [of i tbl] by (simp add: tbl_get_def tbl_put_def)
  next
    case False
    then have "tbl_get (tbl_put i v tbl) k = tbl_get (tbl_grow i tbl) k"
      by (simp add: tbl_get_def tbl_put_def)
    then show ?thesis using False by simp
  qed
  show "tbl_get tbl (first_free tbl) = None"
    by (induction tbl rule: first_free.induct) auto
  show "i < first_free tbl \<Longrightarrow> tbl_get tbl i \<noteq> None"
    by (induction tbl arbitrary: i rule: first_free.induct)
      (auto simp: less_Suc_eq_0_disj)
qed

section \<open>Handle operations\<close>

definition getEntry :: "u32 \<Rightarrow> fs \<Rightarrow> ofid option" where
  "getEntry fd s = tbl_get (fs_table s) (unat fd)"

definition upd_ofile :: "ofid \<Rightarrow> (OpenFileState \<Rightarrow> OpenFileState) \<Rightarrow> fs \<Rightarrow> fs" where
  [fs_defs]: "upd_ofile oid g s = s\<lparr>fs_ofiles := (fs_ofiles s)(oid := g (fs_ofiles s oid))\<rparr>"

text \<open>
  \<open>setEntry\<close>: the new state is counted before the old one is released, and the file of the old
  one is returned when this was its last use and it is a data file.
\<close>

definition setEntry :: "u32 \<Rightarrow> ofid option \<Rightarrow> fs \<Rightarrow> fid option \<times> fs" where
  "setEntry fd openFile s =
    (let i = unat fd;
         s = s\<lparr>fs_table := tbl_grow i (fs_table s)\<rparr>;
         s = (case openFile of None \<Rightarrow> s | Some oid \<Rightarrow> upd_ofile oid (of_uses_update (\<lambda>u. u + 1)) s);
         (ret, s) =
           (case fs_table s ! i of
              None \<Rightarrow> (None, s)
            | Some old \<Rightarrow>
                let s = upd_ofile old (of_uses_update (\<lambda>u. u - 1)) s;
                    f = of_file (fs_ofiles s old) in
                (if of_uses (fs_ofiles s old) = 0 \<and> is_data s f then Some f else None, s)) in
     (ret, s\<lparr>fs_table := (fs_table s)[i := openFile]\<rparr>))"

definition addEntry :: "ofid \<Rightarrow> fs \<Rightarrow> u32 \<times> fs" where
  "addEntry oid s =
    (let i = of_nat (first_free (fs_table s)) in (i, snd (setEntry i (Some oid) s)))"

text \<open>
  \<open>OpenFileState::create\<close>: open a data file, or cache the entries of a directory, whose parent is
  dereferenced. The left value is the code \<open>open\<close> returned.
\<close>

definition OpenFileState_create :: "fid \<Rightarrow> u32 \<Rightarrow> fs \<Rightarrow> ((u32 + ofid) \<times> fs) option" where
  "OpenFileState_create f flags s =
    (let make = (\<lambda>des. let oid = fs_ofnext s in
           Some (Inr oid, s\<lparr>fs_ofiles := (fs_ofiles s)(oid := \<lparr>of_file = f, of_position = 0,
                            of_flags = flags, of_uses = 0, of_dirents = des\<rparr>),
                          fs_ofnext := Suc oid\<rparr>)) in
     if is_data s f then
       let err = df_open (node_of s f) (flags AND O_ACCMODE) in
       (if err \<noteq> 0 then Some (Inl err, s) else make [])
     else if is_dir s f then
       (case parent_of s f of
          None \<Rightarrow> None
        | Some p \<Rightarrow>
            make ([\<lparr>de_name = ''.'', de_kind = DirectoryKind, de_ino = f\<rparr>,
                   \<lparr>de_name = ''..'', de_kind = DirectoryKind, de_ino = p\<rparr>] @ getEntries f s))
     else make [])"

section \<open>Lookups after updates\<close>

lemma setEntry_table: "fs_table (snd (setEntry fd v s)) = tbl_put (unat fd) v (fs_table s)"
  by (auto simp: setEntry_def tbl_put_def upd_ofile_def Let_def split: option.splits)

lemma getEntry_setEntry:
  "getEntry k (snd (setEntry fd v s)) = (if k = fd then v else getEntry k s)"
  by (simp add: getEntry_def setEntry_table tbl.get_put word_unat_eq_iff)

lemma setEntry_shape [frame]: "same_shape s (snd (setEntry fd v s))"
  by (auto simp: setEntry_def same_shape_def upd_ofile_def Let_def split: option.splits)

lemma setEntry_other_state:
  assumes "v \<noteq> Some oid" "getEntry fd s \<noteq> Some oid"
  shows "fs_ofiles (snd (setEntry fd v s)) oid = fs_ofiles s oid"
proof -
  have "tbl_grow (unat fd) (fs_table s) ! unat fd \<noteq> Some oid"
    using assms(2) by (auto simp: getEntry_def tbl_get_def tbl_grow_def nth_append split: if_splits)
  then show ?thesis
    using assms(1) by (auto simp: setEntry_def upd_ofile_def Let_def split: option.splits)
qed

lemma setEntry_keeps_fields:
  "of_file (fs_ofiles (snd (setEntry fd v s)) oid) = of_file (fs_ofiles s oid)"
  "of_position (fs_ofiles (snd (setEntry fd v s)) oid) = of_position (fs_ofiles s oid)"
  "of_flags (fs_ofiles (snd (setEntry fd v s)) oid) = of_flags (fs_ofiles s oid)"
  "of_dirents (fs_ofiles (snd (setEntry fd v s)) oid) = of_dirents (fs_ofiles s oid)"
  "fs_heap (snd (setEntry fd v s)) = fs_heap s" "fs_ofnext (snd (setEntry fd v s)) = fs_ofnext s"
  "fs_next (snd (setEntry fd v s)) = fs_next s"
  by (auto simp: setEntry_def upd_ofile_def Let_def split: option.splits)

text \<open>A new descriptor is the lowest free one; the table has fewer than $2^{32}$ slots.\<close>

lemma addEntry_fd:
  "length (fs_table s) < 2 ^ 32 \<Longrightarrow> unat (fst (addEntry oid s)) = first_free (fs_table s)"
  using first_free_le [of "fs_table s"] by (simp add: addEntry_def unat_of_nat Let_def)

lemma addEntry_lowest:
  assumes "length (fs_table s) < 2 ^ 32" "addEntry oid s = (fd, t)"
  shows "unat fd = first_free (fs_table s)" "getEntry fd s = None"
    "k < fd \<Longrightarrow> getEntry k s \<noteq> None"
    "getEntry k t = (if k = fd then Some oid else getEntry k s)"
    "length (fs_table t) \<le> Suc (length (fs_table s))"
proof -
  show fd: "unat fd = first_free (fs_table s)"
    using addEntry_fd [OF assms(1), of oid] assms(2) by simp
  then show "getEntry fd s = None"
    by (simp add: getEntry_def tbl.free_is_free)
  show "k < fd \<Longrightarrow> getEntry k s \<noteq> None"
    using tbl.free_is_least [of "unat k" "fs_table s"] fd by (simp add: getEntry_def word_less_nat_alt)
  have t: "t = snd (setEntry fd (Some oid) s)"
    using assms(2) by (auto simp: addEntry_def Let_def)
  then show "getEntry k t = (if k = fd then Some oid else getEntry k s)"
    by (simp add: getEntry_setEntry)
  show "length (fs_table t) \<le> Suc (length (fs_table s))"
    using first_free_le [of "fs_table s"] fd by (simp add: t setEntry_table tbl_put_def tbl_grow_def)
qed

lemma addEntry_keeps:
  assumes "addEntry oid s = (fd, t)"
  shows "of_file (fs_ofiles t x) = of_file (fs_ofiles s x)"
    "of_position (fs_ofiles t x) = of_position (fs_ofiles s x)"
    "of_flags (fs_ofiles t x) = of_flags (fs_ofiles s x)"
    "of_dirents (fs_ofiles t x) = of_dirents (fs_ofiles s x)"
    "fs_heap t = fs_heap s" "fs_ofnext t = fs_ofnext s" "fs_next t = fs_next s"
    "fs_pipes t = fs_pipes s" "fs_mem t = fs_mem s"
  using assms
  by (auto simp: addEntry_def setEntry_def upd_ofile_def Let_def split: option.splits)

section \<open>Counting uses\<close>

text \<open>
  \<open>of_uses\<close> counts the slots that hold an open file state. The states of the three standard
  streams are put into their slots by the constructor of the table without being counted, so
  their count is one less.
\<close>

definition occurs :: "fs \<Rightarrow> ofid \<Rightarrow> nat" where
  "occurs s oid = count_list (fs_table s) (Some oid)"

definition std_offset :: "ofid \<Rightarrow> int" where
  "std_offset oid = (if oid < 3 then 1 else 0)"

definition wf_table :: "fs \<Rightarrow> bool" where
  "wf_table s \<longleftrightarrow> 3 \<le> fs_ofnext s \<and>
     (\<forall>oid < fs_ofnext s. of_uses (fs_ofiles s oid) = int (occurs s oid) - std_offset oid) \<and>
     (\<forall>oid. Some oid \<in> set (fs_table s) \<longrightarrow> oid < fs_ofnext s \<and> of_file (fs_ofiles s oid) < fs_next s)"

lemma count_list_update_nat:
  "i < length xs \<Longrightarrow> count_list (xs[i := v]) x + of_bool (xs ! i = x) =
     count_list xs x + of_bool (v = x)"
proof (induction xs arbitrary: i)
  case (Cons y xs)
  show ?case
  proof (cases i)
    case (Suc j)
    then show ?thesis
      using Cons.IH [of j] Cons.prems by simp
  qed simp
qed simp

lemma count_list_update:
  "i < length xs \<Longrightarrow> int (count_list (xs[i := v]) x) =
     int (count_list xs x) + of_bool (v = x) - of_bool (xs ! i = x)"
  using count_list_update_nat [of i xs v x] by (cases "xs ! i = x"; cases "v = x") simp_all

lemma count_list_grow: "count_list (tbl_grow i tbl) (Some x) = count_list tbl (Some x)"
proof -
  have "count_list (replicate n None) (Some x) = 0" for n
    by (induction n) auto
  then show ?thesis by (simp add: tbl_grow_def)
qed

lemma tbl_grow_nth: "tbl_grow i tbl ! i = tbl_get tbl i"
  by (auto simp: tbl_get_def tbl_grow_def nth_append)

lemma occurs_setEntry:
  "int (occurs (snd (setEntry fd v s)) oid) =
     int (occurs s oid) + of_bool (v = Some oid) - of_bool (getEntry fd s = Some oid)"
  using length_tbl_grow [of "unat fd" "fs_table s"]
  by (simp add: occurs_def setEntry_table tbl_put_def count_list_update count_list_grow
      tbl_grow_nth getEntry_def)

lemma uses_setEntry:
  "of_uses (fs_ofiles (snd (setEntry fd v s)) oid) =
     of_uses (fs_ofiles s oid) + of_bool (v = Some oid) - of_bool (getEntry fd s = Some oid)"
  by (auto simp: setEntry_def upd_ofile_def Let_def tbl_grow_nth getEntry_def split: option.splits)

lemma set_tbl_put: "set (tbl_put i v tbl) \<subseteq> insert v (insert None (set tbl))"
  using set_update_subset_insert [of "tbl_grow i tbl" i v]
  by (auto simp: tbl_put_def tbl_grow_def)

lemma wf_table_setEntry:
  assumes "wf_table s"
    and "\<And>oid. v = Some oid \<Longrightarrow> oid < fs_ofnext s \<and> of_file (fs_ofiles s oid) < fs_next s"
  shows "wf_table (snd (setEntry fd v s))"
  unfolding wf_table_def
proof (intro conjI allI impI)
  show "3 \<le> fs_ofnext (snd (setEntry fd v s))"
    using assms(1) by (simp add: wf_table_def setEntry_keeps_fields)
next
  fix oid
  assume "oid < fs_ofnext (snd (setEntry fd v s))"
  then show "of_uses (fs_ofiles (snd (setEntry fd v s)) oid) =
      int (occurs (snd (setEntry fd v s)) oid) - std_offset oid"
    using assms(1) by (simp add: wf_table_def uses_setEntry occurs_setEntry setEntry_keeps_fields)
next
  fix oid
  assume "Some oid \<in> set (fs_table (snd (setEntry fd v s)))"
  then have "v = Some oid \<or> Some oid \<in> set (fs_table s)"
    using set_tbl_put [of "unat fd" v "fs_table s"] by (auto simp: setEntry_table)
  then show "oid < fs_ofnext (snd (setEntry fd v s))"
    "of_file (fs_ofiles (snd (setEntry fd v s)) oid) < fs_next (snd (setEntry fd v s))"
    using assms by (auto simp: wf_table_def setEntry_keeps_fields)
qed

lemma getEntry_in: "getEntry fd s = Some oid \<Longrightarrow> Some oid \<in> set (fs_table s)"
  by (auto simp: getEntry_def tbl_get_def in_set_conv_nth split: if_splits) (metis not_le)

lemma getEntry_wf:
  "wf_table s \<Longrightarrow> getEntry fd s = Some oid \<Longrightarrow>
     oid < fs_ofnext s \<and> of_file (fs_ofiles s oid) < fs_next s"
  using getEntry_in by (auto simp: wf_table_def)

text \<open>The file to close comes back exactly when its last descriptor goes.\<close>

lemma setEntry_closee:
  assumes "getEntry fd s = Some old" "v \<noteq> Some old"
  shows "fst (setEntry fd v s) =
    (if of_uses (fs_ofiles s old) = 1 \<and> is_data s (of_file (fs_ofiles s old))
     then Some (of_file (fs_ofiles s old)) else None)"
  using assms
  by (auto simp: setEntry_def upd_ofile_def Let_def tbl_grow_nth getEntry_def split: option.splits)

lemma OpenFileState_create_effect:
  assumes "OpenFileState_create f flags s = Some (Inr oid, t)"
  shows "oid = fs_ofnext s" "same_shape s t" "fs_table t = fs_table s" "fs_heap t = fs_heap s"
    "fs_ofnext t = Suc (fs_ofnext s)" "of_file (fs_ofiles t oid) = f"
    "of_position (fs_ofiles t oid) = 0" "of_flags (fs_ofiles t oid) = flags"
    "of_uses (fs_ofiles t oid) = 0"
    "x \<noteq> oid \<Longrightarrow> fs_ofiles t x = fs_ofiles s x"
  using assms
  by (auto simp: OpenFileState_create_def Let_def same_shape_def split: if_splits option.splits)

lemma wf_table_create:
  assumes "wf_table s" "OpenFileState_create f flags s = Some (Inr oid, t)" "f < fs_next s"
  shows "wf_table t"
proof -
  note eff = OpenFileState_create_effect [OF assms(2)]
  have new: "occurs t oid = 0"
    using assms(1) by (auto simp: occurs_def wf_table_def eff(1,3) count_list_0_iff)
  show ?thesis
    unfolding wf_table_def
  proof (intro conjI allI impI)
    show "3 \<le> fs_ofnext t"
      using assms(1) by (simp add: wf_table_def eff)
  next
    fix x
    assume "x < fs_ofnext t"
    show "of_uses (fs_ofiles t x) = int (occurs t x) - std_offset x"
    proof (cases "x = oid")
      case True
      then show ?thesis
        using assms(1) new eff(9) by (simp add: std_offset_def wf_table_def eff(1))
    next
      case False
      then have "of_uses (fs_ofiles s x) = int (occurs s x) - std_offset x"
        using \<open>x < fs_ofnext t\<close> assms(1) by (simp add: eff wf_table_def)
      then show ?thesis
        using eff(10) [OF False] by (simp add: occurs_def eff(3))
    qed
  next
    fix x
    assume "Some x \<in> set (fs_table t)"
    then have "x < fs_ofnext s" "of_file (fs_ofiles s x) < fs_next s"
      using assms(1) by (simp_all add: wf_table_def eff)
    then show "x < fs_ofnext t" "of_file (fs_ofiles t x) < fs_next t"
      using eff(10) [of x] by (simp_all add: eff same_shapeD(1) [OF eff(2)])
  qed
qed

section \<open>The invariant of the whole state\<close>

definition wf_fs :: "fs \<Rightarrow> bool" where
  "wf_fs s \<longleftrightarrow> wf_tree s \<and> wf_table s"

text \<open>
  A quiet step keeps the shape of the tree, the slots of the table and what they refer to:
  contents, times, positions, flags and the memory may change.
\<close>

definition quiet :: "fs \<Rightarrow> fs \<Rightarrow> bool" where
  "quiet s t \<longleftrightarrow> same_shape s t \<and> fs_table t = fs_table s \<and> fs_ofnext t = fs_ofnext s \<and>
     (\<forall>oid. of_file (fs_ofiles t oid) = of_file (fs_ofiles s oid) \<and>
            of_uses (fs_ofiles t oid) = of_uses (fs_ofiles s oid))"

lemma quiet_refl [simp]: "quiet s s"
  by (simp add: quiet_def)

lemma quiet_trans: "quiet s t \<Longrightarrow> quiet t u \<Longrightarrow> quiet s u"
  using same_shape_trans by (auto simp: quiet_def)

lemma quiet_same: "same_shape s t \<Longrightarrow> same_table s t \<Longrightarrow> quiet s t"
  by (simp add: quiet_def same_table_def)

lemma wf_quiet:
  assumes "wf_fs s" "quiet s t"
  shows "wf_fs t"
proof -
  have "wf_table t"
    using assms unfolding wf_fs_def wf_table_def quiet_def occurs_def
    by (auto simp: same_shapeD(1))
  then show ?thesis
    using assms wf_tree_shape by (auto simp: wf_fs_def quiet_def)
qed

lemma quiet_sym: "quiet s t \<Longrightarrow> quiet t s"
  by (simp add: quiet_def same_shape_def)

lemma quiet_right: "quiet s t \<Longrightarrow> quiet u t \<longleftrightarrow> quiet u s"
  using quiet_trans quiet_sym by blast

lemma quiet_left: "quiet s t \<Longrightarrow> quiet t u \<longleftrightarrow> quiet s u"
  using quiet_trans quiet_sym by blast

lemma quiet_setter:
  "quiet s (setATime f t s)" "quiet s (setMTime f t s)" "quiet s (updateMTime f s)"
  "quiet s (setCTime f t s)" "quiet s (updateCTime f s)"
  "quiet s (s\<lparr>fs_mem := m\<rparr>)" "quiet s (s\<lparr>fs_calls := c\<rparr>)"
  by (simp_all add: quiet_def same_shape_def fs_defs)

lemmas quiet_setters [simp] = quiet_setter [THEN quiet_right]

lemma quiet_df [frame]:
  "df_write f data off s = Some (r, t) \<Longrightarrow> quiet s t"
  "df_read f buf len off s = Some (r, t) \<Longrightarrow> quiet s t"
  "df_setSize f sz s = Some (r, t) \<Longrightarrow> quiet s t"
  "df_flush f s = (r, t) \<Longrightarrow> quiet s t"
  using df_write_shape df_write_table df_read_shape df_read_table df_setSize_shape df_setSize_table
    df_flush_shape [of s f] df_flush_table [of s f]
  by (auto intro: quiet_same)

lemma wf_fd_file:
  "wf_fs s \<Longrightarrow> getEntry fd s = Some oid \<Longrightarrow> of_file (fs_ofiles s oid) < fs_next s"
  using getEntry_wf by (simp add: wf_fs_def)

end
