(* ===== verification/Paths.thy ===== *)
theory Paths
  imports FileTable
begin

text \<open>
  Path resolution (paths.cpp, paths.h). The functions of the source call each other through
  symbolic links; here each takes the function that follows links as an argument, and
  \<open>followLinks\<close> ties the knot by recursion on a fuel, the nesting depth of links. The counter
  \<open>recursions\<close> of the source is threaded through. \<open>None\<close> means that the fuel ran out, which
  \<open>MAX_RECURSIONS\<close> levels of fuel exclude.
\<close>

section \<open>Resolution\<close>

datatype LinkBehavior = FollowLinks | NoFollowLinks

abbreviation (input) "MAX_RECURSIONS \<equiv> (40 :: nat)"

type_synonym 'a parsed = "((errno + 'a) \<times> nat \<times> fs) option"
type_synonym follow = "fid \<Rightarrow> fid \<Rightarrow> nat \<Rightarrow> fs \<Rightarrow> fid parsed"

definition path_getChild ::
    "follow \<Rightarrow> fid \<Rightarrow> string \<Rightarrow> LinkBehavior \<Rightarrow> nat \<Rightarrow> fs \<Rightarrow> fid parsed" where
  "path_getChild follow dir name links r s =
    (case getChild dir name s of
       (None, s) \<Rightarrow> Some (Inl ENOENT, r, s)
     | (Some child, s) \<Rightarrow>
         if links \<noteq> NoFollowLinks then follow child dir r s else Some (Inr child, r, s))"

text \<open>The loop of \<open>doParseParent\<close> over the segments of the path.\<close>

abbreviation "is_slash \<equiv> (\<lambda>c. c = CHR ''/'')"

lemma segment_shorter:
  "dropWhile (\<lambda>c. \<not> is_slash c) (dropWhile is_slash path) \<noteq> [] \<Longrightarrow>
     length (dropWhile (\<lambda>c. \<not> is_slash c) (dropWhile is_slash path)) < length path"
proof (induction path)
  case (Cons x path)
  then show ?case
    using length_dropWhile_le [of "\<lambda>c. \<not> is_slash c" path] by (auto simp: less_Suc_eq_le)
qed simp

function parse_segments ::
    "follow \<Rightarrow> string \<Rightarrow> fid \<Rightarrow> nat \<Rightarrow> fs \<Rightarrow> (fid \<times> string) parsed" where
  "parse_segments follow path cur r s =
    (let path = dropWhile is_slash path;
         segment = takeWhile (\<lambda>c. \<not> is_slash c) path;
         rest = dropWhile (\<lambda>c. \<not> is_slash c) path in
     if rest = [] then Some (Inr (cur, path), r, s)
     else
       (case path_getChild follow cur segment FollowLinks r s of
          None \<Rightarrow> None
        | Some (Inl e, r, s) \<Rightarrow> Some (Inl e, r, s)
        | Some (Inr child, r, s) \<Rightarrow>
            if is_dir s child then parse_segments follow rest child r s
            else Some (Inl ENOTDIR, r, s)))"
  by pat_completeness auto

termination
  by (relation "measure (\<lambda>(follow, path, cur, r, s). length path)") (auto simp: segment_shorter)

declare parse_segments.simps [simp del]

definition strip_trailing :: "string \<Rightarrow> string" where
  "strip_trailing path = rev (dropWhile is_slash (rev path))"

definition doParseParent ::
    "follow \<Rightarrow> string \<Rightarrow> fid \<Rightarrow> nat \<Rightarrow> fs \<Rightarrow> (fid \<times> string) parsed" where
  "doParseParent follow path cur r s =
    (if path = [] then Some (Inl ENOENT, r, s)
     else
       let (cur, path) = (if is_slash (hd path) then (fs_root s, tl path) else (cur, path));
           path = strip_trailing path in
       if path = [] then Some (Inr (cur, ''.''), r, s)
       else parse_segments follow path cur r s)"

definition doParseFile ::
    "follow \<Rightarrow> string \<Rightarrow> fid \<Rightarrow> LinkBehavior \<Rightarrow> nat \<Rightarrow> fs \<Rightarrow> fid parsed" where
  "doParseFile follow path base links r s =
    (case doParseParent follow path base r s of
       None \<Rightarrow> None
     | Some (Inl e, r, s) \<Rightarrow> Some (Inl e, r, s)
     | Some (Inr (parent, child), r, s) \<Rightarrow> path_getChild follow parent child links r s)"

text \<open>
  One turn of the loop over links in \<open>getChild\<close>: \<open>parse\<close> resolves the target, \<open>again\<close> is the
  rest of the loop.
\<close>

definition follow_step :: "(string \<Rightarrow> fid \<Rightarrow> nat \<Rightarrow> fs \<Rightarrow> fid parsed) \<Rightarrow> follow \<Rightarrow> follow" where
  "follow_step parse again child dir r s =
    (case node_of s child of
       MemorySymlink tgt \<Rightarrow>
         let r = Suc r in
         if MAX_RECURSIONS < r then Some (Inl ELOOP, r, s)
         else if tgt = [] then Some (Inl ENOENT, r, s)
         else
           (case parse tgt dir r s of
              None \<Rightarrow> None
            | Some (Inl e, r, s) \<Rightarrow> Some (Inl e, r, s)
            | Some (Inr child, r, s) \<Rightarrow> again child dir r s)
     | _ \<Rightarrow> Some (Inr child, r, s))"

primrec followLinks :: "nat \<Rightarrow> follow" where
  "followLinks 0 = follow_step (\<lambda>_ _ _ _. None) (\<lambda>_ _ _ _. None)"
| "followLinks (Suc n) =
     follow_step (\<lambda>tgt dir. doParseFile (followLinks n) tgt dir FollowLinks) (followLinks n)"

text \<open>The functions of the interface start with no recursions.\<close>

definition getBaseDir :: "u32 \<Rightarrow> fs \<Rightarrow> errno + fid" where
  "getBaseDir basefd s =
    (if basefd = AT_FDCWD then Inr (fs_cwd s)
     else
       (case getEntry basefd s of
          None \<Rightarrow> Inl EBADF
        | Some openFile \<Rightarrow>
            let f = of_file (fs_ofiles s openFile) in
            if is_dir s f then Inr f else Inl ENOTDIR))"

definition drop_count :: "'a parsed \<Rightarrow> ((errno + 'a) \<times> fs) option" where
  "drop_count p = map_option (\<lambda>(res, r, s). (res, s)) p"

definition parseParent :: "string \<Rightarrow> u32 \<Rightarrow> fs \<Rightarrow> ((errno + fid \<times> string) \<times> fs) option" where
  "parseParent path basefd s =
    (case getBaseDir basefd s of
       Inl e \<Rightarrow> Some (Inl e, s)
     | Inr base \<Rightarrow> drop_count (doParseParent (followLinks MAX_RECURSIONS) path base 0 s))"

definition parseFile :: "string \<Rightarrow> u32 \<Rightarrow> LinkBehavior \<Rightarrow> fs \<Rightarrow> ((errno + fid) \<times> fs) option" where
  "parseFile path basefd links s =
    (case getBaseDir basefd s of
       Inl e \<Rightarrow> Some (Inl e, s)
     | Inr base \<Rightarrow> drop_count (doParseFile (followLinks MAX_RECURSIONS) path base links 0 s))"

definition getFileAt :: "u32 \<Rightarrow> string \<Rightarrow> u32 \<Rightarrow> fs \<Rightarrow> ((errno + fid) \<times> fs) option" where
  "getFileAt fd path flags s =
    (if flags AND AT_EMPTY_PATH \<noteq> 0 \<and> path = [] then
       if fd = AT_FDCWD then Some (Inr (fs_cwd s), s)
       else (case getEntry fd s of
               None \<Rightarrow> Some (Inl EBADF, s)
             | Some openFile \<Rightarrow> Some (Inr (of_file (fs_ofiles s openFile)), s))
     else
       let links = (if flags AND AT_SYMLINK_NOFOLLOW \<noteq> 0 then NoFollowLinks else FollowLinks) in
       parseFile path fd links s)"

definition getFileFrom :: "fid \<Rightarrow> string \<Rightarrow> fs \<Rightarrow> ((errno + fid) \<times> fs) option" where
  "getFileFrom base path s =
    drop_count (doParseFile (followLinks MAX_RECURSIONS) path base FollowLinks 0 s)"

section \<open>Resolution returns\<close>

text \<open>
  A follow function is total from \<open>m\<close> when it returns for every count of at least \<open>m\<close>, with a
  count that is no smaller.
\<close>

definition total_from :: "nat \<Rightarrow> follow \<Rightarrow> bool" where
  "total_from m follow \<longleftrightarrow>
     (\<forall>c d r s. m \<le> r \<longrightarrow> (\<exists>res r' s'. follow c d r s = Some (res, r', s') \<and> r \<le> r'))"

lemma path_getChild_total:
  assumes "total_from m follow" "m \<le> r"
  shows "\<exists>res r' s'. path_getChild follow d name links r s = Some (res, r', s') \<and> r \<le> r'"
  using assms by (auto simp: path_getChild_def total_from_def split: prod.splits option.splits)

lemma parse_segments_total:
  assumes "total_from m follow" "m \<le> r"
  shows "\<exists>res r' s'. parse_segments follow path cur r s = Some (res, r', s') \<and> r \<le> r'"
  using assms
proof (induction follow path cur r s rule: parse_segments.induct)
  case (1 follow path cur r s)
  define p where "p = dropWhile is_slash path"
  let ?seg = "takeWhile (\<lambda>c. \<not> is_slash c) p" and ?rest = "dropWhile (\<lambda>c. \<not> is_slash c) p"
  obtain res r1 s1 where g: "path_getChild follow cur ?seg FollowLinks r s = Some (res, r1, s1)"
    and r1: "r \<le> r1"
    using path_getChild_total [OF 1(2,3)] by blast
  show ?case
  proof (cases "?rest \<noteq> [] \<and> (\<exists>c. res = Inr c \<and> is_dir s1 c)")
    case True
    then obtain c where c: "res = Inr c" "is_dir s1 c" and rest: "?rest \<noteq> []" by blast
    have "\<exists>res r' s'. parse_segments follow ?rest c r1 s1 = Some (res, r', s') \<and> r1 \<le> r'"
      using 1(1) [OF p_def refl refl rest g refl, unfolded c(1), OF refl refl c(2) 1(2)] r1 1(3)
      by simp
    then show ?thesis
      using g c rest r1 by (subst parse_segments.simps) (auto simp: Let_def simp flip: p_def)
  next
    case False
    then show ?thesis
      using g r1 by (subst parse_segments.simps) (auto simp: Let_def split: sum.splits simp flip: p_def)
  qed
qed

lemma doParseParent_total:
  assumes "total_from m follow" "m \<le> r"
  shows "\<exists>res r' s'. doParseParent follow path d r s = Some (res, r', s') \<and> r \<le> r'"
  using parse_segments_total [OF assms] by (auto simp: doParseParent_def Let_def split: prod.splits)

lemma doParseFile_total:
  assumes "total_from m follow" "m \<le> r"
  shows "\<exists>res r' s'. doParseFile follow path d links r s = Some (res, r', s') \<and> r \<le> r'"
proof -
  obtain res r1 s1 where 1: "doParseParent follow path d r s = Some (res, r1, s1)" "r \<le> r1"
    using doParseParent_total [OF assms] by blast
  then show ?thesis
    using path_getChild_total [OF assms(1), of r1] assms(2)
    by (fastforce simp: doParseFile_def split: sum.splits prod.splits)
qed

lemma follow_step_total:
  assumes parse: "\<And>tgt d r s. Suc m \<le> r \<Longrightarrow> r \<le> MAX_RECURSIONS \<Longrightarrow>
      \<exists>res r' s'. parse tgt d r s = Some (res, r', s') \<and> r \<le> r'"
    and again: "MAX_RECURSIONS \<le> m \<or> total_from (Suc m) again"
  shows "total_from m (follow_step parse again)"
  unfolding total_from_def
proof (intro allI impI)
  fix c d r s
  assume r: "m \<le> r"
  show "\<exists>res r' s'. follow_step parse again c d r s = Some (res, r', s') \<and> r \<le> r'"
  proof (cases "\<exists>tgt. node_of s c = MemorySymlink tgt \<and> Suc r \<le> MAX_RECURSIONS \<and> tgt \<noteq> []")
    case True
    then obtain tgt where tgt: "node_of s c = MemorySymlink tgt" "Suc r \<le> MAX_RECURSIONS" "tgt \<noteq> []"
      by blast
    obtain res r1 s1 where p: "parse tgt d (Suc r) s = Some (res, r1, s1)" "Suc r \<le> r1"
      using parse [of "Suc r" tgt d s] r tgt(2) by auto
    have "\<exists>res r' s'. again c' d r1 s1 = Some (res, r', s') \<and> r1 \<le> r'" for c'
      using again p(2) r tgt(2) unfolding total_from_def by auto
    then show ?thesis
      using tgt p by (cases res) (fastforce simp: follow_step_def)+
  next
    case False
    then show ?thesis
      by (auto simp: follow_step_def Let_def split: node.splits)
  qed
qed

lemma followLinks_total: "total_from (MAX_RECURSIONS - n) (followLinks n)"
proof (induction n)
  case 0
  show ?case
    unfolding followLinks.simps by (rule follow_step_total) auto
next
  case (Suc n)
  show ?case
  proof (cases "n < MAX_RECURSIONS")
    case True
    then have n: "Suc (MAX_RECURSIONS - Suc n) = MAX_RECURSIONS - n" by simp
    show ?thesis
      unfolding followLinks.simps
      by (rule follow_step_total) (use n Suc doParseFile_total [OF Suc] in auto)
  next
    case False
    then have "total_from 0 (followLinks n)" using Suc by simp
    then have "total_from m (followLinks n)" for m
      by (auto simp: total_from_def)
    then show ?thesis
      unfolding followLinks.simps using False
      by (intro follow_step_total) (use doParseFile_total [of 0] in auto)
  qed
qed

section \<open>What a path means\<close>

text \<open>
  The names in a path, and the meaning of a path as a relation: the names but the last lead
  through directories, links on the way are followed from the directory that holds them, and an
  absolute path starts at the root.
\<close>

fun split_slash :: "string \<Rightarrow> string list" where
  "split_slash [] = [[]]"
| "split_slash (c # cs) =
     (if is_slash c then [] # split_slash cs
      else (c # hd (split_slash cs)) # tl (split_slash cs))"

definition comps :: "string \<Rightarrow> string list" where
  "comps path = filter (\<lambda>n. n \<noteq> []) (split_slash path)"

definition path_names :: "string \<Rightarrow> string list" where
  "path_names path = (if comps path = [] then [''.''] else comps path)"

definition path_start :: "fs \<Rightarrow> fid \<Rightarrow> string \<Rightarrow> fid" where
  "path_start s d path = (if path \<noteq> [] \<and> is_slash (hd path) then fs_root s else d)"

inductive follows :: "fs \<Rightarrow> fid \<Rightarrow> fid \<Rightarrow> fid \<Rightarrow> bool"
  and dirs :: "fs \<Rightarrow> fid \<Rightarrow> string list \<Rightarrow> fid \<Rightarrow> bool"
  and resolves :: "fs \<Rightarrow> fid \<Rightarrow> string \<Rightarrow> fid \<Rightarrow> bool"
  for s where
  follows_file: "\<not> is_link s c \<Longrightarrow> follows s d c c"
| follows_link: "node_of s c = MemorySymlink tgt \<Longrightarrow> resolves s d tgt c' \<Longrightarrow> follows s d c' f \<Longrightarrow>
    follows s d c f"
| dirs_Nil: "dirs s d [] d"
| dirs_Cons: "child_of s d n = Some c \<Longrightarrow> follows s d c e \<Longrightarrow> is_dir s e \<Longrightarrow> dirs s e ns f \<Longrightarrow>
    dirs s d (n # ns) f"
| resolves_path: "path \<noteq> [] \<Longrightarrow> path_names path = ns @ [n] \<Longrightarrow> dirs s (path_start s d path) ns p \<Longrightarrow>
    child_of s p n = Some c \<Longrightarrow> follows s p c f \<Longrightarrow> resolves s d path f"

inductive_cases follows_linkE: "follows s d c f"
inductive_cases dirsE: "dirs s d ns f"
inductive_cases resolvesE: "resolves s d path f"

lemma split_slash_nonempty [simp]: "split_slash p \<noteq> []"
  by (cases p) auto

lemma split_slash_first:
  "split_slash p = takeWhile (\<lambda>c. \<not> is_slash c) p #
     (case dropWhile (\<lambda>c. \<not> is_slash c) p of [] \<Rightarrow> [] | _ # r \<Rightarrow> split_slash r)"
  by (induction p) auto

lemma split_slash_trailing: "split_slash (p @ [CHR ''/'']) = split_slash p @ [[]]"
  by (induction p) auto

lemma comps_Nil [simp]: "comps [] = []"
  by (simp add: comps_def)

lemma comps_slash [simp]: "comps (CHR ''/'' # p) = comps p"
  by (simp add: comps_def)

lemma comps_leading: "comps (dropWhile is_slash p) = comps p"
  by (induction p) auto

lemma comps_trailing: "comps (p @ replicate k (CHR ''/'')) = comps p"
proof (induction k)
  case (Suc k)
  have "p @ replicate (Suc k) (CHR ''/'') = (p @ replicate k (CHR ''/'')) @ [CHR ''/'']"
    by (simp add: replicate_append_same)
  then have "comps (p @ replicate (Suc k) (CHR ''/'')) = comps (p @ replicate k (CHR ''/''))"
    unfolding comps_def by (simp only: split_slash_trailing) simp
  with Suc show ?case by simp
qed simp

lemma comps_strip: "comps (strip_trailing p) = comps p"
proof -
  have "takeWhile is_slash (rev p) = replicate (length (takeWhile is_slash (rev p))) (CHR ''/'')"
    by (rule replicate_length_same [symmetric]) (auto dest: set_takeWhileD)
  then have "p = strip_trailing p @ replicate (length (takeWhile is_slash (rev p))) (CHR ''/'')"
    unfolding strip_trailing_def
    by (metis rev_append rev_rev_ident rev_replicate takeWhile_dropWhile_id)
  then show ?thesis using comps_trailing by metis
qed

lemma comps_first:
  assumes "p \<noteq> []" "\<not> is_slash (hd p)"
  shows "comps p = takeWhile (\<lambda>c. \<not> is_slash c) p # comps (dropWhile (\<lambda>c. \<not> is_slash c) p)"
proof -
  let ?t = "takeWhile (\<lambda>c. \<not> is_slash c) p" and ?d = "dropWhile (\<lambda>c. \<not> is_slash c) p"
  have t: "?t \<noteq> []"
    using assms by (cases p) auto
  have "filter (\<lambda>n. n \<noteq> []) (case ?d of [] \<Rightarrow> [] | _ # r \<Rightarrow> split_slash r) = comps ?d"
  proof (cases ?d)
    case (Cons a r)
    then have "is_slash a"
      using hd_dropWhile [of "\<lambda>c. \<not> is_slash c" p] by simp
    then show ?thesis unfolding Cons by (simp add: comps_def)
  next
    case Nil
    show ?thesis unfolding Nil by simp
  qed
  then show ?thesis
    using t unfolding comps_def [of p] split_slash_first [of p] by simp
qed

lemma last_strip_trailing: "strip_trailing p \<noteq> [] \<Longrightarrow> \<not> is_slash (last (strip_trailing p))"
  using hd_dropWhile [of is_slash "rev p"] unfolding strip_trailing_def by (simp add: last_rev)

section \<open>Resolution has no effect and respects the meaning\<close>

definition sound :: "fs \<Rightarrow> follow \<Rightarrow> bool" where
  "sound s follow \<longleftrightarrow> (\<forall>c d r res r' s'. follow c d r s = Some (res, r', s') \<longrightarrow>
     s' = s \<and> (\<forall>f. res = Inr f \<longrightarrow> follows s d c f))"

lemma follows_not_link: "follows s d c f \<Longrightarrow> \<not> is_link s f"
  and "dirs s d ns f \<Longrightarrow> True" and resolves_not_link: "resolves s d path f \<Longrightarrow> \<not> is_link s f"
  by (induction rule: follows_dirs_resolves.inducts) auto

lemma path_getChild_sound:
  assumes "wf_tree s" "sound s follow" "path_getChild follow d name links r s = Some (res, r', s')"
  shows "s' = s \<and> (\<forall>f. res = Inr f \<longrightarrow> (\<exists>c. child_of s d name = Some c \<and>
    (if links = NoFollowLinks then f = c else follows s d c f)))"
  using assms
  by (auto simp: path_getChild_def getChild_child_of sound_def split: option.splits if_splits)

text \<open>One turn of the loop over segments: the first name of the path, and the rest of the path.\<close>

lemma parse_segments_step:
  assumes "path \<noteq> []" "\<not> is_slash (last path)"
  obtains seg rest where "comps path = seg # comps rest"
    "rest \<noteq> [] \<Longrightarrow> \<not> is_slash (last rest) \<and> length rest < length path"
    "\<And>follow cur r s. parse_segments follow path cur r s =
      (if rest = [] then Some (Inr (cur, seg), r, s)
       else (case path_getChild follow cur seg FollowLinks r s of
            None \<Rightarrow> None
          | Some (Inl e, r, s) \<Rightarrow> Some (Inl e, r, s)
          | Some (Inr child, r, s) \<Rightarrow>
              if is_dir s child then parse_segments follow rest child r s
              else Some (Inl ENOTDIR, r, s)))"
proof -
  define p where "p = dropWhile is_slash path"
  define seg where "seg = takeWhile (\<lambda>c. \<not> is_slash c) p"
  define rest where "rest = dropWhile (\<lambda>c. \<not> is_slash c) p"
  have p_split: "seg @ rest = p"
    by (simp add: seg_def rest_def)
  have nonempty: "p \<noteq> []"
    using assms last_in_set [of path] unfolding p_def dropWhile_eq_Nil_conv by blast
  have "last (takeWhile is_slash path @ p) = last p"
    using nonempty by (rule last_appendR)
  then have p: "p \<noteq> []" "\<not> is_slash (hd p)" "last p = last path"
    using nonempty hd_dropWhile [of is_slash path] by (simp_all only: p_def takeWhile_dropWhile_id not_False_eq_True simp_thms)
  have comps: "comps path = seg # comps rest"
    using comps_first [OF p(1,2)] comps_leading [of path] unfolding p_def seg_def rest_def by simp
  have last: "\<not> is_slash (last rest) \<and> length rest < length path" if "rest \<noteq> []"
    using that p(3) p_split assms(2) segment_shorter [of path] unfolding p_def rest_def
    by (metis last_appendR)
  have "parse_segments follow path cur r s = (if rest = [] then Some (Inr (cur, p), r, s)
     else (case path_getChild follow cur seg FollowLinks r s of
          None \<Rightarrow> None
        | Some (Inl e, r, s) \<Rightarrow> Some (Inl e, r, s)
        | Some (Inr child, r, s) \<Rightarrow>
            if is_dir s child then parse_segments follow rest child r s
            else Some (Inl ENOTDIR, r, s)))" for follow cur r s
    unfolding parse_segments.simps [of follow path cur r s] Let_def p_def seg_def rest_def ..
  moreover have "rest = [] \<Longrightarrow> p = seg"
    using p_split by simp
  ultimately show thesis
    using that [OF comps last] by simp
qed

lemma parse_segments_sound:
  assumes "wf_tree s" "sound s follow" "path \<noteq> []" "\<not> is_slash (last path)"
    and "parse_segments follow path cur r s = Some (res, r', s')"
  shows "s' = s \<and> (\<forall>p n. res = Inr (p, n) \<longrightarrow> (\<exists>ns. comps path = ns @ [n] \<and> dirs s cur ns p))"
  using assms(3-)
proof (induction "length path" arbitrary: path cur r rule: less_induct)
  case less
  obtain seg rest where comps: "comps path = seg # comps rest"
    and rest: "rest \<noteq> [] \<Longrightarrow> \<not> is_slash (last rest) \<and> length rest < length path"
    and step: "\<And>follow cur r s. parse_segments follow path cur r s =
      (if rest = [] then Some (Inr (cur, seg), r, s)
       else (case path_getChild follow cur seg FollowLinks r s of
            None \<Rightarrow> None
          | Some (Inl e, r, s) \<Rightarrow> Some (Inl e, r, s)
          | Some (Inr child, r, s) \<Rightarrow>
              if is_dir s child then parse_segments follow rest child r s
              else Some (Inl ENOTDIR, r, s)))"
    using less.prems(1,2) by (rule parse_segments_step) blast
  note run = less.prems(3) [unfolded step]
  show ?case
  proof (cases "rest = []")
    case True
    then have "comps path = [] @ [seg]"
      using comps unfolding True by (simp only: comps_Nil append_Nil)
    moreover have "res = Inr (cur, seg)" "s' = s"
      using run unfolding True by simp_all
    ultimately show ?thesis
      using dirs_Nil by blast
  next
    case False
    then obtain res1 r1 s1
      where g: "path_getChild follow cur seg FollowLinks r s = Some (res1, r1, s1)"
      using run by (auto split: option.splits)
    note child = path_getChild_sound [OF assms(1,2) g]
    show ?thesis
    proof (cases "\<exists>e. res1 = Inr e \<and> is_dir s e")
      case True
      then obtain e where e: "res1 = Inr e" "is_dir s e" by blast
      then obtain c where c: "child_of s cur seg = Some c" "follows s cur c e"
        using child by auto
      have "parse_segments follow rest e r1 s = Some (res, r', s')"
        using run False g e child by simp
      then have
        "s' = s \<and> (\<forall>p n. res = Inr (p, n) \<longrightarrow> (\<exists>ns. comps rest = ns @ [n] \<and> dirs s e ns p))"
        using less.hyps [of rest e r1] False rest by blast
      then show ?thesis
        using comps c e(2) by (fastforce intro: dirs_Cons)
    next
      case no: False
      then show ?thesis
        using run g False child by (auto split: sum.splits if_splits)
    qed
  qed
qed

lemma doParseParent_sound:
  assumes wf: "wf_tree s" and fol: "sound s follow"
    and run: "doParseParent follow path d r s = Some (res, r', s')"
  shows "s' = s \<and> (\<forall>p n. res = Inr (p, n) \<longrightarrow>
    path \<noteq> [] \<and> (\<exists>ns. path_names path = ns @ [n] \<and> dirs s (path_start s d path) ns p))"
proof (cases "path = []")
  case False
  define q where "q = strip_trailing (if is_slash (hd path) then tl path else path)"
  have comps: "comps path = comps q"
    using False by (cases path) (auto simp: q_def comps_strip)
  have start: "path_start s d path = (if is_slash (hd path) then fs_root s else d)"
    using False by (simp add: path_start_def)
  show ?thesis
  proof (cases "q = []")
    case True
    then have "path_names path = [] @ [''.'']"
      by (simp add: path_names_def comps)
    moreover have "s' = s \<and> res = Inr (path_start s d path, ''.'')"
      using run False True by (auto simp: doParseParent_def q_def start split: if_splits)
    ultimately show ?thesis
      using False dirs_Nil by blast
  next
    case q: False
    have "parse_segments follow q (path_start s d path) r s = Some (res, r', s')"
      using run False q by (auto simp: doParseParent_def q_def start split: if_splits)
    from parse_segments_sound [OF wf fol q _ this] last_strip_trailing q
    have seg: "s' = s \<and> (\<forall>p n. res = Inr (p, n) \<longrightarrow>
        (\<exists>ns. comps q = ns @ [n] \<and> dirs s (path_start s d path) ns p))"
      by (simp add: q_def)
    then show ?thesis
      using False by (auto simp: path_names_def comps)
  qed
next
  case True
  then show ?thesis
    using run by (auto simp: doParseParent_def)
qed

lemma doParseFile_sound:
  assumes wf: "wf_tree s" and fol: "sound s follow"
    and run: "doParseFile follow path d links r s = Some (res, r', s')"
  shows "s' = s \<and> (\<forall>f. res = Inr f \<longrightarrow> path \<noteq> [] \<and> (\<exists>ns n p c. path_names path = ns @ [n] \<and>
    dirs s (path_start s d path) ns p \<and> child_of s p n = Some c \<and>
    (if links = NoFollowLinks then f = c else follows s p c f)))"
proof -
  obtain res1 r1 s1 where 1: "doParseParent follow path d r s = Some (res1, r1, s1)"
    using run by (auto simp: doParseFile_def split: option.splits)
  note parent = doParseParent_sound [OF wf fol 1]
  show ?thesis
  proof (cases res1)
    case (Inl e)
    then show ?thesis
      using run 1 parent by (auto simp: doParseFile_def)
  next
    case (Inr pn)
    obtain p n where pn: "pn = (p, n)"
      by (rule prod.exhaust)
    have "path_getChild follow p n links r1 s = Some (res, r', s')"
      using run 1 parent Inr pn by (auto simp: doParseFile_def)
    from path_getChild_sound [OF wf fol this] parent Inr pn
    show ?thesis by blast
  qed
qed

lemma doParseFile_resolves:
  assumes "wf_tree s" "sound s follow" "doParseFile follow path d FollowLinks r s = Some (res, r', s')"
  shows "s' = s \<and> (\<forall>f. res = Inr f \<longrightarrow> resolves s d path f)"
  using doParseFile_sound [OF assms] by (auto intro: resolves_path)

lemma follow_step_sound:
  assumes parse: "\<And>tgt d r res r' s'. parse tgt d r s = Some (res, r', s') \<Longrightarrow>
      s' = s \<and> (\<forall>f. res = Inr f \<longrightarrow> resolves s d tgt f)"
    and again: "sound s again"
  shows "sound s (follow_step parse again)"
  unfolding sound_def
proof (intro allI impI)
  fix c d r res r' s'
  assume run: "follow_step parse again c d r s = Some (res, r', s')"
  show "s' = s \<and> (\<forall>f. res = Inr f \<longrightarrow> follows s d c f)"
  proof (cases "is_link s c")
    case False
    then show ?thesis
      using run by (auto simp: follow_step_def intro: follows_file split: node.splits)
  next
    case True
    then obtain tgt where tgt: "node_of s c = MemorySymlink tgt"
      by (auto simp: kind_of_link_iff)
    show ?thesis
    proof (cases "\<exists>r1 s1 c1. parse tgt d (Suc r) s = Some (Inr c1, r1, s1)")
      case ok: True
      then obtain r1 s1 c1 where p: "parse tgt d (Suc r) s = Some (Inr c1, r1, s1)"
        by blast
      then have c1: "s1 = s" "resolves s d tgt c1"
        using parse by blast+
      show ?thesis
        using run again tgt p c1
        by (auto simp: follow_step_def sound_def split: if_splits intro: follows_link)
    next
      case no: False
      then show ?thesis
        using run tgt parse by (auto simp: follow_step_def split: if_splits option.splits sum.splits)
    qed
  qed
qed

lemma followLinks_sound: "wf_tree s \<Longrightarrow> sound s (followLinks n)"
proof (induction n)
  case 0
  show ?case
    unfolding followLinks.simps by (rule follow_step_sound) (simp_all add: sound_def)
next
  case (Suc n)
  then show ?case
    unfolding followLinks.simps
    by (intro follow_step_sound) (auto dest: doParseFile_resolves)
qed

section \<open>The interface on a well-formed tree\<close>

lemma total_limit: "total_from 0 (followLinks MAX_RECURSIONS)"
  using followLinks_total [of MAX_RECURSIONS] by simp

lemma dirs_is_dir: "dirs s d ns p \<Longrightarrow> is_dir s d \<Longrightarrow> is_dir s p"
proof (induction ns arbitrary: d)
  case Nil
  then show ?case by (auto elim: dirsE)
next
  case (Cons n ns)
  then show ?case by (auto elim: dirsE [where ns = "n # ns"])
qed

lemma getBaseDir_dir: "wf_tree s \<Longrightarrow> getBaseDir fd s = Inr d \<Longrightarrow> is_dir s d"
  using wf_root(3) by (auto simp: getBaseDir_def Let_def split: if_splits option.splits)

lemma path_start_dir: "wf_tree s \<Longrightarrow> is_dir s d \<Longrightarrow> is_dir s (path_start s d path)"
  using wf_root(1) by (simp add: path_start_def)

lemma parseParent_wf:
  assumes "wf_tree s"
  obtains (error) e where "parseParent path fd s = Some (Inl e, s)"
  | (found) p n base ns where "parseParent path fd s = Some (Inr (p, n), s)"
      "getBaseDir fd s = Inr base" "path \<noteq> []" "path_names path = ns @ [n]"
      "dirs s (path_start s base path) ns p" "is_dir s p"
proof (cases "getBaseDir fd s")
  case (Inl e)
  then show thesis
    using error by (simp add: parseParent_def)
next
  case base: (Inr base)
  obtain res r' s' where run: "doParseParent (followLinks MAX_RECURSIONS) path base 0 s = Some (res, r', s')"
    using doParseParent_total [OF total_limit] by blast
  note snd = doParseParent_sound [OF assms followLinks_sound [OF assms] run]
  then have eq: "parseParent path fd s = Some (res, s)"
    using base run by (simp add: parseParent_def drop_count_def)
  show thesis
  proof (cases res)
    case (Inl e)
    then show ?thesis using error eq by simp
  next
    case (Inr pn)
    then obtain p n ns where "pn = (p, n)" "path \<noteq> []" "path_names path = ns @ [n]"
        "dirs s (path_start s base path) ns p"
      using snd by (cases pn) auto
    moreover from this(4) have "is_dir s p"
      using dirs_is_dir path_start_dir getBaseDir_dir [OF assms base] assms by blast
    ultimately show ?thesis
      using found eq Inr base by simp
  qed
qed

lemma parseFile_wf:
  assumes "wf_tree s"
  obtains (error) e where "parseFile path fd links s = Some (Inl e, s)"
  | (found) f base ns n p c where "parseFile path fd links s = Some (Inr f, s)"
      "getBaseDir fd s = Inr base" "path \<noteq> []" "path_names path = ns @ [n]"
      "dirs s (path_start s base path) ns p" "is_dir s p" "child_of s p n = Some c"
      "if links = NoFollowLinks then f = c else follows s p c f"
proof (cases "getBaseDir fd s")
  case (Inl e)
  then show thesis
    using error by (simp add: parseFile_def)
next
  case base: (Inr base)
  obtain res r' s'
    where run: "doParseFile (followLinks MAX_RECURSIONS) path base links 0 s = Some (res, r', s')"
    using doParseFile_total [OF total_limit] by blast
  note snd = doParseFile_sound [OF assms followLinks_sound [OF assms] run]
  then have eq: "parseFile path fd links s = Some (res, s)"
    using base run by (simp add: parseFile_def drop_count_def)
  show thesis
  proof (cases res)
    case (Inl e)
    then show ?thesis using error eq by simp
  next
    case (Inr f)
    then obtain ns n p c where f: "path \<noteq> []" "path_names path = ns @ [n]"
        "dirs s (path_start s base path) ns p" "child_of s p n = Some c"
        "if links = NoFollowLinks then f = c else follows s p c f"
      using snd by blast
    moreover from f(3) have "is_dir s p"
      using dirs_is_dir path_start_dir getBaseDir_dir [OF assms base] assms by blast
    ultimately show ?thesis
      using found eq Inr base by simp
  qed
qed

lemma getFileFrom_wf:
  assumes "wf_tree s"
  obtains (error) e where "getFileFrom d path s = Some (Inl e, s)"
  | (found) f where "getFileFrom d path s = Some (Inr f, s)" "resolves s d path f"
proof -
  obtain res r' s'
    where run: "doParseFile (followLinks MAX_RECURSIONS) path d FollowLinks 0 s = Some (res, r', s')"
    using doParseFile_total [OF total_limit] by blast
  note snd = doParseFile_resolves [OF assms followLinks_sound [OF assms] run]
  then show thesis
    using that run by (cases res) (auto simp: getFileFrom_def drop_count_def)
qed

lemma parseFile_pure:
  assumes "wf_tree s"
  shows "\<exists>res. parseFile path fd links s = Some (res, s)"
  by (rule parseFile_wf [OF assms, of path fd links]) blast+

lemma getFileAt_pure:
  assumes "wf_tree s"
  shows "\<exists>res. getFileAt fd path flags s = Some (res, s)"
  using parseFile_pure [OF assms, of path fd] by (auto simp: getFileAt_def split: option.splits)

text \<open>Every file a path leads to hangs in the tree.\<close>

lemma resolves_linked:
  assumes "wf_tree s"
  shows follows_parent: "follows s d c f \<Longrightarrow> is_dir s d \<Longrightarrow> parent_of s c \<noteq> None \<Longrightarrow> parent_of s f \<noteq> None"
    and "dirs s d ns p \<Longrightarrow> is_dir s d \<longrightarrow> is_dir s p"
    and resolves_parent: "resolves s d path f \<Longrightarrow> is_dir s d \<Longrightarrow> parent_of s f \<noteq> None"
proof (induction rule: follows_dirs_resolves.inducts)
  case (resolves_path path ns n d p c f)
  then show ?case
    using child_of_linked(1) [OF assms] path_start_dir [OF assms] by (metis option.distinct(1))
qed (auto simp: kind_of_link_iff)

lemma linked_allocated: "wf_tree s \<Longrightarrow> parent_of s f \<noteq> None \<Longrightarrow> f < fs_next s"
  using wf_parent(1) by auto

end
