(* ===== verification/ReadWrite.thy ===== *)
theory ReadWrite
  imports Paths
begin

text \<open>
  Reading and writing through descriptors (syscalls.cpp): \<open>writeAtOffset\<close> and \<open>readAtOffset\<close>
  behind \<open>fd_write\<close>, \<open>fd_read\<close>, \<open>fd_pwrite\<close> and \<open>fd_pread\<close>, then \<open>fd_seek\<close>, \<open>fd_tell\<close>, \<open>fd_close\<close>
  and \<open>fd_sync\<close>. A result is the 16-bit error code and the value stored through the out
  parameter, \<open>None\<close> when nothing is stored. The array of buffers is a list of address and length;
  it does not overlap the buffers themselves.
\<close>

section \<open>Open file states\<close>

definition setPosition :: "ofid \<Rightarrow> u64 \<Rightarrow> fs \<Rightarrow> fs" where
  [fs_defs]: "setPosition oid p = upd_ofile oid (of_position_update (\<lambda>_. p))"

definition setFlags :: "ofid \<Rightarrow> u32 \<Rightarrow> fs \<Rightarrow> fs" where
  [fs_defs]: "setFlags oid fl = upd_ofile oid (of_flags_update (\<lambda>_. fl))"

abbreviation file_of :: "fs \<Rightarrow> ofid \<Rightarrow> fid" where
  "file_of s oid \<equiv> of_file (fs_ofiles s oid)"

abbreviation isSeekable :: "fs \<Rightarrow> fid \<Rightarrow> bool" where
  "isSeekable s f \<equiv> f_seekable (fs_heap s f)"

section \<open>Writing\<close>

datatype OffsetHandling = OpenFileStateOffset | ArgumentOffset

record iovec =
  iov_buf :: u32
  iov_len :: u32

text \<open>The template of file_table.h at \<open>__wasi_filesize_t\<close>, an unsigned type.\<close>

definition addWillOverFlow :: "u64 \<Rightarrow> u64 \<Rightarrow> bool" where
  "addWillOverFlow a b \<longleftrightarrow> 0 < a \<and> - 1 - a < b"

fun write_loop :: "fid \<Rightarrow> u64 \<Rightarrow> iovec list \<Rightarrow> u32 \<Rightarrow> fs \<Rightarrow> ((u16 + u32) \<times> fs) option" where
  "write_loop f offset [] bytesWritten s = Some (Inr bytesWritten, s)"
| "write_loop f offset (iov # iovs) bytesWritten s =
    (if iov_buf iov = 0 \<and> 0 < iov_len iov then Some (Inl (wasi EINVAL), s)
     else if addWillOverFlow offset (ucast bytesWritten) then Some (Inl (wasi EFBIG), s)
     else
       (case df_write f (mem_read s (iov_buf iov) (iov_len iov)) (offset + ucast bytesWritten) s of
          None \<Rightarrow> None
        | Some (result, s) \<Rightarrow>
            if sint result < 0 then
              (if 0 < bytesWritten then Some (Inr bytesWritten, s)
               else Some (Inl (ucast (- result)), s))
            else if sint result < uint (iov_len iov) then Some (Inr (bytesWritten + result), s)
            else write_loop f offset iovs (bytesWritten + result) s))"

definition writeAtOffset ::
    "OffsetHandling \<Rightarrow> u32 \<Rightarrow> iovec list \<Rightarrow> u64 \<Rightarrow> fs \<Rightarrow> ((u16 \<times> u32 option) \<times> fs) option" where
  "writeAtOffset setOffset fd iovs offset s =
    (case getEntry fd s of
       None \<Rightarrow> Some ((wasi EBADF, None), s)
     | Some openFile \<Rightarrow>
       let f = file_of s openFile in
       if \<not> is_data s f then Some ((wasi EISDIR, None), s)
       else if setOffset = OpenFileStateOffset \<and> of_flags (fs_ofiles s openFile) AND O_APPEND \<noteq> 0 \<and>
           sint (getSize f s) < 0 then Some ((ucast (- getSize f s), None), s)
       else
         let (offset, s) =
           (if setOffset = OpenFileStateOffset then
              if of_flags (fs_ofiles s openFile) AND O_APPEND \<noteq> 0
              then (getSize f s, setPosition openFile (getSize f s) s)
              else (of_position (fs_ofiles s openFile), s)
            else (offset, s)) in
         (case write_loop f offset iovs 0 s of
            None \<Rightarrow> None
          | Some (Inl e, s) \<Rightarrow> Some ((e, None), s)
          | Some (Inr bytesWritten, s) \<Rightarrow>
              let s = (if setOffset = OpenFileStateOffset \<and> isSeekable s f
                       then setPosition openFile (offset + ucast bytesWritten) s else s);
                  s = (if bytesWritten \<noteq> 0 then updateMTime f s else s) in
              Some ((0, Some bytesWritten), s)))"

section \<open>Reading\<close>

fun read_loop :: "fid \<Rightarrow> u64 \<Rightarrow> iovec list \<Rightarrow> u32 \<Rightarrow> fs \<Rightarrow> ((u16 + u32) \<times> fs) option" where
  "read_loop f offset [] bytesRead s = Some (Inr bytesRead, s)"
| "read_loop f offset (iov # iovs) bytesRead s =
    (if iov_buf iov = 0 \<and> 0 < iov_len iov then Some (Inl (wasi EINVAL), s)
     else
       (case df_read f (iov_buf iov) (iov_len iov) (offset + ucast bytesRead) s of
          None \<Rightarrow> None
        | Some (result, s) \<Rightarrow>
            if sint result < 0 then
              (if 0 < bytesRead then Some (Inr bytesRead, s)
               else Some (Inl (ucast (- result)), s))
            else if result < iov_len iov then Some (Inr (bytesRead + result), s)
            else read_loop f offset iovs (bytesRead + result) s))"

definition readAtOffset ::
    "OffsetHandling \<Rightarrow> u32 \<Rightarrow> iovec list \<Rightarrow> u64 \<Rightarrow> fs \<Rightarrow> ((u16 \<times> u32 option) \<times> fs) option" where
  "readAtOffset setOffset fd iovs offset s =
    (case getEntry fd s of
       None \<Rightarrow> Some ((wasi EBADF, None), s)
     | Some openFile \<Rightarrow>
       let offset = (if setOffset = OpenFileStateOffset then of_position (fs_ofiles s openFile)
                     else offset);
           f = file_of s openFile in
       if \<not> is_data s f then Some ((wasi EISDIR, None), s)
       else
         (case read_loop f offset iovs 0 s of
            None \<Rightarrow> None
          | Some (Inl e, s) \<Rightarrow> Some ((e, None), s)
          | Some (Inr bytesRead, s) \<Rightarrow>
              let s = (if setOffset = OpenFileStateOffset \<and> isSeekable s f
                       then setPosition openFile (offset + ucast bytesRead) s else s) in
              Some ((0, Some bytesRead), s)))"

text \<open>The four entry points.\<close>

definition wasi_fd_write :: "u32 \<Rightarrow> iovec list \<Rightarrow> fs \<Rightarrow> ((u16 \<times> u32 option) \<times> fs) option" where
  "wasi_fd_write fd iovs = writeAtOffset OpenFileStateOffset fd iovs 0"

definition wasi_fd_read :: "u32 \<Rightarrow> iovec list \<Rightarrow> fs \<Rightarrow> ((u16 \<times> u32 option) \<times> fs) option" where
  "wasi_fd_read fd iovs = readAtOffset OpenFileStateOffset fd iovs 0"

definition wasi_fd_pwrite :: "u32 \<Rightarrow> iovec list \<Rightarrow> u64 \<Rightarrow> fs \<Rightarrow> ((u16 \<times> u32 option) \<times> fs) option" where
  "wasi_fd_pwrite fd iovs offset = writeAtOffset ArgumentOffset fd iovs offset"

definition wasi_fd_pread :: "u32 \<Rightarrow> iovec list \<Rightarrow> u64 \<Rightarrow> fs \<Rightarrow> ((u16 \<times> u32 option) \<times> fs) option" where
  "wasi_fd_pread fd iovs offset = readAtOffset ArgumentOffset fd iovs offset"

section \<open>Seeking, closing, flushing\<close>

abbreviation (input) "SEEK_SET \<equiv> (0 :: byte)"
abbreviation (input) "SEEK_CUR \<equiv> (1 :: byte)"
abbreviation (input) "SEEK_END \<equiv> (2 :: byte)"

text \<open>\<open>None\<close> is the overflow of the signed sum; a null \<open>newoffset\<close> stores nothing.\<close>

definition wasi_fd_seek ::
    "u32 \<Rightarrow> u64 \<Rightarrow> byte \<Rightarrow> u32 \<Rightarrow> fs \<Rightarrow> ((u16 \<times> u64 option) \<times> fs) option" where
  "wasi_fd_seek fd offset whence newoffset s =
    (case getEntry fd s of
       None \<Rightarrow> Some ((wasi EBADF, None), s)
     | Some openFile \<Rightarrow>
       let f = file_of s openFile; size = getSize f s in
       if \<not> isSeekable s f then Some ((wasi ESPIPE, None), s)
       else if whence = SEEK_END \<and> sint size < 0 then Some ((ucast (- size), None), s)
       else if whence \<noteq> SEEK_SET \<and> whence \<noteq> SEEK_CUR \<and> whence \<noteq> SEEK_END
         then Some ((wasi EINVAL, None), s)
       else
         let base = (if whence = SEEK_SET then 0
                     else if whence = SEEK_CUR then of_position (fs_ofiles s openFile) else size);
             total = sint base + sint offset in
         if total < - (2 ^ 63) \<or> 2 ^ 63 \<le> total then None
         else if total < 0 then Some ((wasi EINVAL, None), s)
         else
           let position = base + offset in
           Some ((0, if newoffset \<noteq> 0 then Some position else None),
                 setPosition openFile position s))"

definition fd_tell :: "u32 \<Rightarrow> fs \<Rightarrow> (u16 \<times> u64 option) \<times> fs" where
  "fd_tell fd s =
    (case getEntry fd s of
       None \<Rightarrow> ((wasi EBADF, None), s)
     | Some openFile \<Rightarrow> ((0, Some (of_position (fs_ofiles s openFile))), s))"

definition wasi_fd_close :: "u32 \<Rightarrow> fs \<Rightarrow> u16 \<times> fs" where
  "wasi_fd_close fd s =
    (case getEntry fd s of
       None \<Rightarrow> (wasi EBADF, s)
     | Some _ \<Rightarrow>
       let (closee, s) = setEntry fd None s in
       (case closee of
          None \<Rightarrow> (0, s)
        | Some f \<Rightarrow> (ucast (- df_close (node_of s f)), s)))"

definition wasi_fd_sync :: "u32 \<Rightarrow> fs \<Rightarrow> u16 \<times> fs" where
  "wasi_fd_sync fd s =
    (case getEntry fd s of
       None \<Rightarrow> (wasi EBADF, s)
     | Some openFile \<Rightarrow>
       if is_data s (file_of s openFile) then
         let (ret, s) = df_flush (file_of s openFile) s in (ucast (- ret), s)
       else (0, s))"

definition syscall_fdatasync :: "u32 \<Rightarrow> fs \<Rightarrow> u32 \<times> fs" where
  "syscall_fdatasync fd s = (let (r, s) = wasi_fd_sync fd s in (ucast r, s))"

section \<open>Gathering writes\<close>

lemma set_node_set_node [simp]: "set_node f n (set_node f m s) = set_node f n s"
  by (simp add: fs_defs)

lemma set_node_effect [simp]:
  "node_of (set_node f n s) g = (if g = f then n else node_of s g)"
  "fs_mem (set_node f n s) = fs_mem s" "fs_ofiles (set_node f n s) = fs_ofiles s"
  "fs_table (set_node f n s) = fs_table s" "isSeekable (set_node f n s) g = isSeekable s g"
  "parent_of (set_node f n s) g = parent_of s g" "mode_of (set_node f n s) g = mode_of s g"
  by (simp_all add: fs_defs)

definition gather :: "fs \<Rightarrow> iovec list \<Rightarrow> byte list" where
  "gather s iovs = concat (map (\<lambda>iov. mem_read s (iov_buf iov) (iov_len iov)) iovs)"

lemma gather_simps [simp]:
  "gather s [] = []"
  "gather s (iov # iovs) = mem_read s (iov_buf iov) (iov_len iov) @ gather s iovs"
  by (simp_all add: gather_def)

lemma gather_cong: "fs_mem t = fs_mem s \<Longrightarrow> gather t iovs = gather s iovs"
  by (simp add: gather_def mem_read_def)

definition valid_iovs :: "iovec list \<Rightarrow> bool" where
  "valid_iovs iovs \<longleftrightarrow> (\<forall>iov \<in> set iovs. iov_buf iov = 0 \<longrightarrow> iov_len iov = 0)"

text \<open>Sizes below \<open>MAX_SIZE\<close> add up without wrapping.\<close>

lemma unat_add_u32: "unat a + unat b \<le> MAX_SIZE \<Longrightarrow> unat (a + b) = unat a + unat b"
  for a b :: u32
  by (subst unat_plus_if') simp

lemma unat_add_u64: "unat a + unat b \<le> MAX_SIZE \<Longrightarrow> unat (a + b) = unat a + unat b"
  for a b :: u64
  by (subst unat_plus_if') simp

lemma sint_small [simp]:
  "unat w \<le> MAX_SIZE \<Longrightarrow> sint w = int (unat w)" "unat v \<le> MAX_SIZE \<Longrightarrow> sint v = int (unat v)"
  for w :: u64 and v :: u32
  by (rule sint_below_half; simp)+

lemma no_overflow: "unat offset + unat written \<le> MAX_SIZE \<Longrightarrow> \<not> addWillOverFlow offset (ucast written)"
  for written :: u32
proof -
  assume "unat offset + unat written \<le> MAX_SIZE"
  moreover have "unat (- 1 - offset) = 2 ^ 64 - 1 - unat offset"
    using unsigned_less [of offset, where ?'a = nat]
    by (simp add: unat_sub_if' unsigned_minus_1_eq_mask mask_eq_exp_minus_1)
  ultimately show ?thesis
    by (simp add: addWillOverFlow_def word_less_nat_alt unat_ucast_u64) arith
qed

text \<open>
  The writing loop on a memory file, when everything fits: all the buffers are written, one after
  the other, and only the contents of the file change.
\<close>

lemma write_loop_memory:
  assumes "node_of s f = MemoryDataFile b" "length b \<le> MAX_SIZE" "valid_iovs iovs"
    and "unat offset + unat written + length (gather s iovs) \<le> MAX_SIZE"
  shows "write_loop f offset iovs written s =
    Some (Inr (written + of_nat (length (gather s iovs))),
      if iovs = [] then s
      else set_node f (MemoryDataFile (write_spec (unat offset + unat written) (gather s iovs) b)) s)"
  using assms
proof (induction iovs arbitrary: s b written)
  case (Cons iov iovs)
  define data where "data = mem_read s (iov_buf iov) (iov_len iov)"
  have len: "length data = unat (iov_len iov)" by (simp add: data_def)
  define off where "off = offset + ucast written"
  have fits: "unat offset + unat written + (length data + length (gather s iovs)) \<le> MAX_SIZE"
    using Cons.prems(4) by (simp add: data_def)
  have off: "unat off = unat offset + unat written"
    using fits unat_add_u64 [of offset "ucast written"] by (simp add: off_def unat_ucast_u64)
  define t where "t = set_node f (MemoryDataFile (write_spec (unat off) data b)) s"
  have wr: "df_write f data off s = Some (iov_len iov, t)"
    using df_write_memory [of s f b off data] Cons.prems(1,2) fits off len
    by (simp add: t_def)
  have g: "gather t iovs = gather s iovs"
    by (rule gather_cong) (simp add: t_def)
  have w: "unat (written + iov_len iov) = unat written + length data"
    using fits len unat_add_u32 [of written "iov_len iov"] by simp
  have b: "length (write_spec (unat off) data b) \<le> MAX_SIZE"
    using fits Cons.prems(2) off by simp
  have rec: "write_loop f offset iovs (written + iov_len iov) t =
    Some (Inr (written + iov_len iov + of_nat (length (gather t iovs))),
      if iovs = [] then t
      else set_node f (MemoryDataFile (write_spec (unat offset + unat (written + iov_len iov))
             (gather t iovs) (write_spec (unat off) data b))) t)"
  proof (rule Cons.IH)
    show "node_of t f = MemoryDataFile (write_spec (unat off) data b)"
      by (simp add: t_def)
    show "valid_iovs iovs"
      using Cons.prems(3) by (simp add: valid_iovs_def)
    show "unat offset + unat (written + iov_len iov) + length (gather t iovs) \<le> MAX_SIZE"
      using fits w g by simp
  qed (rule b)
  have guard: "\<not> (iov_buf iov = 0 \<and> 0 < iov_len iov)"
    using Cons.prems(3) by (auto simp: valid_iovs_def)
  have novf: "\<not> addWillOverFlow offset (ucast written)"
    using fits by (intro no_overflow) simp
  have small: "sint (iov_len iov) = uint (iov_len iov)"
    using fits len by simp
  have "write_loop f offset (iov # iovs) written s = write_loop f offset iovs (written + iov_len iov) t"
    using guard novf wr small by (auto simp: data_def off_def)
  moreover have "write_spec (unat offset + unat (written + iov_len iov)) (gather s iovs)
      (write_spec (unat off) data b) = write_spec (unat off) (data @ gather s iovs) b"
    using write_spec_append [of "unat off" data "gather s iovs" b] w off by (simp add: add.assoc)
  moreover have "data @ gather s iovs = gather s (iov # iovs)"
    by (simp add: data_def)
  ultimately show ?case
    using rec g off len by (auto simp: t_def add.assoc)
qed simp

section \<open>Scattering reads\<close>

fun scatter :: "iovec list \<Rightarrow> byte list \<Rightarrow> (u32 \<Rightarrow> byte) \<Rightarrow> (u32 \<Rightarrow> byte)" where
  "scatter [] bs m = m"
| "scatter (iov # iovs) bs m =
     scatter iovs (drop (unat (iov_len iov)) bs) (mem_store (iov_buf iov) (take (unat (iov_len iov)) bs) m)"

fun iov_total :: "iovec list \<Rightarrow> nat" where
  "iov_total [] = 0"
| "iov_total (iov # iovs) = unat (iov_len iov) + iov_total iovs"

lemma scatter_Nil [simp]: "scatter iovs [] m = m"
  by (induction iovs arbitrary: m) simp_all

lemma length_gather: "length (gather s iovs) = iov_total iovs"
  by (induction iovs) simp_all

text \<open>
  The reading loop on a memory file delivers the bytes from the offset on, as many as the buffers
  hold or the file has, into the buffers in order.
\<close>

lemma read_loop_memory:
  assumes "node_of s f = MemoryDataFile b" "length b \<le> MAX_SIZE" "valid_iovs iovs"
    and "unat offset + unat r + iov_total iovs \<le> MAX_SIZE"
  shows "read_loop f offset iovs r s =
    (let bs = take (iov_total iovs) (drop (unat offset + unat r) b) in
     Some (Inr (r + of_nat (length bs)), s\<lparr>fs_mem := scatter iovs bs (fs_mem s)\<rparr>))"
  using assms
proof (induction iovs arbitrary: s r)
  case (Cons iov iovs)
  define n where "n = unat (iov_len iov)"
  define off where "off = offset + ucast r"
  define avail where "avail = drop (unat offset + unat r) b"
  define bs where "bs = take n avail"
  define t where "t = s\<lparr>fs_mem := mem_store (iov_buf iov) bs (fs_mem s)\<rparr>"
  have fits: "unat offset + unat r + (n + iov_total iovs) \<le> MAX_SIZE"
    using Cons.prems(4) by (simp add: n_def)
  have off: "unat off = unat offset + unat r"
    using fits unat_add_u64 [of offset "ucast r"] by (simp add: off_def unat_ucast_u64)
  have rd: "df_read f (iov_buf iov) (iov_len iov) off s = Some (of_nat (length bs), t)"
    using df_read_memory [of s f b off "iov_buf iov" "iov_len iov"] Cons.prems(1,2) fits off
    by (simp add: bs_def avail_def t_def Let_def flip: n_def)
  have lbs: "length bs \<le> n" "length bs \<le> MAX_SIZE"
    using fits by (simp_all add: bs_def)
  have ubs: "unat (of_nat (length bs) :: u32) = length bs"
    using lbs(2) by (simp add: unat_of_nat)
  have pos: "\<not> sint (of_nat (length bs) :: u32) < 0"
    using ubs lbs(2) by simp
  have less: "(of_nat (length bs) :: u32) < iov_len iov \<longleftrightarrow> length bs < n"
    by (simp add: word_less_nat_alt ubs n_def)
  have guard: "\<not> (iov_buf iov = 0 \<and> 0 < iov_len iov)"
    using Cons.prems(3) by (auto simp: valid_iovs_def)
  have step: "read_loop f offset (iov # iovs) r s =
      (if length bs < n then Some (Inr (r + of_nat (length bs)), t)
       else read_loop f offset iovs (r + of_nat (length bs)) t)"
    using guard rd pos less by (auto simp: off_def)
  show ?case
  proof (cases "length bs < n")
    case True
    then have "length avail < n" by (simp add: bs_def)
    then have all: "take (n + iov_total iovs) avail = bs" "drop n bs = []" "take n bs = bs"
      by (simp_all add: bs_def)
    show ?thesis
      using step True all by (simp add: Let_def t_def flip: avail_def n_def)
  next
    case False
    then have full: "length bs = n" using lbs by simp
    have r: "unat (r + of_nat n) = unat r + n"
      using fits ubs full unat_add_u32 [of r "of_nat n"] by simp
    have "read_loop f offset iovs (r + of_nat n) t =
      (let bs' = take (iov_total iovs) (drop (unat offset + unat (r + of_nat n)) b) in
       Some (Inr (r + of_nat n + of_nat (length bs')), t\<lparr>fs_mem := scatter iovs bs' (fs_mem t)\<rparr>))"
      using Cons.prems(1-3) fits r by (intro Cons.IH) (simp_all add: t_def valid_iovs_def)
    moreover have "drop (unat offset + unat (r + of_nat n)) b = drop n avail"
      by (simp add: avail_def r ac_simps)
    moreover have "take (n + iov_total iovs) avail = bs @ take (iov_total iovs) (drop n avail)"
      by (simp add: bs_def take_add)
    ultimately show ?thesis
      using step False full by (simp add: Let_def t_def add.assoc flip: avail_def n_def)
  qed
qed simp

section \<open>Descriptors of memory files\<close>

text \<open>A descriptor is open on a memory file with some contents.\<close>

definition open_memory :: "fs \<Rightarrow> u32 \<Rightarrow> ofid \<Rightarrow> byte list \<Rightarrow> bool" where
  "open_memory s fd oid b \<longleftrightarrow> getEntry fd s = Some oid \<and>
     node_of s (file_of s oid) = MemoryDataFile b \<and> length b \<le> MAX_SIZE"

lemma pwrite_memory:
  assumes "open_memory s fd oid b" "valid_iovs iovs" "iovs \<noteq> []"
    and "unat offset + length (gather s iovs) \<le> MAX_SIZE"
  obtains t where
    "wasi_fd_pwrite fd iovs offset s = Some ((0, Some (of_nat (length (gather s iovs)))), t)"
    "open_memory t fd oid (write_spec (unat offset) (gather s iovs) b)"
    "fs_ofiles t = fs_ofiles s" "fs_mem t = fs_mem s" "fs_table t = fs_table s"
proof -
  define f data where "f = file_of s oid" and "data = gather s iovs"
  define u where "u = set_node f (MemoryDataFile (write_spec (unat offset) data b)) s"
  define t where "t = (if of_nat (length data) \<noteq> (0::u32) then updateMTime f u else u)"
  have w: "write_loop f offset iovs 0 s = Some (Inr (of_nat (length data)), u)"
    using write_loop_memory [of s f b iovs offset 0] assms
    by (simp add: open_memory_def f_def u_def data_def)
  have "wasi_fd_pwrite fd iovs offset s = Some ((0, Some (of_nat (length data))), t)"
    using assms(1) w
    by (simp add: wasi_fd_pwrite_def writeAtOffset_def open_memory_def Let_def t_def flip: f_def)
  moreover have "open_memory t fd oid (write_spec (unat offset) data b)" "fs_ofiles t = fs_ofiles s"
    "fs_mem t = fs_mem s" "fs_table t = fs_table s"
    using assms(1,4) by (auto simp: t_def u_def open_memory_def getEntry_def data_def f_def fs_defs)
  ultimately show thesis
    using that by (simp add: data_def)
qed

lemma pread_memory:
  assumes "open_memory s fd oid b" "valid_iovs iovs"
    and "unat offset + iov_total iovs \<le> MAX_SIZE"
  shows "wasi_fd_pread fd iovs offset s =
    (let bs = take (iov_total iovs) (drop (unat offset) b) in
     Some ((0, Some (of_nat (length bs))), s\<lparr>fs_mem := scatter iovs bs (fs_mem s)\<rparr>))"
  using assms read_loop_memory [of s "file_of s oid" b iovs offset 0]
  by (simp add: wasi_fd_pread_def readAtOffset_def open_memory_def Let_def)

definition appending :: "fs \<Rightarrow> ofid \<Rightarrow> bool" where
  "appending s oid \<longleftrightarrow> of_flags (fs_ofiles s oid) AND O_APPEND \<noteq> 0"

text \<open>Where \<open>fd_write\<close> starts: at the end of the file in append mode, else at the position.\<close>

definition write_base :: "fs \<Rightarrow> ofid \<Rightarrow> byte list \<Rightarrow> nat" where
  "write_base s oid b =
    (if appending s oid then length b else unat (of_position (fs_ofiles s oid)))"

lemma setPosition_effect [simp]:
  "fs_heap (setPosition oid p s) = fs_heap s" "fs_mem (setPosition oid p s) = fs_mem s"
  "fs_table (setPosition oid p s) = fs_table s"
  "of_position (fs_ofiles (setPosition oid p s) oid) = p"
  "of_file (fs_ofiles (setPosition oid p s) x) = of_file (fs_ofiles s x)"
  "of_flags (fs_ofiles (setPosition oid p s) x) = of_flags (fs_ofiles s x)"
  "of_uses (fs_ofiles (setPosition oid p s) x) = of_uses (fs_ofiles s x)"
  "x \<noteq> oid \<Longrightarrow> fs_ofiles (setPosition oid p s) x = fs_ofiles s x"
  by (simp_all add: fs_defs)

lemma updateMTime_mem [simp]:
  "fs_mem (updateMTime f s) = fs_mem s" "isSeekable (updateMTime f s) g = isSeekable s g"
  by (simp_all add: fs_defs)

lemma write_memory:
  assumes "open_memory s fd oid b" "valid_iovs iovs" "iovs \<noteq> []" "isSeekable s (file_of s oid)"
    and "write_base s oid b + length (gather s iovs) \<le> MAX_SIZE"
  obtains t where
    "wasi_fd_write fd iovs s = Some ((0, Some (of_nat (length (gather s iovs)))), t)"
    "open_memory t fd oid (write_spec (write_base s oid b) (gather s iovs) b)"
    "of_position (fs_ofiles t oid) = of_nat (write_base s oid b + length (gather s iovs))"
    "fs_mem t = fs_mem s" "fs_table t = fs_table s"
    "file_of t oid = file_of s oid" "isSeekable t (file_of s oid)"
    "\<And>x. x \<noteq> oid \<Longrightarrow> fs_ofiles t x = fs_ofiles s x"
proof -
  define f data k where "f = file_of s oid" and "data = gather s iovs" and "k = write_base s oid b"
  have node: "node_of s f = MemoryDataFile b" and b: "length b \<le> MAX_SIZE"
    and fd: "getEntry fd s = Some oid"
    using assms(1) by (simp_all add: open_memory_def f_def)
  have size: "getSize f s = of_nat (length b)"
    by (simp add: getSize_def node)
  have usize: "unat (of_nat (length b) :: u64) = length b"
    using b by (simp add: unat_of_nat)
  have nonneg: "\<not> sint (getSize f s) < 0"
    using usize b by (simp add: size)
  define off where "off = (if appending s oid then getSize f s else of_position (fs_ofiles s oid))"
  have k: "unat off = k"
    using usize by (simp add: off_def k_def write_base_def size)
  define s1 where "s1 = (if appending s oid then setPosition oid (getSize f s) s else s)"
  have s1: "node_of s1 f = MemoryDataFile b" "fs_mem s1 = fs_mem s" "fs_table s1 = fs_table s"
    "isSeekable s1 f" "file_of s1 oid = f" "x \<noteq> oid \<Longrightarrow> fs_ofiles s1 x = fs_ofiles s x" for x
    using node assms(4) by (auto simp: s1_def f_def)
  have data: "gather s1 iovs = data"
    unfolding data_def by (rule gather_cong) (rule s1)
  have fits: "k + length data \<le> MAX_SIZE"
    using assms(5) by (simp add: k_def data_def)
  define u where "u = set_node f (MemoryDataFile (write_spec k data b)) s1"
  have w: "write_loop f off iovs 0 s1 = Some (Inr (of_nat (length data)), u)"
    using write_loop_memory [of s1 f b iovs off 0] s1(1) b assms(2,3) fits k data
    by (simp add: u_def)
  define v where "v = setPosition oid (off + ucast (of_nat (length data) :: u32)) u"
  define t where "t = (if of_nat (length data) \<noteq> (0::u32) then updateMTime f v else v)"
  have "wasi_fd_write fd iovs s = Some ((0, Some (of_nat (length data))), t)"
    using fd node nonneg w s1(4)
    by (simp add: wasi_fd_write_def writeAtOffset_def Let_def t_def v_def u_def s1_def off_def
        appending_def flip: f_def split: if_splits)
  moreover have "of_position (fs_ofiles t oid) = of_nat (k + length data)"
  proof -
    have "off = of_nat k"
      using k of_nat_unat_same [of off] by simp
    moreover have "ucast (of_nat (length data) :: u32) = (of_nat (length data) :: u64)"
      using fits by (intro ucast_of_nat_32_64) simp
    moreover have "of_position (fs_ofiles v oid) = off + ucast (of_nat (length data) :: u32)"
      by (simp add: v_def)
    moreover have "fs_ofiles t = fs_ofiles v"
      by (simp add: t_def)
    ultimately show ?thesis by (simp only: of_nat_add)
  qed
  moreover have "open_memory t fd oid (write_spec k data b)" "fs_mem t = fs_mem s"
    "fs_table t = fs_table s" "file_of t oid = f" "isSeekable t f"
    "x \<noteq> oid \<Longrightarrow> fs_ofiles t x = fs_ofiles s x" for x
    using fd s1 b fits by (auto simp: t_def v_def u_def open_memory_def getEntry_def)
  ultimately show thesis
    using that by (simp add: data_def k_def f_def)
qed

lemma read_memory:
  assumes "open_memory s fd oid b" "valid_iovs iovs" "isSeekable s (file_of s oid)"
    and "unat (of_position (fs_ofiles s oid)) + iov_total iovs \<le> MAX_SIZE"
  shows "wasi_fd_read fd iovs s =
    (let p = of_position (fs_ofiles s oid); bs = take (iov_total iovs) (drop (unat p) b) in
     Some ((0, Some (of_nat (length bs))),
       setPosition oid (p + of_nat (length bs)) (s\<lparr>fs_mem := scatter iovs bs (fs_mem s)\<rparr>)))"
proof -
  define p bs where "p = of_position (fs_ofiles s oid)"
    and "bs = take (iov_total iovs) (drop (unat p) b)"
  have "length bs \<le> MAX_SIZE"
    using assms(4) by (simp add: bs_def)
  then have "ucast (of_nat (length bs) :: u32) = (of_nat (length bs) :: u64)"
    by (intro ucast_of_nat_32_64) simp
  then show ?thesis
    using assms read_loop_memory [of s "file_of s oid" b iovs p 0]
    by (simp add: wasi_fd_read_def readAtOffset_def open_memory_def Let_def p_def bs_def)
qed

section \<open>The operations keep the invariant\<close>

lemma quiet_ofile: "quiet s (setPosition oid p s)" "quiet s (setFlags oid fl s)"
  by (simp_all add: quiet_def same_shape_def fs_defs)

lemmas quiet_ofiles [simp] = quiet_ofile [THEN quiet_right] quiet_ofile [THEN quiet_left]

lemma write_loop_quiet: "write_loop f off iovs w s = Some (r, t) \<Longrightarrow> quiet s t"
proof (induction f off iovs w s rule: write_loop.induct)
  case (2 f off iov iovs w s)
  show ?case
  proof (cases "\<exists>res u. df_write f (mem_read s (iov_buf iov) (iov_len iov)) (off + ucast w) s = Some (res, u)")
    case True
    then obtain res u where u:
      "df_write f (mem_read s (iov_buf iov) (iov_len iov)) (off + ucast w) s = Some (res, u)" by blast
    then have "quiet s u" by (rule quiet_df)
    then show ?thesis
      using 2(2) u 2(1) [OF _ _ u refl] by (auto split: if_splits intro: quiet_trans)
  next
    case False
    then show ?thesis
      using 2(2) by (auto split: if_splits option.splits)
  qed
qed simp

lemma read_loop_quiet: "read_loop f off iovs w s = Some (r, t) \<Longrightarrow> quiet s t"
proof (induction f off iovs w s rule: read_loop.induct)
  case (2 f off iov iovs w s)
  show ?case
  proof (cases "\<exists>res u. df_read f (iov_buf iov) (iov_len iov) (off + ucast w) s = Some (res, u)")
    case True
    then obtain res u where u:
      "df_read f (iov_buf iov) (iov_len iov) (off + ucast w) s = Some (res, u)" by blast
    then have "quiet s u" by (rule quiet_df)
    then show ?thesis
      using 2(2) u 2(1) [OF _ u refl] by (auto split: if_splits intro: quiet_trans)
  next
    case False
    then show ?thesis
      using 2(2) by (auto split: if_splits option.splits)
  qed
qed simp

lemma writeAtOffset_quiet: "writeAtOffset so fd iovs off s = Some (r, t) \<Longrightarrow> quiet s t"
  by (auto simp: writeAtOffset_def Let_def split: if_splits option.splits sum.splits
      dest!: write_loop_quiet)

lemma readAtOffset_quiet: "readAtOffset so fd iovs off s = Some (r, t) \<Longrightarrow> quiet s t"
  by (auto simp: readAtOffset_def Let_def split: if_splits option.splits sum.splits
      dest!: read_loop_quiet)

lemma seek_quiet: "wasi_fd_seek fd off wh no s = Some (r, t) \<Longrightarrow> quiet s t"
  by (auto simp: wasi_fd_seek_def Let_def split: if_splits option.splits)

lemma sync_quiet: "quiet s (snd (wasi_fd_sync fd s))"
  using quiet_df(4) by (auto simp: wasi_fd_sync_def split: option.splits prod.splits)

lemma close_wf: "wf_fs s \<Longrightarrow> wf_fs (snd (wasi_fd_close fd s))"
  using wf_table_setEntry [of s None fd] wf_tree_shape [OF _ setEntry_shape, of s fd None]
  by (auto simp: wasi_fd_close_def wf_fs_def split: option.splits prod.splits)

end
