(* ===== verification/Namespace.thy ===== *)
theory Namespace
  imports ReadWrite
begin

text \<open>
  The system calls on names (syscalls.cpp): opening and creating, mkdir, unlink, rename, symbolic
  links, the working directory and reading directories. A call returns the 32-bit value of the
  source, a negative error code or a result. \<open>None\<close> is undefined behaviour: a null pointer
  dereferenced, or an endless loop. The assertions of the source are compiled out (memfs.cpp
  defines \<open>NDEBUG\<close>). A path is a C string, taken from memory by the caller.
\<close>

type_synonym syscall = "fs \<Rightarrow> (u32 \<times> fs) option"

definition fails :: "errno \<Rightarrow> syscall" where
  "fails e s = Some (neg_errno e, s)"

section \<open>Opening\<close>

datatype OpenReturnMode = ReturnFD | ReturnNothing

text \<open>\<open>OpenFileState::create\<close> followed by \<open>addEntry\<close>, with \<open>k\<close> between them.\<close>

definition open_file :: "fid \<Rightarrow> u32 \<Rightarrow> (fs \<Rightarrow> (errno option \<times> fs) option) \<Rightarrow> syscall" where
  "open_file f flags k s =
    (case OpenFileState_create f flags s of
       None \<Rightarrow> None
     | Some (Inl err, s) \<Rightarrow> Some (err, s)
     | Some (Inr openFile, s) \<Rightarrow>
         (case k s of
            None \<Rightarrow> None
          | Some (Some e, s) \<Rightarrow> Some (neg_errno e, s)
          | Some (None, s) \<Rightarrow> Some (addEntry openFile s)))"

text \<open>The branch of \<open>doOpen\<close> for a name that does not exist.\<close>

definition open_create ::
    "fid \<Rightarrow> string \<Rightarrow> u32 \<Rightarrow> u32 \<Rightarrow> backend_t option \<Rightarrow> OpenReturnMode \<Rightarrow> syscall" where
  "open_create parent childName flags mode backend returnMode s =
    (if flags AND O_CREAT = 0 then fails ENOENT s
     else if parent_of s parent = None then fails ENOENT s
     else
       let mode = mode AND S_IALLUGO;
           backend = (if backend = None then backend_of s parent else backend);
           (created, s) =
             (if backend = backend_of s parent then insertDataFile parent childName mode s
              else let (f, s) = createFile mode backend s in
                   (Some f, snd (mountChild parent childName f s))) in
       (case created of
          None \<Rightarrow> fails EIO s
        | Some f \<Rightarrow>
            if returnMode = ReturnNothing then Some (0, s)
            else open_file f flags (\<lambda>s. Some (None, s)) s))"

text \<open>The truncation of \<open>doOpen\<close>, after the file is opened; a failure to truncate is ignored.\<close>

definition open_truncate :: "fid \<Rightarrow> u32 \<Rightarrow> u32 \<Rightarrow> fs \<Rightarrow> (errno option \<times> fs) option" where
  "open_truncate child flags fileMode s =
    (if flags AND O_TRUNC = 0 then Some (None, s)
     else if \<not> is_data s child then Some (Some EISDIR, s)
     else if fileMode AND WASMFS_PERM_WRITE = 0 then Some (Some EACCES, s)
     else (case df_setSize child 0 s of None \<Rightarrow> None | Some (_, s) \<Rightarrow> Some (None, s)))"

text \<open>The branch for a file that exists, its link followed.\<close>

definition open_existing :: "fid \<Rightarrow> u32 \<Rightarrow> syscall" where
  "open_existing child flags s =
    (let accessMode = flags AND O_ACCMODE; fileMode = mode_of s child in
     if flags AND O_EXCL \<noteq> 0 \<and> flags AND O_CREAT \<noteq> 0 then fails EEXIST s
     else if is_dir s child \<and> accessMode \<noteq> O_RDONLY then fails EISDIR s
     else if (accessMode = O_RDONLY \<or> accessMode = O_RDWR) \<and> fileMode AND WASMFS_PERM_READ = 0
       then fails EACCES s
     else if (accessMode = O_WRONLY \<or> accessMode = O_RDWR) \<and> fileMode AND WASMFS_PERM_WRITE = 0
       then fails EACCES s
     else if flags AND O_DIRECTORY \<noteq> 0 \<and> \<not> is_dir s child then fails ENOTDIR s
     else open_file child flags (open_truncate child flags fileMode) s)"

definition doOpen ::
    "errno + fid \<times> string \<Rightarrow> u32 \<Rightarrow> u32 \<Rightarrow> backend_t option \<Rightarrow> OpenReturnMode \<Rightarrow> syscall" where
  "doOpen parsed flags mode backend returnMode s =
    (let accessMode = flags AND O_ACCMODE in
     if accessMode \<noteq> O_WRONLY \<and> accessMode \<noteq> O_RDONLY \<and> accessMode \<noteq> O_RDWR then fails EINVAL s
     else
       (case parsed of
          Inl e \<Rightarrow> fails e s
        | Inr (parent, childName) \<Rightarrow>
            if WASMFS_NAME_MAX < length childName then fails ENAMETOOLONG s
            else
              (case getChild parent childName s of
                 (None, s) \<Rightarrow> open_create parent childName flags mode backend returnMode s
               | (Some child, s) \<Rightarrow>
                   (case node_of s child of
                      MemorySymlink tgt \<Rightarrow>
                        if flags AND O_NOFOLLOW \<noteq> 0 then fails ELOOP s
                        else
                          (case getFileFrom parent tgt s of
                             None \<Rightarrow> None
                           | Some (Inl e, s) \<Rightarrow> fails e s
                           | Some (Inr child, s) \<Rightarrow> open_existing child flags s)
                    | _ \<Rightarrow> open_existing child flags s))))"

text \<open>Parsing the parent first, as every caller does.\<close>

definition with_parent :: "string \<Rightarrow> u32 \<Rightarrow> (errno + fid \<times> string \<Rightarrow> syscall) \<Rightarrow> syscall" where
  "with_parent path dirfd k s =
    (case parseParent path dirfd s of None \<Rightarrow> None | Some (parsed, s) \<Rightarrow> k parsed s)"

definition wasmfs_create_file :: "string \<Rightarrow> u32 \<Rightarrow> backend_t option \<Rightarrow> syscall" where
  "wasmfs_create_file pathname mode backend =
    with_parent pathname AT_FDCWD
      (\<lambda>parsed. doOpen parsed (O_CREAT OR O_EXCL) mode backend ReturnFD)"

text \<open>\<open>__syscall_openat2\<close> ignores the lookup flags; the flags are a 16-bit \<open>__wasi_oflags_t\<close>.\<close>

definition syscall_openat2 :: "u32 \<Rightarrow> string \<Rightarrow> u32 \<Rightarrow> u16 \<Rightarrow> u32 \<Rightarrow> syscall" where
  "syscall_openat2 dirfd path dir_flags oflags mode =
    with_parent path dirfd (\<lambda>parsed. doOpen parsed (ucast oflags) mode None ReturnFD)"

definition syscall_openat :: "u32 \<Rightarrow> string \<Rightarrow> u32 \<Rightarrow> u32 \<Rightarrow> syscall" where
  "syscall_openat dirfd path flags mode =
    with_parent path dirfd (\<lambda>parsed. doOpen parsed flags mode None ReturnFD)"

definition syscall_mknodat :: "u32 \<Rightarrow> string \<Rightarrow> u32 \<Rightarrow> u32 \<Rightarrow> syscall" where
  "syscall_mknodat dirfd path mode dev s =
    (if mode AND S_IFDIR \<noteq> 0 then fails EINVAL s
     else if mode AND S_IFIFO \<noteq> 0 then fails EPERM s
     else with_parent path dirfd
       (\<lambda>parsed. doOpen parsed (O_CREAT OR O_EXCL) mode None ReturnNothing) s)"

section \<open>Directories\<close>

definition doMkdir :: "errno + fid \<times> string \<Rightarrow> u32 \<Rightarrow> backend_t option \<Rightarrow> syscall" where
  "doMkdir parsed mode backend s =
    (case parsed of
       Inl e \<Rightarrow> fails e s
     | Inr (parent, childName) \<Rightarrow>
         if WASMFS_NAME_MAX < length childName then fails ENAMETOOLONG s
         else
           (case getChild parent childName s of
              (Some _, s) \<Rightarrow> fails EEXIST s
            | (None, s) \<Rightarrow>
                if mode_of s parent AND WASMFS_PERM_WRITE = 0 then fails EACCES s
                else
                  let mode = mode AND (S_IRWXUGO OR S_ISVTX);
                      backend = (if backend = None then backend_of s parent else backend) in
                  if backend = backend_of s parent then
                    (case insertDirectory parent childName mode s of
                       (None, s) \<Rightarrow> fails EIO s
                     | (Some _, s) \<Rightarrow> Some (0, s))
                  else
                    let (f, s) = createDirectory mode backend s in
                    Some (0, snd (mountChild parent childName f s))))"

definition wasmfs_create_directory :: "string \<Rightarrow> u32 \<Rightarrow> backend_t option \<Rightarrow> syscall" where
  "wasmfs_create_directory path mode backend =
    with_parent path AT_FDCWD (\<lambda>parsed. doMkdir parsed mode backend)"

definition syscall_mkdirat :: "u32 \<Rightarrow> string \<Rightarrow> u32 \<Rightarrow> syscall" where
  "syscall_mkdirat dirfd path mode = with_parent path dirfd (\<lambda>parsed. doMkdir parsed mode None)"

text \<open>\<open>removeChild\<close> as the last step of a call.\<close>

definition finish_remove :: "fid \<Rightarrow> string \<Rightarrow> syscall" where
  "finish_remove parent childName s =
    (case removeChild parent childName s of
       (Inl e, s) \<Rightarrow> fails e s
     | (Inr _, s) \<Rightarrow> Some (0, s))"

definition unlink_checked :: "fid \<Rightarrow> string \<Rightarrow> u32 \<Rightarrow> syscall" where
  "unlink_checked parent childName flags s =
    (case getChild parent childName s of
       (None, s) \<Rightarrow> fails ENOENT s
     | (Some f, s) \<Rightarrow>
         if f = fs_root s then fails EBUSY s
         else if is_dir s f \<and> flags \<noteq> AT_REMOVEDIR then fails EISDIR s
         else if is_dir s f \<and> 0 < getNumEntries f s then fails ENOTEMPTY s
         else if \<not> is_dir s f \<and> flags = AT_REMOVEDIR then fails ENOTDIR s
         else if mode_of s parent AND WASMFS_PERM_WRITE = 0 then fails EACCES s
         else finish_remove parent childName s)"

definition ends_in_dot :: "string \<Rightarrow> bool" where
  "ends_in_dot path \<longleftrightarrow>
    (let p = strip_trailing path in 2 \<le> length p \<and> drop (length p - 2) p = ''/.'')"

definition syscall_unlinkat :: "u32 \<Rightarrow> string \<Rightarrow> u32 \<Rightarrow> syscall" where
  "syscall_unlinkat dirfd path flags s =
    (if flags AND NOT AT_REMOVEDIR \<noteq> 0 then fails EINVAL s
     else if flags = AT_REMOVEDIR \<and> ends_in_dot path then fails EINVAL s
     else with_parent path dirfd
       (\<lambda>parsed. case parsed of
          Inl e \<Rightarrow> fails e
        | Inr (parent, childName) \<Rightarrow> unlink_checked parent childName flags) s)"

definition syscall_rmdir :: "string \<Rightarrow> syscall" where
  "syscall_rmdir path = syscall_unlinkat AT_FDCWD path AT_REMOVEDIR"

definition unmount_checked :: "fid \<Rightarrow> string \<Rightarrow> syscall" where
  "unmount_checked parent childName s =
    (case getChild parent childName s of
       (None, s) \<Rightarrow> fails ENOENT s
     | (Some f, s) \<Rightarrow>
         if f = fs_root s then fails EBUSY s
         else if \<not> is_dir s f then fails ENOTDIR s
         else if backend_of s parent = backend_of s f then fails EINVAL s
         else finish_remove parent childName s)"

definition wasmfs_unmount :: "string \<Rightarrow> syscall" where
  "wasmfs_unmount path =
    with_parent path AT_FDCWD
      (\<lambda>parsed. case parsed of
         Inl e \<Rightarrow> fails e
       | Inr (parent, childName) \<Rightarrow> unmount_checked parent childName)"

section \<open>Renaming\<close>

text \<open>
  The loop over the ancestors of the new directory: whether it meets the file to be moved before
  the root. A null parent is dereferenced on the next turn; \<open>None\<close> also stands for a loop that
  does not end.
\<close>

partial_function (option) meets :: "fid \<Rightarrow> fid \<Rightarrow> fs \<Rightarrow> bool option" where
  "meets oldFile cur s =
    (if cur = fs_root s then Some False
     else if cur = oldFile then Some True
     else (case parent_of s cur of None \<Rightarrow> None | Some p \<Rightarrow> meets oldFile p s))"

text \<open>The checks on a destination that exists.\<close>

definition rename_over :: "fid \<Rightarrow> fid \<Rightarrow> fs \<Rightarrow> errno option" where
  "rename_over oldFile newFile s =
    (if is_dir s newFile then
       if \<not> is_dir s oldFile then Some EISDIR
       else if 0 < getNumEntries newFile s then Some ENOTEMPTY else None
     else if is_dir s oldFile then Some ENOTDIR else None)"

definition rename_checked :: "fid \<Rightarrow> string \<Rightarrow> fid \<Rightarrow> string \<Rightarrow> syscall" where
  "rename_checked oldParent oldFileName newParent newFileName s =
    (let (oldF, s) = getChild oldParent oldFileName s;
         (newF, s) = getChild newParent newFileName s in
     (case oldF of
        None \<Rightarrow> fails ENOENT s
      | Some oldFile \<Rightarrow>
          if newF = Some oldFile then Some (0, s)
          else if oldFile = fs_root s \<or> newF = Some (fs_root s) then fails EBUSY s
          else if mode_of s oldParent AND WASMFS_PERM_WRITE = 0 \<or>
              mode_of s newParent AND WASMFS_PERM_WRITE = 0 then fails EACCES s
          else if backend_of s oldParent \<noteq> backend_of s newParent then fails EXDEV s
          else
            (case meets oldFile newParent s of
               None \<Rightarrow> None
             | Some True \<Rightarrow> fails EINVAL s
             | Some False \<Rightarrow>
                 (case (case newF of None \<Rightarrow> None | Some f \<Rightarrow> rename_over oldFile f s) of
                    Some e \<Rightarrow> fails e s
                  | None \<Rightarrow>
                      (case insertMove newParent newFileName oldFile s of
                         None \<Rightarrow> None
                       | Some (Inl e, s) \<Rightarrow> fails e s
                       | Some (Inr _, s) \<Rightarrow> Some (0, s))))))"

definition syscall_renameat :: "u32 \<Rightarrow> string \<Rightarrow> u32 \<Rightarrow> string \<Rightarrow> syscall" where
  "syscall_renameat olddirfd oldpath newdirfd newpath =
    with_parent oldpath olddirfd
      (\<lambda>parsedOld. case parsedOld of
         Inl e \<Rightarrow> fails e
       | Inr (oldParent, oldFileName) \<Rightarrow>
           with_parent newpath newdirfd
             (\<lambda>parsedNew. case parsedNew of
                Inl e \<Rightarrow> fails e
              | Inr (newParent, newFileName) \<Rightarrow>
                  if WASMFS_NAME_MAX < length newFileName then fails ENAMETOOLONG
                  else rename_checked oldParent oldFileName newParent newFileName))"

section \<open>Symbolic links\<close>

definition symlink_checked :: "fid \<Rightarrow> string \<Rightarrow> string \<Rightarrow> syscall" where
  "symlink_checked parent childName tgt s =
    (if WASMFS_NAME_MAX < length childName then fails ENAMETOOLONG s
     else
       (case getChild parent childName s of
          (Some _, s) \<Rightarrow> fails EEXIST s
        | (None, s) \<Rightarrow>
            (case insertSymlink parent childName tgt s of
               (None, s) \<Rightarrow> fails EPERM s
             | (Some _, s) \<Rightarrow> Some (0, s))))"

definition syscall_symlinkat :: "string \<Rightarrow> u32 \<Rightarrow> string \<Rightarrow> syscall" where
  "syscall_symlinkat tgt newdirfd linkpath =
    with_parent linkpath newdirfd
      (\<lambda>parsed. case parsed of
         Inl e \<Rightarrow> fails e
       | Inr (parent, childName) \<Rightarrow> symlink_checked parent childName tgt)"

definition syscall_symlink :: "string \<Rightarrow> string \<Rightarrow> syscall" where
  "syscall_symlink tgt linkpath = syscall_symlinkat tgt AT_FDCWD linkpath"

definition chars_to_bytes :: "string \<Rightarrow> byte list" where
  "chars_to_bytes cs = map of_char cs"

definition syscall_readlinkat :: "u32 \<Rightarrow> string \<Rightarrow> u32 \<Rightarrow> u32 \<Rightarrow> syscall" where
  "syscall_readlinkat dirfd path buf bufsize s =
    (case parseFile path dirfd NoFollowLinks s of
       None \<Rightarrow> None
     | Some (Inl e, s) \<Rightarrow> fails e s
     | Some (Inr f, s) \<Rightarrow>
         (case node_of s f of
            MemorySymlink tgt \<Rightarrow>
              let n = min (unat bufsize) (length tgt) in
              Some (of_nat n, s\<lparr>fs_mem := mem_store buf (chars_to_bytes (take n tgt)) (fs_mem s)\<rparr>)
          | _ \<Rightarrow> fails EINVAL s))"

section \<open>The working directory\<close>

definition doChdir :: "fid \<Rightarrow> syscall" where
  "doChdir f s = (if is_dir s f then Some (0, s\<lparr>fs_cwd := f\<rparr>) else fails ENOTDIR s)"

definition syscall_chdir :: "string \<Rightarrow> syscall" where
  "syscall_chdir path s =
    (case parseFile path AT_FDCWD FollowLinks s of
       None \<Rightarrow> None
     | Some (Inl e, s) \<Rightarrow> fails e s
     | Some (Inr f, s) \<Rightarrow> doChdir f s)"

definition syscall_fchdir :: "u32 \<Rightarrow> syscall" where
  "syscall_fchdir fd s =
    (case getEntry fd s of
       None \<Rightarrow> fails EBADF s
     | Some openFile \<Rightarrow> doChdir (file_of s openFile) s)"

text \<open>The loop of \<open>getcwd\<close> up to the root; \<open>None\<close> when it does not end.\<close>

partial_function (option) cwd_path :: "fid \<Rightarrow> string \<Rightarrow> fs \<Rightarrow> (errno + string) option" where
  "cwd_path cur result s =
    (if cur = fs_root s then Some (Inr result)
     else
       (case parent_of s cur of
          None \<Rightarrow> Some (Inl ENOENT)
        | Some p \<Rightarrow> cwd_path p (CHR ''/'' # getName p cur s @ result) s))"

text \<open>The comparison of the length with \<open>size\<close> is unsigned; the names hold no null characters.\<close>

definition syscall_getcwd :: "u32 \<Rightarrow> u32 \<Rightarrow> syscall" where
  "syscall_getcwd buf sz s =
    (if buf = 0 \<and> 0 < sz then fails EFAULT s
     else if buf \<noteq> 0 \<and> sz = 0 then fails EINVAL s
     else
       (case cwd_path (fs_cwd s) [] s of
          None \<Rightarrow> None
        | Some (Inl e) \<Rightarrow> fails e s
        | Some (Inr result) \<Rightarrow>
            let res = (if result = [] then ''/'' else result);
                len = of_nat (length res + 1) in
            if sz \<le> len then fails ERANGE s
            else Some (len, s\<lparr>fs_mem := mem_store buf (chars_to_bytes res @ [0]) (fs_mem s)\<rparr>)))"

section \<open>Reading directories\<close>

text \<open>A record of the result buffer; \<open>sizeof(dirent)\<close> is 280 on this target.\<close>

record dirent_record =
  d_ino :: nat
  d_off :: nat
  d_reclen :: nat
  d_type :: nat
  d_name :: string

abbreviation (input) "DIRENT_SIZE \<equiv> (280 :: nat)"

fun d_type_of :: "FileKind \<Rightarrow> nat" where
  "d_type_of UnknownKind = 0"
| "d_type_of DataFileKind = 8"
| "d_type_of DirectoryKind = 4"
| "d_type_of SymlinkKind = 10"

fun getdents_loop :: "dirent list \<Rightarrow> nat \<Rightarrow> nat \<Rightarrow> nat \<Rightarrow> dirent_record list" where
  "getdents_loop [] index bytesRead count = []"
| "getdents_loop (e # es) index bytesRead count =
    (if bytesRead + DIRENT_SIZE \<le> count then
       \<lparr>d_ino = de_ino e, d_off = index + 1, d_reclen = DIRENT_SIZE,
        d_type = d_type_of (de_kind e), d_name = de_name e\<rparr>
       # getdents_loop es (index + 1) (bytesRead + DIRENT_SIZE) count
     else [])"

text \<open>
  The index is an \<open>int\<close>, cut from the position and compared as an unsigned number; stored back it
  is sign-extended. The result is the number of bytes and the records written at \<open>dirp\<close>.
\<close>

definition syscall_getdents64 :: "u32 \<Rightarrow> u32 \<Rightarrow> fs \<Rightarrow> (u32 \<times> dirent_record list) \<times> fs" where
  "syscall_getdents64 fd count s =
    (if unat count div DIRENT_SIZE = 0 then ((neg_errno EINVAL, []), s)
     else
       (case getEntry fd s of
          None \<Rightarrow> ((neg_errno EBADF, []), s)
        | Some openFile \<Rightarrow>
            let f = file_of s openFile in
            if \<not> is_dir s f then ((neg_errno ENOTDIR, []), s)
            else if parent_of s f = None then ((0, []), s)
            else
              let dirents = of_dirents (fs_ofiles s openFile);
                  index = (ucast (of_position (fs_ofiles s openFile)) :: u32);
                  out = getdents_loop (drop (unat index) dirents) (unat index) 0 (unat count) in
              ((of_nat (length out * DIRENT_SIZE), out),
               setPosition openFile (scast (index + of_nat (length out))) s)))"

end
