(* ===== verification/NamespaceInv.thy ===== *)
theory NamespaceInv
  imports Namespace
begin

text \<open>
  The system calls on names return on every well-formed state, without undefined behaviour, and
  keep the state well-formed; \<open>rename\<close> does so when the new parent is still linked.
\<close>

section \<open>Steps\<close>

text \<open>A call is safe on a state when it returns there and leaves a well-formed state.\<close>

definition safe :: "syscall \<Rightarrow> fs \<Rightarrow> bool" where
  "safe c s \<longleftrightarrow> (\<exists>r t. c s = Some (r, t) \<and> wf_fs t)"

lemma safe_fails [simp]: "safe (fails e) s \<longleftrightarrow> wf_fs s"
  by (simp add: safe_def fails_def)

lemma wfD: "wf_fs s \<Longrightarrow> wf_tree s" "wf_fs s \<Longrightarrow> wf_table s"
  by (simp_all add: wf_fs_def)

lemma wf_table_cong:
  assumes "wf_table s" "fs_table t = fs_table s" "fs_ofiles t = fs_ofiles s"
    "fs_ofnext t = fs_ofnext s" "fs_next s \<le> fs_next t"
  shows "wf_table t"
  using assms unfolding wf_table_def occurs_def by (auto intro: less_le_trans)

lemma wf_insert_new:
  assumes "wf_fs s" "is_dir s d" "parent_of s d = Some p" "child_of s d name = None"
    and "entries_of_node n = []" "dcache_of_node n = []"
  shows "wf_fs (insert_new d name n m s)"
proof -
  note wf = wfD(1) [OF assms(1)]
  note eff = insert_new_effect [OF wf assms(2,5,6), where name = name and m = m]
  have "wf_table (insert_new d name n m s)"
    by (rule wf_table_cong [OF wfD(2) [OF assms(1)]]) (simp_all add: eff)
  then show ?thesis
    using wf_tree_insert_new [OF wf assms(2-)] by (simp add: wf_fs_def)
qed

lemma addEntry_wf:
  assumes "wf_fs s" "oid < fs_ofnext s" "file_of s oid < fs_next s"
  shows "wf_fs (snd (addEntry oid s))"
  using assms wf_table_setEntry [of s "Some oid"] wf_tree_shape [OF _ setEntry_shape]
  by (simp add: addEntry_def wf_fs_def Let_def)

lemma open_file_safe:
  assumes wf: "wf_fs s" and f: "f < fs_next s" "is_dir s f \<Longrightarrow> parent_of s f \<noteq> None"
    and k: "\<And>u. \<exists>e v. k u = Some (e, v) \<and> quiet u v"
  shows "safe (open_file f flags k) s"
proof -
  have "\<exists>oid u. OpenFileState_create f flags s = Some (Inr oid, u)"
    using f(2) by (cases "parent_of s f") (auto simp: OpenFileState_create_def Let_def)
  then obtain oid u where u: "OpenFileState_create f flags s = Some (Inr oid, u)"
    by blast
  note eff = OpenFileState_create_effect [OF u]
  have "wf_fs u"
    using wf_tree_shape [OF wfD(1) [OF wf] eff(2)] wf_table_create [OF wfD(2) [OF wf] u f(1)]
    by (simp add: wf_fs_def)
  moreover obtain e v where v: "k u = Some (e, v)" "quiet u v"
    using k by blast
  ultimately have "wf_fs v" by (blast intro: wf_quiet)
  moreover have "oid < fs_ofnext v" "file_of v oid < fs_next v"
    using v(2) eff f(1) same_shapeD(1) [OF eff(2)] by (auto simp: quiet_def same_shapeD(1))
  ultimately show ?thesis
    using u v addEntry_wf [of v oid]
    by (cases e; cases "addEntry oid v") (auto simp: open_file_def safe_def)
qed

lemma open_truncate_total: "\<exists>e v. open_truncate child flags m s = Some (e, v) \<and> quiet s v"
proof -
  have "\<exists>r v. df_setSize child 0 s = Some (r, v)" if "is_data s child"
    using that by (cases "node_of s child") (auto simp: df_setSize_def memdata_setSize_def)
  then show ?thesis
    by (auto simp: open_truncate_def) (metis quiet_df(3))
qed

lemma open_existing_safe:
  assumes "wf_fs s" "parent_of s c \<noteq> None"
  shows "safe (open_existing c flags) s"
proof -
  have "safe (open_file c flags (open_truncate c flags (mode_of s c))) s"
    using assms linked_allocated [OF wfD(1)] open_truncate_total
    by (intro open_file_safe) auto
  then show ?thesis
    using assms(1) safe_fails
    unfolding open_existing_def Let_def safe_def by (auto simp: fails_def)
qed

lemma open_create_safe:
  assumes wf: "wf_fs s" and d: "is_dir s d" "child_of s d name = None"
  shows "safe (open_create d name flags mode None rm) s"
proof (cases "parent_of s d")
  case None
  then show ?thesis using wf by (auto simp: open_create_def safe_def fails_def)
next
  case (Some p)
  define u where "u = insert_new d name (MemoryDataFile []) ((mode AND S_IALLUGO) OR S_IFREG) s"
  note eff = insert_new_effect [OF wfD(1) [OF wf] d(1), of "MemoryDataFile []" name
      "(mode AND S_IALLUGO) OR S_IFREG", folded u_def]
  have "wf_fs u"
    unfolding u_def by (rule wf_insert_new [OF wf d(1) Some d(2)]) simp_all
  moreover from this have "safe (open_file (fs_next s) flags (\<lambda>s. Some (None, s))) u"
    by (rule open_file_safe) (simp_all add: eff)
  ultimately show ?thesis
    using Some wf by (auto simp: open_create_def inserts_new Let_def fails_def safe_def simp flip: u_def)
qed

lemma doOpen_safe:
  assumes wf: "wf_fs s" and dir: "\<And>p n. parsed = Inr (p, n) \<Longrightarrow> is_dir s p"
  shows "safe (doOpen parsed flags mode None rm) s"
proof (cases parsed)
  case (Inl e)
  then show ?thesis
    using wf by (auto simp: doOpen_def Let_def safe_def fails_def)
next
  case (Inr pn)
  obtain p n where pn: "pn = (p, n)" by (rule prod.exhaust)
  then have p: "is_dir s p" using dir Inr by blast
  note wt = wfD(1) [OF wf]
  have main: "safe (\<lambda>s. case child_of s p n of
      None \<Rightarrow> open_create p n flags mode None rm s
    | Some c \<Rightarrow>
        (case node_of s c of
           MemorySymlink tgt \<Rightarrow>
             if flags AND O_NOFOLLOW \<noteq> 0 then fails ELOOP s
             else (case getFileFrom p tgt s of
                     None \<Rightarrow> None
                   | Some (Inl e, s) \<Rightarrow> fails e s
                   | Some (Inr child, s) \<Rightarrow> open_existing child flags s)
         | _ \<Rightarrow> open_existing c flags s)) s"
  proof (cases "child_of s p n")
    case None
    then show ?thesis
      using open_create_safe [OF wf p None] by (simp add: safe_def)
  next
    case (Some c)
    then have c: "parent_of s c \<noteq> None"
      using child_of_linked(1) [OF wt p] by auto
    show ?thesis
    proof (cases "\<exists>tgt. node_of s c = MemorySymlink tgt")
      case True
      then obtain tgt where tgt: "node_of s c = MemorySymlink tgt" by blast
      show ?thesis
      proof (rule getFileFrom_wf [OF wt, of p tgt])
        fix e
        assume "getFileFrom p tgt s = Some (Inl e, s)"
        then show ?thesis using Some tgt wf by (simp add: safe_def fails_def)
      next
        fix f
        assume "getFileFrom p tgt s = Some (Inr f, s)" "resolves s p tgt f"
        then show ?thesis
          using Some tgt wf resolves_parent [OF wt _ p] open_existing_safe [OF wf]
          by (auto simp: safe_def fails_def)
      qed
    next
      case False
      then show ?thesis
        using Some open_existing_safe [OF wf c] by (cases "node_of s c") (auto simp: safe_def)
    qed
  qed
  then show ?thesis
    using wf Inr pn
    by (auto simp: doOpen_def Let_def safe_def fails_def getChild_child_of [OF wt] split: option.splits)
qed

lemma with_parent_safe:
  assumes wf: "wf_fs s"
    and k: "\<And>parsed. (\<And>p n. parsed = Inr (p, n) \<Longrightarrow> is_dir s p) \<Longrightarrow> safe (k parsed) s"
  shows "safe (with_parent path fd k) s"
proof (rule parseParent_wf [OF wfD(1) [OF wf], of path fd])
  fix e
  assume "parseParent path fd s = Some (Inl e, s)"
  then show ?thesis using k [of "Inl e"] by (simp add: with_parent_def safe_def)
next
  fix p n
  assume "parseParent path fd s = Some (Inr (p, n), s)" "is_dir s p"
  then show ?thesis using k [of "Inr (p, n)"] by (simp add: with_parent_def safe_def)
qed

lemma openat_safe: "wf_fs s \<Longrightarrow> safe (syscall_openat dirfd path flags mode) s"
  unfolding syscall_openat_def by (intro with_parent_safe doOpen_safe) auto

lemma openat2_safe: "wf_fs s \<Longrightarrow> safe (syscall_openat2 dirfd path df flags mode) s"
  unfolding syscall_openat2_def by (intro with_parent_safe doOpen_safe) auto

lemma mknodat_safe: "wf_fs s \<Longrightarrow> safe (syscall_mknodat dirfd path mode dev) s"
  using with_parent_safe [of s _ path dirfd] doOpen_safe
  by (auto simp: syscall_mknodat_def safe_def fails_def)

section \<open>Making directories and links\<close>

lemma doMkdir_safe:
  assumes wf: "wf_fs s" and dir: "\<And>p n. parsed = Inr (p, n) \<Longrightarrow> is_dir s p"
  shows "safe (doMkdir parsed mode None) s"
proof (cases "\<exists>p n. parsed = Inr (p, n) \<and> child_of s p n = None \<and> parent_of s p \<noteq> None")
  case True
  then obtain p n q where p: "parsed = Inr (p, n)" "child_of s p n = None" "parent_of s p = Some q"
    by blast
  have "wf_fs (insert_new p n (MemoryDirectory [] []) m s)" for m
    using wf_insert_new [OF wf dir [OF p(1)] p(3,2)] by simp
  then show ?thesis
    using wf p
    by (auto simp: doMkdir_def Let_def safe_def fails_def getChild_child_of [OF wfD(1)] inserts_new)
next
  case False
  then show ?thesis
    using wf
    by (auto simp: doMkdir_def Let_def safe_def fails_def getChild_child_of [OF wfD(1)]
        insertDirectory_def split: sum.splits option.splits prod.splits)
qed

lemma mkdirat_safe: "wf_fs s \<Longrightarrow> safe (syscall_mkdirat dirfd path mode) s"
  unfolding syscall_mkdirat_def by (intro with_parent_safe doMkdir_safe) auto

lemma symlink_checked_safe:
  assumes wf: "wf_fs s" and p: "is_dir s p"
  shows "safe (symlink_checked p n tgt) s"
proof (cases "child_of s p n = None \<and> parent_of s p \<noteq> None")
  case True
  then obtain q where q: "child_of s p n = None" "parent_of s p = Some q"
    by blast
  have "wf_fs (insert_new p n (MemorySymlink tgt) m s)" for m
    using wf_insert_new [OF wf p q(2,1)] by simp
  then show ?thesis
    using wf q
    by (auto simp: symlink_checked_def safe_def fails_def getChild_child_of [OF wfD(1)] inserts_new)
next
  case False
  then show ?thesis
    using wf
    by (auto simp: symlink_checked_def safe_def fails_def getChild_child_of [OF wfD(1)]
        insertSymlink_def split: option.splits)
qed

lemma symlinkat_safe: "wf_fs s \<Longrightarrow> safe (syscall_symlinkat tgt dirfd path) s"
  unfolding syscall_symlinkat_def
  by (intro with_parent_safe) (auto simp: symlink_checked_safe split: sum.splits prod.splits)

section \<open>Removing\<close>

lemma mounts_wf: "wf_tree s \<Longrightarrow> mounts d s = dcache s d"
  unfolding mounts_def using wf_mount(1) by (auto simp: filter_id_conv)

lemma no_entries: "wf_tree s \<Longrightarrow> getNumEntries d s = 0 \<Longrightarrow> entries s d = [] \<and> dcache s d = []"
  by (simp add: getNumEntries_def memdir_getNumEntries_def mounts_wf)

lemma writable_no_mounts:
  assumes "wf_tree s" "mode_of s d AND WASMFS_PERM_WRITE \<noteq> 0"
  shows "dcache s d = []"
proof (rule ccontr)
  assume "dcache s d \<noteq> []"
  then obtain n e where "(n, e) \<in> set (dcache s d)"
    by (cases "dcache s d") auto
  then show False using wf_mount(5) assms by blast
qed

text \<open>
  In a directory without mounts, the entry a name stands for is the child that was looked up,
  unless the child is the directory itself or its parent; then neither is empty.
\<close>

lemma entry_is_child:
  assumes wf: "wf_tree s" and d: "is_dir s d" "dcache s d = []"
    and f: "child_of s d name = Some f" "f \<noteq> fs_root s"
    and empty: "is_dir s f \<Longrightarrow> entries s f = [] \<and> dcache s f = []"
    and x: "(name, x) \<in> set (entries s d)"
  shows "x = f"
proof -
  obtain p where p: "parent_of s d = Some p"
    using f(1) by (auto simp: child_of_def split: option.splits)
  have "name \<noteq> ''.''"
    using f empty d x p by (auto simp: child_of_def)
  moreover have "name \<noteq> ''..''"
  proof
    assume n: "name = ''..''"
    then have "f = p" using f p by (auto simp: child_of_def)
    then have "entries s p = []"
      using empty wf_parent(2) [OF wf p] by simp
    then have "d = fs_root s"
      using wf_dir(4) [OF wf d(1) p] by auto
    then show False using \<open>f = p\<close> f(2) p wf_root(2) [OF wf] by simp
  qed
  moreover have "map_of (entries s d) name = Some x"
    using x wf_containers(1) [OF wf, of d] by (simp add: good_entries_def)
  ultimately show ?thesis
    using f(1) p d(2) by (simp add: child_of_def)
qed

lemma removeChild_safe:
  assumes wf: "wf_fs s" and d: "is_dir s d" "mode_of s d AND WASMFS_PERM_WRITE \<noteq> 0"
    and f: "child_of s d name = Some f" "f \<noteq> fs_root s"
    and empty: "is_dir s f \<Longrightarrow> entries s f = [] \<and> dcache s f = []"
  shows "wf_fs (snd (removeChild d name s))"
proof -
  note wt = wfD(1) [OF wf]
  note dc = writable_no_mounts [OF wt d(2)]
  obtain p where p: "parent_of s d = Some p"
    using f(1) by (auto simp: child_of_def split: option.splits)
  have "wf_tree (snd (removeChild d name s))"
    using entry_is_child [OF wt d(1) dc f empty] empty
    by (intro wf_tree_removeChild [OF wt d(1) p dc]) blast
  moreover have "wf_table (snd (removeChild d name s))"
    using memdir_removeChild_effect [OF d(1), where name = name] dc
    by (intro wf_table_cong [OF wfD(2) [OF wf]]) (simp_all add: removeChild_def)
  ultimately show ?thesis by (simp add: wf_fs_def)
qed

lemma unlink_checked_safe:
  assumes wf: "wf_fs s" and d: "is_dir s d"
  shows "safe (unlink_checked d name flags) s"
proof -
  have "wf_fs (snd (removeChild d name s))"
    if "child_of s d name = Some f" "f \<noteq> fs_root s" "is_dir s f \<longrightarrow> getNumEntries f s = 0"
      "mode_of s d AND WASMFS_PERM_WRITE \<noteq> 0" for f
    using removeChild_safe [OF wf d that(4,1,2)] no_entries [OF wfD(1) [OF wf]] that(3) by blast
  moreover have "\<exists>t. removeChild d name s = (Inr (), t)"
    by (auto simp: removeChild_def Let_def split: option.splits)
  ultimately show ?thesis
    using wf
    by (auto simp: unlink_checked_def finish_remove_def safe_def fails_def
        getChild_child_of [OF wfD(1)] split: option.splits)
qed

lemma unlinkat_safe: "wf_fs s \<Longrightarrow> safe (syscall_unlinkat dirfd path flags) s"
proof -
  assume "wf_fs s"
  then have "safe (with_parent path dirfd (\<lambda>parsed. case parsed of Inl e \<Rightarrow> fails e
      | Inr (parent, childName) \<Rightarrow> unlink_checked parent childName flags)) s"
    by (intro with_parent_safe) (auto simp: unlink_checked_safe split: sum.splits prod.splits)
  then show ?thesis
    using \<open>wf_fs s\<close> by (auto simp: syscall_unlinkat_def safe_def fails_def)
qed

section \<open>Renaming\<close>

declare meets.simps [simp del]

lemma meets_result:
  assumes root: "parent_of s (fs_root s) = Some (fs_root s)" and reach: "(cur, fs_root s) \<in> (up s)\<^sup>*"
  shows "\<exists>b. meets old cur s = Some b \<and>
    (b \<longrightarrow> (cur, old) \<in> (up s)\<^sup>*) \<and> (\<not> b \<longrightarrow> (cur, fs_root s) \<in> (up s \<inter> {(x, y). x \<noteq> old})\<^sup>* \<or> old = fs_root s)"
  using reach
proof (induction rule: converse_rtrancl_induct)
  case base
  show ?case by (intro exI [of _ False]) (subst meets.simps, simp)
next
  case (step y z)
  then obtain b where b: "meets old z s = Some b" "b \<longrightarrow> (z, old) \<in> (up s)\<^sup>*"
    "\<not> b \<longrightarrow> (z, fs_root s) \<in> (up s \<inter> {(x, y). x \<noteq> old})\<^sup>* \<or> old = fs_root s"
    by blast
  have m: "meets old y s = (if y = fs_root s then Some False else if y = old then Some True else Some b)"
    using step(1) b(1) by (subst meets.simps) (simp add: up_def)
  have "b \<Longrightarrow> (y, old) \<in> (up s)\<^sup>*"
    using step(1) b(2) by (blast intro: converse_rtrancl_into_rtrancl)
  moreover have "(y, fs_root s) \<in> (up s \<inter> {(x, y). x \<noteq> old})\<^sup>* \<or> old = fs_root s" if "\<not> b" "y \<noteq> old"
    using that step(1) b(3) by (blast intro: converse_rtrancl_into_rtrancl)
  ultimately show ?case
    using m by (cases "y = fs_root s"; cases "y = old") auto
qed

text \<open>What \<open>rename_checked\<close> knows when it comes to the move.\<close>

lemma rename_move:
  assumes wf: "wf_fs s" and op: "is_dir s op" "mode_of s op AND WASMFS_PERM_WRITE \<noteq> 0"
    and np: "is_dir s np" "mode_of s np AND WASMFS_PERM_WRITE \<noteq> 0" "parent_of s np = Some q"
    and c: "child_of s op on = Some c" "c \<noteq> fs_root s"
    and nf: "child_of s np nn \<noteq> Some c" "child_of s np nn \<noteq> Some (fs_root s)"
    and anc: "meets c np s = Some False"
    and over: "\<And>f. child_of s np nn = Some f \<Longrightarrow> rename_over c f s = None"
  obtains t where "insertMove np nn c s = Some (Inr (), t)" "wf_fs t"
    "(nn, c) \<in> set (entries t np)" "parent_of t c = Some np"
    "\<And>g n x. x \<noteq> c \<Longrightarrow> g \<noteq> np \<or> n \<noteq> nn \<Longrightarrow>
      (n, x) \<in> set (entries t g) \<longleftrightarrow> (n, x) \<in> set (entries s g)"
    "fs_root t = fs_root s" "\<And>g. kind t g = kind s g"
    "fs_next t = fs_next s" "\<And>g. dcache t g = dcache s g" "c \<in> snd ` set (entries s (the (parent_of s c)))"
    "\<And>x. (nn, x) \<in> set (entries s np) \<Longrightarrow> x \<noteq> c \<Longrightarrow> rename_over c x s = None"
    "\<And>n e. (n, e) \<in> set (dcache s (the (parent_of s c))) \<Longrightarrow> dc_file e \<noteq> c"
proof -
  note wt = wfD(1) [OF wf]
  note dc = writable_no_mounts [OF wt op(2)] writable_no_mounts [OF wt np(2)]
  obtain p where p: "parent_of s c = Some p"
    using child_of_linked(1) [OF wt op(1) c(1)] by blast
  have cp: "c \<in> snd ` set (entries s p) \<and> (\<forall>n e. (n, e) \<in> set (dcache s p) \<longrightarrow> dc_file e \<noteq> c)"
  proof (cases "is_dir s c")
    case True
    then show ?thesis
      using wf_dir(4) [OF wt True p c(2)] wf_mount(4) [OF wt] by blast
  next
    case False
    have "is_dir s x" if "parent_of s op = Some x" for x
      using wf_parent(2) [OF wt that] .
    then have "on \<noteq> ''.''" "on \<noteq> ''..''"
      using c(1) False op(1) by (auto simp: child_of_def split: option.splits if_splits)
    then have "(on, c) \<in> set (entries s op)"
      using child_of_normal [OF wt c(1)] dc(1) by auto
    then show ?thesis
      using wf_entry(2) [OF wt] p dc(1) by force
  qed
  have empty: "entries s f = [] \<and> dcache s f = []"
    if "child_of s np nn = Some f" "is_dir s f" for f
    using over [OF that(1)] that(2) no_entries [OF wt]
    by (auto simp: rename_over_def split: if_splits)
  have apart: "(np, fs_root s) \<in> (up s \<inter> {(a, b). a \<noteq> c})\<^sup>*"
    using meets_result [OF wf_root(2) [OF wt] wf_dir(5) [OF wt np(1,3)], of c] anc c(2) by auto
  have same: "child_of s np nn = Some x" if x: "(nn, x) \<in> set (entries s np)" for x
  proof -
    have "nn \<in> fst ` set (entries s np)"
      using x(1) by force
    then obtain f where f: "child_of s np nn = Some f"
      using child_of_None(3) [OF _ np(3), of nn] by (cases "child_of s np nn") auto
    then have "x = f"
      using entry_is_child [OF wt np(1) dc(2) f _ _ x] nf(2) empty [OF f] by blast
    then show ?thesis using f by blast
  qed
  have leaf: "entries s x = [] \<and> dcache s x = []"
    if "(nn, x) \<in> set (entries s np)" "x \<noteq> c" "is_dir s x" for x
    using same [OF that(1)] empty that(3) by blast
  show thesis
  proof (rule wf_tree_insertMove [OF wt np(1,3) dc(2) p _ _ apart leaf])
    fix t
    assume t: "insertMove np nn c s = Some (Inr (), t)" "wf_tree t" "(nn, c) \<in> set (entries t np)"
      "parent_of t c = Some np"
      "\<And>g n x. x \<noteq> c \<Longrightarrow> g \<noteq> np \<or> n \<noteq> nn \<Longrightarrow>
        (n, x) \<in> set (entries t g) \<longleftrightarrow> (n, x) \<in> set (entries s g)"
      "fs_root t = fs_root s" "fs_next t = fs_next s" "\<And>g. kind t g = kind s g"
      "\<And>g. dcache t g = dcache s g"
      "fs_table t = fs_table s" "fs_ofiles t = fs_ofiles s" "fs_ofnext t = fs_ofnext s"
    have "wf_fs t"
      using wf_table_cong [OF wfD(2) [OF wf]] t by (simp add: wf_fs_def)
    moreover have "c \<in> snd ` set (entries s (the (parent_of s c)))"
      using cp p by simp
    moreover have "rename_over c x s = None" if "(nn, x) \<in> set (entries s np)" for x
      using over same that by blast
    moreover have "dc_file e \<noteq> c" if "(n, e) \<in> set (dcache s (the (parent_of s c)))" for n e
      using cp p that by auto
    ultimately show thesis
      by (intro that [OF t(1) _ t(3-6,8,7,9)])
  qed (use cp in auto)
qed

lemma rename_checked_safe:
  assumes wf: "wf_fs s" and op: "is_dir s op" and np: "is_dir s np" "parent_of s np = Some q"
  shows "safe (rename_checked op on np nn) s"
proof -
  note wt = wfD(1) [OF wf]
  define ready where "ready c \<longleftrightarrow> child_of s op on = Some c \<and> c \<noteq> fs_root s \<and>
    child_of s np nn \<noteq> Some c \<and> child_of s np nn \<noteq> Some (fs_root s) \<and>
    mode_of s op AND WASMFS_PERM_WRITE \<noteq> 0 \<and> mode_of s np AND WASMFS_PERM_WRITE \<noteq> 0 \<and>
    meets c np s = Some False \<and> (\<forall>f. child_of s np nn = Some f \<longrightarrow> rename_over c f s = None)" for c
  have move: "\<exists>t. insertMove np nn c s = Some (Inr (), t) \<and> wf_fs t" if "ready c" for c
  proof -
    have "\<And>f. child_of s np nn = Some f \<Longrightarrow> rename_over c f s = None"
      using that by (simp add: ready_def)
    then show ?thesis
      using rename_move [OF wf op _ np(1) _ np(2), of on c nn] that by (metis ready_def)
  qed
  have anc: "\<exists>b. meets c np s = Some b" for c
    using meets_result [OF wf_root(2) [OF wt] wf_dir(5) [OF wt np]] by blast
  show ?thesis
  proof (cases "\<exists>c. ready c")
    case True
    then obtain c where c: "ready c" by blast
    obtain t where "insertMove np nn c s = Some (Inr (), t)" "wf_fs t"
      using move [OF c] by blast
    then show ?thesis
      using c wf
      by (auto simp: rename_checked_def getChild_child_of [OF wt] ready_def safe_def fails_def
          split: option.splits)
  next
    case False
    show ?thesis
    proof (cases "child_of s op on")
      case None
      then show ?thesis
        using wf by (simp add: rename_checked_def getChild_child_of [OF wt] safe_def fails_def)
    next
      case (Some c)
      obtain b where b: "meets c np s = Some b" using anc by blast
      have "\<not> ready c" using False by blast
      then show ?thesis
        using Some b wf
        by (cases b) (auto simp: rename_checked_def getChild_child_of [OF wt] ready_def safe_def fails_def
            split: option.splits)
    qed
  qed
qed

section \<open>The working directory\<close>

lemma wf_chdir:
  assumes "wf_fs s" "is_dir s f"
  shows "wf_fs (s\<lparr>fs_cwd := f\<rparr>)"
proof -
  let ?t = "s\<lparr>fs_cwd := f\<rparr>"
  have "wf_roots ?t"
    using assms wf_root [OF wfD(1)] by (simp add: wf_roots_def)
  moreover have same: "fs_heap ?t = fs_heap s" "fs_next ?t = fs_next s" "fs_root ?t = fs_root s"
    by simp_all
  have "wf_maps ?t = wf_maps s" "wf_entries ?t = wf_entries s" "wf_mounts ?t = wf_mounts s"
    "wf_parents ?t = wf_parents s" "wf_unlinked ?t = wf_unlinked s" "wf_linked ?t = wf_linked s"
    by (simp_all only: wf_parts up_def same)
  moreover have "wf_table ?t"
    by (rule wf_table_cong [OF wfD(2) [OF assms(1)]]) simp_all
  ultimately show ?thesis
    using assms(1) by (simp add: wf_fs_def wf_tree_def)
qed

lemma doChdir_safe: "wf_fs s \<Longrightarrow> safe (doChdir f) s"
  using wf_chdir by (simp add: doChdir_def safe_def fails_def)

lemma chdir_safe:
  assumes "wf_fs s"
  shows "safe (syscall_chdir path) s"
proof -
  obtain res where "parseFile path AT_FDCWD FollowLinks s = Some (res, s)"
    using parseFile_pure [OF wfD(1) [OF assms]] by blast
  then show ?thesis
    using doChdir_safe [OF assms] assms
    by (cases res) (auto simp: syscall_chdir_def safe_def fails_def)
qed

lemma fchdir_safe: "wf_fs s \<Longrightarrow> safe (syscall_fchdir fd) s"
  using doChdir_safe by (auto simp: syscall_fchdir_def safe_def fails_def split: option.splits)

declare cwd_path.simps [simp del]

lemma cwd_path_returns:
  assumes "(cur, fs_root s) \<in> (up s)\<^sup>*"
  shows "\<exists>res. cwd_path cur acc s = Some res"
  using assms
proof (induction arbitrary: acc rule: converse_rtrancl_induct)
  case base
  show ?case by (subst cwd_path.simps) simp
next
  case (step y z)
  then show ?case by (subst cwd_path.simps) (auto simp: up_def)
qed

lemma getcwd_safe:
  assumes wf: "wf_fs s"
  shows "safe (syscall_getcwd buf sz) s"
proof -
  have "\<exists>res. cwd_path (fs_cwd s) [] s = Some res"
  proof (cases "parent_of s (fs_cwd s)")
    case None
    then show ?thesis by (subst cwd_path.simps) simp
  next
    case (Some p)
    then show ?thesis
      using cwd_path_returns wf_dir(5) [OF wfD(1) [OF wf] wf_root(3) [OF wfD(1) [OF wf]]] by blast
  qed
  moreover have "wf_fs (s\<lparr>fs_mem := m\<rparr>)" for m
    using wf quiet_setter(6) by (rule wf_quiet)
  ultimately show ?thesis
    using wf by (auto simp: syscall_getcwd_def safe_def fails_def Let_def split: sum.splits)
qed

lemma readlinkat_safe:
  assumes "wf_fs s"
  shows "safe (syscall_readlinkat dirfd path buf n) s"
proof -
  obtain res where "parseFile path dirfd NoFollowLinks s = Some (res, s)"
    using parseFile_pure [OF wfD(1) [OF assms]] by blast
  moreover have "wf_fs (s\<lparr>fs_mem := m\<rparr>)" for m
    using assms quiet_setter(6) by (rule wf_quiet)
  ultimately show ?thesis
    using assms
    by (cases res) (auto simp: syscall_readlinkat_def safe_def fails_def Let_def split: node.splits)
qed

lemma getdents_quiet: "quiet s (snd (syscall_getdents64 fd count s))"
  by (auto simp: syscall_getdents64_def Let_def split: option.splits)

end
