(* ===== verification/Descriptors.thy ===== *)
theory Descriptors
  imports NamespaceInv
begin

text \<open>
  The system calls on descriptors (syscalls.cpp): dup, fcntl, pipe, poll, truncate, fallocate,
  ioctl, mmap, and the calls that are stubs. Command numbers that come from libc headers
  (\<open>fcntl\<close>, \<open>ioctl\<close>) are constructors.
\<close>

section \<open>Duplicating\<close>

text \<open>
  \<open>__syscall_dup3\<close>: the test is \<open>flags & !O_CLOEXEC\<close>, with the logical negation of a constant
  that is not zero. The file that loses its last use is dropped without being closed.
\<close>

definition syscall_dup3 :: "u32 \<Rightarrow> u32 \<Rightarrow> u32 \<Rightarrow> syscall" where
  "syscall_dup3 oldfd newfd flags s =
    (if flags AND of_bool (O_CLOEXEC = 0) \<noteq> 0 then fails EINVAL s
     else
       (case getEntry oldfd s of
          None \<Rightarrow> fails EBADF s
        | Some oldOpenFile \<Rightarrow>
            if sint newfd < 0 then fails EBADF s
            else if oldfd = newfd then fails EINVAL s
            else Some (newfd, snd (setEntry newfd (Some oldOpenFile) s))))"

definition syscall_dup :: "u32 \<Rightarrow> syscall" where
  "syscall_dup fd s =
    (case getEntry fd s of
       None \<Rightarrow> fails EBADF s
     | Some openFile \<Rightarrow> Some (addEntry openFile s))"

text \<open>The loop of \<open>F_DUPFD\<close>: the first free slot from a given one on.\<close>

function free_from :: "'o option list \<Rightarrow> nat \<Rightarrow> nat" where
  "free_from tbl n = (if tbl_get tbl n = None then n else free_from tbl (Suc n))"
  by auto
termination
  by (relation "measure (\<lambda>(tbl, n). length tbl - n)") (auto simp: tbl_get_def split: if_splits)

declare free_from.simps [simp del]

datatype fcntl_cmd =
    F_DUPFD u32 | F_GETFD | F_SETFD | F_GETFL | F_SETFL u32 | F_GETLK | F_SETLK | F_SETLKW
  | F_OTHER

definition syscall_fcntl64 :: "u32 \<Rightarrow> fcntl_cmd \<Rightarrow> syscall" where
  "syscall_fcntl64 fd cmd s =
    (case getEntry fd s of
       None \<Rightarrow> fails EBADF s
     | Some openFile \<Rightarrow>
         (case cmd of
            F_DUPFD newfd \<Rightarrow>
              if sint newfd < 0 then fails EINVAL s
              else
                let n = of_nat (free_from (fs_table s) (unat newfd)) in
                Some (n, snd (setEntry n (Some openFile) s))
          | F_GETFD \<Rightarrow> Some (0, s)
          | F_SETFD \<Rightarrow> Some (0, s)
          | F_GETFL \<Rightarrow> Some (of_flags (fs_ofiles s openFile), s)
          | F_SETFL arg \<Rightarrow>
              let flags = arg AND NOT (O_RDONLY OR O_WRONLY OR O_RDWR OR O_CREAT OR O_EXCL OR
                                       O_NOCTTY OR O_TRUNC);
                  flags = flags AND NOT O_LARGEFILE;
                  supportedFlags = flags AND O_APPEND in
              if flags \<noteq> supportedFlags then fails EINVAL s
              else Some (0, setFlags openFile flags s)
          | F_GETLK \<Rightarrow> Some (0, s)
          | F_SETLK \<Rightarrow> fails EACCES s
          | F_SETLKW \<Rightarrow> fails EACCES s
          | F_OTHER \<Rightarrow> fails EINVAL s))"

section \<open>Sizes\<close>

definition doTruncate :: "fid \<Rightarrow> u64 \<Rightarrow> syscall" where
  "doTruncate f sz s =
    (if \<not> is_data s f then fails EISDIR s
     else if mode_of s f AND WASMFS_PERM_WRITE = 0 then fails EACCES s
     else if sint sz < 0 then fails EINVAL s
     else df_setSize f sz s)"

definition syscall_truncate64 :: "string \<Rightarrow> u64 \<Rightarrow> syscall" where
  "syscall_truncate64 path sz s =
    (case parseFile path AT_FDCWD FollowLinks s of
       None \<Rightarrow> None
     | Some (Inl e, s) \<Rightarrow> fails e s
     | Some (Inr f, s) \<Rightarrow> doTruncate f sz s)"

definition syscall_ftruncate64 :: "u32 \<Rightarrow> u64 \<Rightarrow> syscall" where
  "syscall_ftruncate64 fd sz s =
    (case getEntry fd s of
       None \<Rightarrow> fails EBADF s
     | Some openFile \<Rightarrow>
         (case doTruncate (file_of s openFile) sz s of
            None \<Rightarrow> None
          | Some (ret, s) \<Rightarrow>
              Some (if ret = neg_errno EACCES then neg_errno EINVAL else ret, s)))"

text \<open>\<open>None\<close> is the overflow of the signed sum, or an abort of \<open>setSize\<close>.\<close>

definition syscall_fallocate :: "u32 \<Rightarrow> u32 \<Rightarrow> u64 \<Rightarrow> u64 \<Rightarrow> syscall" where
  "syscall_fallocate fd mode offset len s =
    (case getEntry fd s of
       None \<Rightarrow> fails EBADF s
     | Some openFile \<Rightarrow>
         let f = file_of s openFile in
         if \<not> is_data s f then fails ENODEV s
         else if mode_of s f AND WASMFS_PERM_WRITE = 0 then fails EBADF s
         else if sint offset < 0 \<or> sint len \<le> 0 then fails EINVAL s
         else if 2 ^ 63 \<le> sint offset + sint len then None
         else if sint (getSize f s) < 0 then Some (ucast (getSize f s), s)
         else if sint (getSize f s) < sint (offset + len) then df_setSize f (offset + len) s
         else Some (0, s))"

section \<open>Terminals\<close>

text \<open>The singletons of special_files.cpp are the first objects that are made.\<close>

definition stdin_file :: fid where "stdin_file = 0"
definition stdout_file :: fid where "stdout_file = 1"
definition stderr_file :: fid where "stderr_file = 2"

definition isTTY :: "fid \<Rightarrow> bool" where
  "isTTY f \<longleftrightarrow> f = stdin_file \<or> f = stdout_file \<or> f = stderr_file"

datatype ioctl_request =
    TCGETA | TCGETS | TCSETA | TCSETAW | TCSETAF | TCSETS | TCSETSW | TCSETSF | TIOCGWINSZ
  | TIOCSWINSZ | OtherRequest

definition syscall_ioctl :: "u32 \<Rightarrow> ioctl_request \<Rightarrow> syscall" where
  "syscall_ioctl fd request s =
    (case getEntry fd s of
       None \<Rightarrow> fails EBADF s
     | Some openFile \<Rightarrow>
         if \<not> isTTY (file_of s openFile) then fails ENOTTY s
         else (case request of OtherRequest \<Rightarrow> fails EINVAL s | _ \<Rightarrow> Some (0, s)))"

section \<open>Pipes\<close>

text \<open>A pipe: two files on one queue. The pair is what is stored in \<open>fds\<close>.\<close>

definition syscall_pipe :: "fs \<Rightarrow> ((u32 \<times> u32 \<times> u32) \<times> fs) option" where
  "syscall_pipe s =
    (let p = fs_pnext s;
         s = s\<lparr>fs_pipes := (fs_pipes s)(p := []), fs_pnext := Suc p\<rparr>;
         (reader, s) = new_file (PipeFile p) (S_IRUGO OR S_IFREG) None False s;
         (writer, s) = new_file (PipeFile p) (S_IWUGO OR S_IFREG) None False s in
     (case OpenFileState_create reader O_RDONLY s of
        Some (Inr openReader, s) \<Rightarrow>
          (case OpenFileState_create writer O_WRONLY s of
             Some (Inr openWriter, s) \<Rightarrow>
               let (fd0, s) = addEntry openReader s;
                   (fd1, s) = addEntry openWriter s in
               Some ((0, fd0, fd1), s)
           | _ \<Rightarrow> None)
      | _ \<Rightarrow> None))"

section \<open>Polling\<close>

record pollfd =
  pfd_fd :: u32
  pfd_events :: u16
  pfd_revents :: u16

abbreviation (input) "POLLIN \<equiv> (1 :: u16)"
abbreviation (input) "POLLOUT \<equiv> (4 :: u16)"
abbreviation (input) "POLLNVAL \<equiv> (0x20 :: u16)"

text \<open>The mask of one descriptor; the names \<open>readBit\<close> and \<open>writeBit\<close> are the source's.\<close>

definition poll_mask :: "pollfd \<Rightarrow> fs \<Rightarrow> u16" where
  "poll_mask p s =
    (if sint (pfd_fd p) < 0 then 0
     else
       (case getEntry (pfd_fd p) s of
          None \<Rightarrow> POLLNVAL
        | Some openFile \<Rightarrow>
            let accessMode = of_flags (fs_ofiles s openFile) AND O_ACCMODE;
                readBit = pfd_events p AND POLLOUT;
                writeBit = pfd_events p AND POLLIN in
            (if readBit \<noteq> 0 \<and> (accessMode = O_WRONLY \<or> accessMode = O_RDWR) then readBit else 0) OR
            (if writeBit \<noteq> 0 \<and> (accessMode = O_RDONLY \<or> accessMode = O_RDWR) \<and>
                0 < sint (getSize (file_of s openFile) s) then writeBit else 0)))"

definition syscall_poll :: "pollfd list \<Rightarrow> fs \<Rightarrow> u32 \<times> pollfd list" where
  "syscall_poll fds s =
    (let out = map (\<lambda>p. p\<lparr>pfd_revents := poll_mask p s\<rparr>) fds in
     (of_nat (length (filter (\<lambda>p. pfd_revents p \<noteq> 0) out)), out))"

section \<open>Mapping\<close>

abbreviation (input) "PROT_WRITE \<equiv> (2 :: u32)"
abbreviation (input) "PROT_EXEC \<equiv> (4 :: u32)"
abbreviation (input) "MAP_TYPE \<equiv> (0xF :: u32)"
abbreviation (input) "MAP_SHARED \<equiv> (1 :: u32)"
abbreviation (input) "MAP_PRIVATE \<equiv> (2 :: u32)"
abbreviation (input) "MAP_SHARED_VALIDATE \<equiv> (3 :: u32)"

text \<open>
  \<open>_mmap_js\<close>. The allocator is an argument: the address it returns for a length, 0 when it fails.
  The second component of the result is what is stored through \<open>addr\<close>.
\<close>

definition mmap_js ::
    "(u32 \<Rightarrow> u32) \<Rightarrow> u32 \<Rightarrow> u32 \<Rightarrow> u32 \<Rightarrow> u32 \<Rightarrow> u64 \<Rightarrow> fs \<Rightarrow> ((u32 \<times> u32 option) \<times> fs) option" where
  "mmap_js memalign len prot flags fd offset s =
    (let mapType = flags AND MAP_TYPE; fail = (\<lambda>e s. Some ((neg_errno e, None), s)) in
     if prot AND PROT_EXEC \<noteq> 0 then fail EPERM s
     else if len = 0 then fail EINVAL s
     else if mapType \<noteq> MAP_PRIVATE \<and> mapType \<noteq> MAP_SHARED \<and> mapType \<noteq> MAP_SHARED_VALIDATE
       then fail EINVAL s
     else if mapType = MAP_SHARED_VALIDATE then None
     else
       (case getEntry fd s of
          None \<Rightarrow> fail EBADF s
        | Some openFile \<Rightarrow>
            let accessMode = of_flags (fs_ofiles s openFile) AND O_ACCMODE;
                f = file_of s openFile in
            if accessMode = O_WRONLY then fail EACCES s
            else if prot AND PROT_WRITE \<noteq> 0 \<and> mapType \<noteq> MAP_PRIVATE \<and> accessMode \<noteq> O_RDWR
              then fail EACCES s
            else if \<not> is_data s f then fail ENODEV s
            else
              let ptr = memalign len in
              if ptr = 0 then fail ENOMEM s
              else
                (case df_read f ptr len offset s of
                   None \<Rightarrow> None
                 | Some (nread, s) \<Rightarrow>
                     if sint nread < 0 then Some ((nread, None), s)
                     else
                       Some ((0, Some ptr),
                         s\<lparr>fs_mem := mem_store (ptr + nread) (replicate (unat (len - nread)) 0)
                             (fs_mem s)\<rparr>))))"

definition msync_js :: "u32 \<Rightarrow> u32 \<Rightarrow> u32 \<Rightarrow> u32 \<Rightarrow> u32 \<Rightarrow> u64 \<Rightarrow> syscall" where
  "msync_js addr len prot flags fd offset s =
    (if flags AND MAP_TYPE = MAP_SHARED \<and> prot AND PROT_WRITE \<noteq> 0 then
       (case wasi_fd_pwrite fd [\<lparr>iov_buf = addr, iov_len = len\<rparr>] offset s of
          None \<Rightarrow> None
        | Some ((e, _), s) \<Rightarrow> Some (- ucast e, s))
     else Some (0, s))"

definition munmap_js :: "u32 \<Rightarrow> u32 \<Rightarrow> u32 \<Rightarrow> u32 \<Rightarrow> u32 \<Rightarrow> u64 \<Rightarrow> syscall" where
  "munmap_js = msync_js"

section \<open>Stubs\<close>

text \<open>The calls on sockets, \<open>fadvise64\<close> and \<open>_newselect\<close>.\<close>

definition syscall_socket_stub :: syscall where
  "syscall_socket_stub = fails ENOSYS"

definition syscall_fadvise64 :: "u32 \<Rightarrow> u64 \<Rightarrow> u64 \<Rightarrow> u32 \<Rightarrow> syscall" where
  "syscall_fadvise64 fd offset len advice s = Some (0, s)"

definition syscall_newselect :: syscall where
  "syscall_newselect = fails ENOMEM"

end
