(* ===== verification/Doubles.thy ===== *)
theory Doubles
  imports Prelude "HOL-Library.Log_Nat"
begin

text \<open>
  Double arithmetic as the sources use it on times: a finite double is a rational number, and each
  operation is exact followed by a rounding to 53 bits, ties to even, with the smallest exponent of
  a double. The law: rounding is exact on integers of 53 bits, and within half a unit in the last
  place elsewhere.
\<close>

section \<open>Rounding\<close>

definition round_even :: "rat \<Rightarrow> int" where
  "round_even q =
    (let f = \<lfloor>q\<rfloor>; d = q - of_int f in
     if d < 1 / 2 \<or> d = 1 / 2 \<and> even f then f else f + 1)"

text \<open>The exponent of a positive number.\<close>

definition exponent :: "rat \<Rightarrow> int" where
  "exponent q =
    (let (n, d) = quotient_of q; k = bitlen n - bitlen d in if 2 powi k \<le> q then k else k - 1)"

definition rnd :: "rat \<Rightarrow> rat" where
  "rnd q =
    (if q = 0 then 0
     else let u = 2 powi (max (exponent \<bar>q\<bar>) (- 1022) - 52) in of_int (round_even (q / u)) * u)"

text \<open>The result of an operation: beyond the largest double it is infinite.\<close>

definition to_double :: "rat \<Rightarrow> double" where
  "to_double q =
    (let r = rnd q in if r \<ge> 2 ^ 1024 then PosInf else if r \<le> - (2 ^ 1024) then NegInf else Fin r)"

text \<open>The conversion to an integer type drops the fraction.\<close>

definition trunc :: "rat \<Rightarrow> int" where
  "trunc q = (if 0 \<le> q then \<lfloor>q\<rfloor> else \<lceil>q\<rceil>)"

section \<open>Laws\<close>

lemma round_even_int [simp]: "round_even (of_int n) = n"
  by (simp add: round_even_def)

lemma round_even_error: "\<bar>of_int (round_even q) - q\<bar> \<le> 1 / 2"
proof -
  have "of_int \<lfloor>q\<rfloor> \<le> q" "q < of_int \<lfloor>q\<rfloor> + 1"
    by linarith+
  then show ?thesis
    by (auto simp: round_even_def Let_def abs_le_iff)
qed

lemma exponent_bounds:
  assumes "0 < q"
  shows "2 powi exponent q \<le> q" "q < 2 powi (exponent q + 1)"
proof -
  obtain n d where nd: "quotient_of q = (n, d)" by (rule prod.exhaust)
  have d: "0 < d" by (rule quotient_of_denom_pos [OF nd])
  have q: "q = of_int n / of_int d" by (rule quotient_of_div [OF nd])
  have n: "0 < n" using assms d by (simp add: q zero_less_divide_iff)
  let ?a = "bitlen n" and ?b = "bitlen d"
  have pos: "1 \<le> ?a" "1 \<le> ?b"
    using n d by (simp_all add: bitlen_alt_def zero_le_log_cancel_iff) 
  have bound: "(2 :: rat) powi (bitlen x - 1) \<le> of_int x" "(of_int x :: rat) < 2 powi bitlen x"
    if "0 < x" "1 \<le> bitlen x" for x
  proof -
    have "(of_int (2 ^ nat (bitlen x - 1)) :: rat) \<le> of_int x" "(of_int x :: rat) < of_int (2 ^ nat (bitlen x))"
      using bitlen_bounds [OF that(1)] by (simp_all only: of_int_le_iff of_int_less_iff)
    then show "(2 :: rat) powi (bitlen x - 1) \<le> of_int x" "(of_int x :: rat) < 2 powi bitlen x"
      using that(2) by (simp_all add: power_int_def)
  qed
  note bn = bound [OF n pos(1)] and bd = bound [OF d pos(2)]
  have up: "q < 2 powi (?a - ?b + 1)"
  proof -
    have "of_int n < (2 :: rat) powi ?a" by (rule bn(2))
    also have "\<dots> = 2 powi (?a - ?b + 1) * 2 powi (?b - 1)"
      by (simp flip: power_int_add)
    also have "\<dots> \<le> 2 powi (?a - ?b + 1) * of_int d"
      using bd(1) by (intro mult_left_mono) simp_all
    finally show ?thesis using d by (simp add: q divide_less_eq)
  qed
  have low: "2 powi (?a - ?b - 1) \<le> q"
  proof -
    have "(2 :: rat) powi (?a - ?b - 1) * of_int d \<le> 2 powi (?a - ?b - 1) * 2 powi ?b"
      using bd(2) by (intro mult_left_mono) simp_all
    also have "\<dots> = 2 powi (?a - 1)"
      by (simp flip: power_int_add)
    also have "\<dots> \<le> of_int n" by (rule bn(1))
    finally show ?thesis using d by (simp add: q le_divide_eq)
  qed
  show "2 powi exponent q \<le> q" "q < 2 powi (exponent q + 1)"
    using up low by (auto simp: exponent_def nd Let_def)
qed

text \<open>An integer of at most 53 bits is a double.\<close>

lemma rnd_int:
  assumes "\<bar>n\<bar> \<le> 2 ^ 53"
  shows "rnd (of_int n) = of_int n"
proof (cases "n = 0")
  case False
  let ?q = "of_int n :: rat" and ?e = "exponent \<bar>of_int n\<bar>"
  have q: "0 < \<bar>?q\<bar>" "1 \<le> \<bar>?q\<bar>" "\<bar>?q\<bar> \<le> 2 ^ 53"
    using False assms by (simp_all flip: of_int_abs)
  note b = exponent_bounds [OF q(1)]
  have e0: "0 \<le> ?e"
  proof (rule ccontr)
    assume "\<not> 0 \<le> ?e"
    then have "(2 :: rat) powi (?e + 1) \<le> 2 powi 0" by (intro power_int_increasing) simp_all
    then show False using b(2) q(2) by simp
  qed
  have e1: "?e \<le> 53"
  proof (rule ccontr)
    assume "\<not> ?e \<le> 53"
    then have "(2 :: rat) powi 54 \<le> 2 powi ?e" by (intro power_int_increasing) simp_all
    then show False using b(1) q(3) by simp
  qed
  have "\<exists>m. ?q / 2 powi (?e - 52) = of_int m"
  proof (cases "?e = 53")
    case True
    then have "\<bar>?q\<bar> = 2 ^ 53" using b(1) q(3) by (simp add: power_int_def)
    then have "?q / 2 powi (?e - 52) = of_int (sgn n * 2 ^ 52)"
      using True by (auto simp: abs_if split: if_splits)
    then show ?thesis ..
  next
    case False
    have "(2 :: rat) powi (?e - 52) * 2 powi (52 - ?e) = 1"
      by (subst power_int_add [symmetric]) simp_all
    then have "?q / 2 powi (?e - 52) = ?q * 2 powi (52 - ?e)"
      by (simp add: divide_eq_eq mult.assoc mult.commute)
    also have "\<dots> = of_int (n * 2 ^ nat (52 - ?e))"
      using False e1 by (simp add: power_int_def)
    finally show ?thesis ..
  qed
  then obtain m where m: "?q / 2 powi (?e - 52) = of_int m" ..
  then have "of_int m * 2 powi (?e - 52) = ?q"
    by (simp add: divide_eq_eq)
  moreover have "max ?e (- 1022) = ?e"
    using e0 by simp
  ultimately show ?thesis
    using False by (simp add: rnd_def Let_def m del: of_int_abs)
qed (simp add: rnd_def)

text \<open>The relative error is at most $2^{-53}$ above the smallest normal number.\<close>

lemma rnd_error:
  assumes "2 powi (- 1022) \<le> q"
  shows "\<bar>rnd q - q\<bar> \<le> q / 2 ^ 53"
proof -
  let ?e = "exponent q"
  have q: "0 < q"
    using zero_less_power_int [of "2 :: rat" "- 1022"] assms by linarith
  note b = exponent_bounds [OF q]
  have m: "max ?e (- 1022) = ?e"
  proof (rule ccontr)
    assume "max ?e (- 1022) \<noteq> ?e"
    then have "?e + 1 \<le> - 1022" by simp
    then have "(2 :: rat) powi (?e + 1) \<le> 2 powi (- 1022)" by (intro power_int_increasing) simp_all
    then show False using b(2) assms by linarith
  qed
  let ?u = "2 powi (?e - 52) :: rat"
  have u: "0 < ?u" "?u * 2 ^ 52 = 2 powi ?e"
    using power_int_add [of "2 :: rat" "?e - 52" 52] by simp_all
  have "rnd q - q = (of_int (round_even (q / ?u)) - q / ?u) * ?u"
    using q u(1) by (simp add: rnd_def m Let_def left_diff_distrib)
  then have "\<bar>rnd q - q\<bar> = \<bar>of_int (round_even (q / ?u)) - q / ?u\<bar> * ?u"
    using u(1) by (simp add: abs_mult)
  also have "\<dots> \<le> 1 / 2 * ?u"
    using u(1) round_even_error by (intro mult_right_mono) simp_all
  also have "\<dots> \<le> q / 2 ^ 53"
    using b(1) u(2) by simp
  finally show ?thesis .
qed

section \<open>Times\<close>

text \<open>
  \<open>timespec_to_ms\<close> on a pair of seconds and nanoseconds, and \<open>ms_to_timespec\<close>. The second converts to a
  64-bit and a 32-bit integer; \<open>None\<close> is a value outside their range (or a product of seconds that
  overflows), where the conversion is undefined.
\<close>

definition double_ms :: "int \<Rightarrow> int \<Rightarrow> double" where
  "double_ms sec nsec = to_double (rnd (rnd (of_int sec) * 1000) + rnd (rnd (of_int nsec) / 1000000))"

definition ms_to_timespec :: "double \<Rightarrow> (int \<times> int) option" where
  "ms_to_timespec ms =
    (case ms of
       Fin q \<Rightarrow>
         let seconds = trunc (rnd (q / 1000)) in
         if seconds * 1000 < - (2 ^ 63) \<or> 2 ^ 63 \<le> seconds * 1000 then None
         else
           let ns = trunc (rnd (rnd (rnd (q - rnd (of_int (seconds * 1000))) * 1000) * 1000)) in
           if ns < - (2 ^ 31) \<or> 2 ^ 31 \<le> ns then None else Some (seconds, ns)
     | _ \<Rightarrow> None)"

lemma rnd_numeral_bound: "0 \<le> n \<Longrightarrow> n \<le> 2 ^ 53 \<Longrightarrow> rnd (of_int n) = of_int n"
  by (rule rnd_int) simp

text \<open>A whole number of milliseconds is stored exactly, for 278,000 years.\<close>

lemma double_ms_whole:
  assumes "0 \<le> sec" "sec < 2 ^ 43" "0 \<le> k" "k < 1000"
  shows "double_ms sec (k * 1000000) = Fin (of_int (1000 * sec + k))"
proof -
  have "rnd (of_int sec) = of_int sec" "rnd (of_int (sec * 1000)) = of_int (sec * 1000)"
    "rnd (of_int (k * 1000000)) = of_int (k * 1000000)" "rnd (of_int k) = of_int k"
    "rnd (of_int (1000 * sec + k)) = of_int (1000 * sec + k)"
    using assms by (intro rnd_numeral_bound; simp)+
  moreover have "\<not> (of_int (1000 * sec + k) :: rat) \<ge> 2 ^ 1024"
  proof -
    have "(of_int (1000 * sec + k) :: rat) \<le> of_int (2 ^ 53)"
      using assms by (simp only: of_int_le_iff) simp
    also have "\<dots> = 2 ^ 53" by simp
    also have "\<dots> < 2 ^ 1024" by (rule power_strict_increasing) simp_all
    finally show ?thesis by simp
  qed
  moreover have "\<not> (of_int (1000 * sec + k) :: rat) \<le> - (2 ^ 1024)"
  proof -
    have "(0 :: rat) \<le> of_int (1000 * sec + k)" "(0 :: rat) < 2 ^ 1024"
      using assms by (simp_all only: of_int_0_le_iff) simp_all
    then show ?thesis by linarith
  qed
  ultimately show ?thesis
    by (simp add: double_ms_def to_double_def Let_def mult.commute)
qed

lemma ms_to_timespec_whole:
  assumes "0 \<le> sec" "sec < 2 ^ 43" "0 \<le> k" "k < 1000"
  shows "ms_to_timespec (Fin (of_int (1000 * sec + k))) = Some (sec, k * 1000000)"
proof -
  let ?x = "of_int (1000 * sec + k) / 1000 :: rat"
  have x: "?x = of_int sec + of_int k / 1000" by (simp add: add_divide_distrib)
  have "(of_int k :: rat) \<le> of_int 999"
    using assms(4) unfolding of_int_le_iff by simp
  then have k: "(of_int k :: rat) \<le> 999" by simp
  have "of_int sec \<le> rnd ?x \<and> rnd ?x < of_int sec + 1"
  proof (cases "k = 0")
    case True
    then show ?thesis
      using assms rnd_numeral_bound [of sec] by (simp add: x)
  next
    case False
    then have "(of_int 1 :: rat) \<le> of_int k" "(of_int sec :: rat) \<le> of_int (2 ^ 43 - 1)"
        "(of_int 0 :: rat) \<le> of_int sec"
      using assms unfolding of_int_le_iff by simp_all
    then have k1: "(1 :: rat) \<le> of_int k" and s: "(of_int sec :: rat) \<le> 2 ^ 43 - 1" "(0 :: rat) \<le> of_int sec"
      by simp_all
    have "(2 :: rat) powi (- 1022) \<le> 2 powi (- 10)" by (rule power_int_increasing) simp_all
    also have "\<dots> \<le> ?x" using s k1 by (simp add: x power_int_minus)
    finally have "\<bar>rnd ?x - ?x\<bar> \<le> ?x / 2 ^ 53" by (rule rnd_error)
    also have "\<dots> < 1 / 1000"
      using s k by (simp add: x field_simps)
    finally have "rnd ?x - ?x < 1 / 1000" "?x - rnd ?x < 1 / 1000"
      by linarith+
    then show ?thesis
      using k1 k unfolding x by linarith
  qed
  then have t: "trunc (rnd ?x) = sec"
    using assms(1) floor_unique [of sec "rnd ?x"]
    by (simp add: trunc_def order_trans [of 0 "of_int sec :: rat"])
  have "rnd (of_int (sec * 1000)) = of_int (sec * 1000)" "rnd (of_int k) = of_int k"
    "rnd (of_int (k * 1000)) = of_int (k * 1000)" "rnd (of_int (k * 1000000)) = of_int (k * 1000000)"
    using assms by (intro rnd_numeral_bound; simp)+
  then have "rnd (rnd (rnd (of_int (1000 * sec + k) - rnd (of_int (sec * 1000))) * 1000) * 1000) =
      of_int (k * 1000000)"
    by (simp add: mult.commute)
  then have ns: "trunc (rnd (rnd (rnd (of_int (1000 * sec + k) - rnd (of_int (sec * 1000))) * 1000) * 1000)) =
      k * 1000000"
    by (simp only: trunc_def floor_of_int ceiling_of_int if_cancel)
  have "\<not> (sec * 1000 < - (2 ^ 63) \<or> 2 ^ 63 \<le> sec * 1000)"
    "\<not> (k * 1000000 < - (2 ^ 31) \<or> 2 ^ 31 \<le> k * 1000000)"
    using assms by simp_all
  then show ?thesis
    by (simp only: ms_to_timespec_def double.case Let_def t ns if_False)
qed

end
