(* ===== verification/Metadata.thy ===== *)
theory Metadata
  imports Descriptors Doubles
begin

text \<open>
  The system calls on metadata (syscalls.cpp): stat, times, modes, owners, access checks and
  statfs. A struct that a call fills is a record, \<open>None\<close> when nothing is stored.
\<close>

section \<open>Stat\<close>

text \<open>A time is seconds and nanoseconds, \<open>None\<close> when the conversion of the double is undefined.\<close>

record stat =
  st_size :: u64
  st_mode :: u32
  st_ino :: nat
  st_dev :: nat
  st_nlink :: nat
  st_blocks :: u64
  st_blksize :: nat
  st_atim :: "(int \<times> int) option"
  st_mtim :: "(int \<times> int) option"
  st_ctim :: "(int \<times> int) option"

definition stat_of :: "fid \<Rightarrow> fs \<Rightarrow> stat" where
  "stat_of f s =
    \<lparr>st_size = getSize f s, st_mode = mode_of s f, st_ino = f, st_dev = 1, st_nlink = 1,
     st_blocks = of_int (sint (getSize f s + 511) div 512), st_blksize = 4096,
     st_atim = ms_to_timespec (f_atime (fs_heap s f)), st_mtim = ms_to_timespec (f_mtime (fs_heap s f)),
     st_ctim = ms_to_timespec (f_ctime (fs_heap s f))\<rparr>"

definition syscall_newfstatat ::
    "u32 \<Rightarrow> string \<Rightarrow> u32 \<Rightarrow> fs \<Rightarrow> ((u32 \<times> stat option) \<times> fs) option" where
  "syscall_newfstatat dirfd path flags s =
    (if flags AND NOT (AT_EMPTY_PATH OR AT_NO_AUTOMOUNT OR AT_SYMLINK_NOFOLLOW) \<noteq> 0
     then Some ((neg_errno EINVAL, None), s)
     else
       (case getFileAt dirfd path flags s of
          None \<Rightarrow> None
        | Some (Inl e, s) \<Rightarrow> Some ((neg_errno e, None), s)
        | Some (Inr f, s) \<Rightarrow>
            if sint (getSize f s) < 0 then Some ((ucast (getSize f s), None), s)
            else Some ((0, Some (stat_of f s)), s)))"

definition syscall_stat64 :: "string \<Rightarrow> fs \<Rightarrow> ((u32 \<times> stat option) \<times> fs) option" where
  "syscall_stat64 path = syscall_newfstatat AT_FDCWD path 0"

definition syscall_lstat64 :: "string \<Rightarrow> fs \<Rightarrow> ((u32 \<times> stat option) \<times> fs) option" where
  "syscall_lstat64 path = syscall_newfstatat AT_FDCWD path AT_SYMLINK_NOFOLLOW"

definition syscall_fstat64 :: "u32 \<Rightarrow> fs \<Rightarrow> ((u32 \<times> stat option) \<times> fs) option" where
  "syscall_fstat64 fd = syscall_newfstatat fd [] AT_EMPTY_PATH"

section \<open>Times\<close>

text \<open>A \<open>timespec\<close> argument as \<open>timespec_to_ms\<close> reads it.\<close>

datatype timespec = UTIME_OMIT | UTIME_NOW | Timespec int int

definition timespec_to_ms :: "timespec \<Rightarrow> fs \<Rightarrow> double \<times> fs" where
  "timespec_to_ms ts s =
    (case ts of
       UTIME_OMIT \<Rightarrow> (PosInf, s)
     | UTIME_NOW \<Rightarrow> date_now s
     | Timespec sec nsec \<Rightarrow> (double_ms sec nsec, s))"

definition set_both :: "fid \<Rightarrow> double \<Rightarrow> double \<Rightarrow> fs \<Rightarrow> fs" where
  "set_both f aTime mTime s =
    (let s = (if aTime \<noteq> PosInf then setATime f aTime s else s) in
     if mTime \<noteq> PosInf then setMTime f mTime s else s)"

definition syscall_utimensat ::
    "u32 \<Rightarrow> string \<Rightarrow> (timespec \<times> timespec) option \<Rightarrow> u32 \<Rightarrow> syscall" where
  "syscall_utimensat dirFD path tms flags s =
    (if flags AND NOT AT_SYMLINK_NOFOLLOW \<noteq> 0 then fails EINVAL s
     else
       (case getFileAt dirFD path (flags OR AT_EMPTY_PATH) s of
          None \<Rightarrow> None
        | Some (Inl e, s) \<Rightarrow> fails e s
        | Some (Inr f, s) \<Rightarrow>
            let (aTime, mTime, s) =
              (case tms of
                 None \<Rightarrow> let (t, s) = date_now s in (t, t, s)
               | Some (t0, t1) \<Rightarrow>
                   let (a, s) = timespec_to_ms t0 s; (m, s) = timespec_to_ms t1 s in
                   (a, m, s)) in
            Some (0, set_both f aTime mTime s)))"

text \<open>
  The conversion of a 64-bit unsigned integer to a double is never infinite, so \<open>__set_times\<close> always
  stores both times.
\<close>

definition u64_to_double :: "u64 \<Rightarrow> double" where
  "u64_to_double w = to_double (of_nat (unat w))"

definition set_times :: "fid \<Rightarrow> u64 \<Rightarrow> u64 \<Rightarrow> fs \<Rightarrow> fs" where
  "set_times f atim mtim s = set_both f (u64_to_double atim) (u64_to_double mtim) s"

section \<open>Modes, owners, access\<close>

definition change_mode :: "fid \<Rightarrow> u32 \<Rightarrow> fs \<Rightarrow> fs" where
  "change_mode f mode s = updateCTime f (setMode f mode s)"

definition syscall_fchmodat2 :: "u32 \<Rightarrow> string \<Rightarrow> u32 \<Rightarrow> u32 \<Rightarrow> syscall" where
  "syscall_fchmodat2 dirfd path mode flags s =
    (if flags AND NOT AT_SYMLINK_NOFOLLOW \<noteq> 0 then fails EINVAL s
     else
       (case getFileAt dirfd path flags s of
          None \<Rightarrow> None
        | Some (Inl e, s) \<Rightarrow> fails e s
        | Some (Inr f, s) \<Rightarrow> Some (0, change_mode f mode s)))"

definition syscall_chmod :: "string \<Rightarrow> u32 \<Rightarrow> syscall" where
  "syscall_chmod path mode = syscall_fchmodat2 AT_FDCWD path mode 0"

definition syscall_fchmod :: "u32 \<Rightarrow> u32 \<Rightarrow> syscall" where
  "syscall_fchmod fd mode s =
    (case getEntry fd s of
       None \<Rightarrow> fails EBADF s
     | Some openFile \<Rightarrow> Some (0, change_mode (file_of s openFile) mode s))"

definition syscall_fchownat :: "u32 \<Rightarrow> string \<Rightarrow> u32 \<Rightarrow> u32 \<Rightarrow> u32 \<Rightarrow> syscall" where
  "syscall_fchownat dirfd path uid gid flags s =
    (if flags AND NOT (AT_EMPTY_PATH OR AT_SYMLINK_NOFOLLOW) \<noteq> 0 then fails EINVAL s
     else
       (case getFileAt dirfd path flags s of
          None \<Rightarrow> None
        | Some (Inl e, s) \<Rightarrow> fails e s
        | Some (Inr f, s) \<Rightarrow> Some (0, s)))"

definition syscall_fchown32 :: "u32 \<Rightarrow> u32 \<Rightarrow> u32 \<Rightarrow> syscall" where
  "syscall_fchown32 fd uid gid = syscall_fchownat fd [] uid gid AT_EMPTY_PATH"

abbreviation (input) "R_OK \<equiv> (4 :: u32)"
abbreviation (input) "W_OK \<equiv> (2 :: u32)"
abbreviation (input) "X_OK \<equiv> (1 :: u32)"

definition syscall_faccessat :: "u32 \<Rightarrow> string \<Rightarrow> u32 \<Rightarrow> u32 \<Rightarrow> syscall" where
  "syscall_faccessat dirfd path amode flags s =
    (if amode \<noteq> 0 \<and> amode AND NOT (R_OK OR W_OK OR X_OK) \<noteq> 0 then fails EINVAL s
     else if flags AND NOT (AT_EACCESS OR AT_SYMLINK_NOFOLLOW) \<noteq> 0 then fails EINVAL s
     else
       (case parseFile path dirfd FollowLinks s of
          None \<Rightarrow> None
        | Some (Inl e, s) \<Rightarrow> fails e s
        | Some (Inr f, s) \<Rightarrow>
            let mode = mode_of s f in
            if amode \<noteq> 0 \<and> amode AND R_OK \<noteq> 0 \<and> mode AND WASMFS_PERM_READ = 0 then fails EACCES s
            else if amode \<noteq> 0 \<and> amode AND W_OK \<noteq> 0 \<and> mode AND WASMFS_PERM_WRITE = 0
              then fails EACCES s
            else if amode \<noteq> 0 \<and> amode AND X_OK \<noteq> 0 \<and> mode AND WASMFS_PERM_EXECUTE = 0
              then fails EACCES s
            else Some (0, s)))"

section \<open>File descriptor status and file systems\<close>

datatype wasi_filetype = FILETYPE_DIRECTORY | FILETYPE_REGULAR_FILE

text \<open>\<open>__get_file_stat\<close> fills the file type of the status only.\<close>

definition get_file_stat :: "fid \<Rightarrow> fs \<Rightarrow> wasi_filetype" where
  "get_file_stat f s = (if is_dir s f then FILETYPE_DIRECTORY else FILETYPE_REGULAR_FILE)"

definition wasi_fd_fdstat_get :: "u32 \<Rightarrow> fs \<Rightarrow> u16 \<times> wasi_filetype option" where
  "wasi_fd_fdstat_get fd s =
    (case getEntry fd s of
       None \<Rightarrow> (wasi EBADF, None)
     | Some openFile \<Rightarrow> (0, Some (get_file_stat (file_of s openFile) s)))"

record statfs =
  f_type :: nat
  f_bsize :: nat
  f_frsize :: nat
  f_blocks :: nat
  f_bfree :: nat
  f_bavail :: nat
  f_files :: nat
  f_ffree :: nat
  f_namelen :: nat

text \<open>The size of \<open>struct statfs\<close> is an argument: the struct is libc's.\<close>

definition doStatFS :: "u32 \<Rightarrow> fid \<Rightarrow> u32 \<Rightarrow> u32 \<times> statfs option" where
  "doStatFS sizeof_statfs f sz =
    (if sz \<noteq> sizeof_statfs then (neg_errno EINVAL, None)
     else (0, Some \<lparr>f_type = 0, f_bsize = 4096, f_frsize = 4096, f_blocks = 1000000,
       f_bfree = 500000, f_bavail = 500000, f_files = f, f_ffree = 1000000, f_namelen = 255\<rparr>))"

definition syscall_statfs64 ::
    "u32 \<Rightarrow> string \<Rightarrow> u32 \<Rightarrow> fs \<Rightarrow> ((u32 \<times> statfs option) \<times> fs) option" where
  "syscall_statfs64 sizeof_statfs path sz s =
    (case parseFile path AT_FDCWD FollowLinks s of
       None \<Rightarrow> None
     | Some (Inl e, s) \<Rightarrow> Some ((neg_errno e, None), s)
     | Some (Inr f, s) \<Rightarrow> Some (doStatFS sizeof_statfs f sz, s))"

definition syscall_fstatfs64 :: "u32 \<Rightarrow> u32 \<Rightarrow> u32 \<Rightarrow> fs \<Rightarrow> u32 \<times> statfs option" where
  "syscall_fstatfs64 sizeof_statfs fd sz s =
    (case getEntry fd s of
       None \<Rightarrow> (neg_errno EBADF, None)
     | Some openFile \<Rightarrow> doStatFS sizeof_statfs (file_of s openFile) sz)"

definition wasmfs_get_backend_by_fd :: "u32 \<Rightarrow> fs \<Rightarrow> backend_t option" where
  "wasmfs_get_backend_by_fd fd s =
    (case getEntry fd s of
       None \<Rightarrow> None
     | Some openFile \<Rightarrow> backend_of s (file_of s openFile))"

definition wasmfs_get_backend_by_path :: "string \<Rightarrow> fs \<Rightarrow> (backend_t option \<times> fs) option" where
  "wasmfs_get_backend_by_path path s =
    (case parseFile path AT_FDCWD FollowLinks s of
       None \<Rightarrow> None
     | Some (Inl e, s) \<Rightarrow> Some (None, s)
     | Some (Inr f, s) \<Rightarrow> Some (backend_of s f, s))"

end
