(* ===== verification/Wasi.thy ===== *)
theory Wasi
  imports Metadata
begin

text \<open>
  The exported functions of memfs.cpp, most of them thin wrappers around the system calls. A
  \<open>__wasi_errno_t\<close> has 16 bits: a negative 32-bit result is cut to its low half. The lengths that
  accompany the paths are ignored by the source: a path ends at its null character.
\<close>

section \<open>Cutting results\<close>

definition wasi_call :: "syscall \<Rightarrow> fs \<Rightarrow> (u16 \<times> fs) option" where
  "wasi_call c s = (case c s of None \<Rightarrow> None | Some (r, s) \<Rightarrow> Some (ucast r, s))"

section \<open>Descriptors\<close>

definition fd_advise :: "u32 \<Rightarrow> u64 \<Rightarrow> u64 \<Rightarrow> byte \<Rightarrow> fs \<Rightarrow> (u16 \<times> fs) option" where
  "fd_advise fd offset len advice = wasi_call (syscall_fadvise64 fd offset len (ucast advice))"

definition fd_allocate :: "u32 \<Rightarrow> u64 \<Rightarrow> u64 \<Rightarrow> fs \<Rightarrow> (u16 \<times> fs) option" where
  "fd_allocate fd offset len = wasi_call (syscall_fallocate fd 0 offset len)"

definition fd_close :: "u32 \<Rightarrow> fs \<Rightarrow> u16 \<times> fs" where
  "fd_close fd = wasi_fd_close fd"

definition fd_datasync :: "u32 \<Rightarrow> fs \<Rightarrow> u16 \<times> fs" where
  "fd_datasync fd = wasi_fd_sync fd"

definition fd_sync :: "u32 \<Rightarrow> fs \<Rightarrow> u16 \<times> fs" where
  "fd_sync fd = wasi_fd_sync fd"

definition fd_fdstat_get :: "u32 \<Rightarrow> fs \<Rightarrow> u16 \<times> wasi_filetype option" where
  "fd_fdstat_get fd = wasi_fd_fdstat_get fd"

text \<open>Also \<open>fd_filestat_get\<close> fills a \<open>__wasi_fdstat_t\<close>.\<close>

definition fd_filestat_get :: "u32 \<Rightarrow> fs \<Rightarrow> u16 \<times> wasi_filetype option" where
  "fd_filestat_get fd = wasi_fd_fdstat_get fd"

text \<open>
  The stubs \<open>fd_fdstat_set_flags\<close>, \<open>fd_fdstat_set_rights\<close>, \<open>fd_prestat_get\<close> and
  \<open>fd_prestat_dir_name\<close> do nothing and succeed.
\<close>

definition fd_stub :: "u32 \<Rightarrow> fs \<Rightarrow> u16 \<times> fs" where
  "fd_stub fd s = (0, s)"

definition fd_filestat_set_size :: "u32 \<Rightarrow> u64 \<Rightarrow> fs \<Rightarrow> (u16 \<times> fs) option" where
  "fd_filestat_set_size fd sz = wasi_call (syscall_ftruncate64 fd sz)"

definition fd_filestat_set_times :: "u32 \<Rightarrow> u64 \<Rightarrow> u64 \<Rightarrow> u16 \<Rightarrow> fs \<Rightarrow> u16 \<times> fs" where
  "fd_filestat_set_times fd atim mtim fst_flags s =
    (case getEntry fd s of
       None \<Rightarrow> (ucast (neg_errno EBADF), s)
     | Some openFile \<Rightarrow> (0, set_times (file_of s openFile) atim mtim s))"

definition fd_pread :: "u32 \<Rightarrow> iovec list \<Rightarrow> u64 \<Rightarrow> fs \<Rightarrow> ((u16 \<times> u32 option) \<times> fs) option" where
  "fd_pread fd iovs offset = wasi_fd_pread fd iovs offset"

definition fd_pwrite :: "u32 \<Rightarrow> iovec list \<Rightarrow> u64 \<Rightarrow> fs \<Rightarrow> ((u16 \<times> u32 option) \<times> fs) option" where
  "fd_pwrite fd iovs offset = wasi_fd_pwrite fd iovs offset"

definition fd_read :: "u32 \<Rightarrow> iovec list \<Rightarrow> fs \<Rightarrow> ((u16 \<times> u32 option) \<times> fs) option" where
  "fd_read fd iovs = readAtOffset OpenFileStateOffset fd iovs 0"

definition fd_write :: "u32 \<Rightarrow> iovec list \<Rightarrow> fs \<Rightarrow> ((u16 \<times> u32 option) \<times> fs) option" where
  "fd_write fd iovs = writeAtOffset OpenFileStateOffset fd iovs 0"

text \<open>The number of bytes or the negative error of \<open>getdents64\<close> is stored; the call succeeds.\<close>

definition fd_readdir :: "u32 \<Rightarrow> u32 \<Rightarrow> u64 \<Rightarrow> fs \<Rightarrow> (u16 \<times> u32 \<times> dirent_record list) \<times> fs" where
  "fd_readdir fd buf_len cookie s =
    (let ((bufused, out), s) = syscall_getdents64 fd buf_len s in ((0, bufused, out), s))"

definition fd_renumber :: "u32 \<Rightarrow> u32 \<Rightarrow> fs \<Rightarrow> (u16 \<times> fs) option" where
  "fd_renumber fd to = wasi_call (syscall_dup3 fd to 0)"

definition fd_seek :: "u32 \<Rightarrow> u64 \<Rightarrow> byte \<Rightarrow> u32 \<Rightarrow> fs \<Rightarrow> ((u16 \<times> u64 option) \<times> fs) option" where
  "fd_seek fd offset whence newoffset = wasi_fd_seek fd offset whence newoffset"

section \<open>Paths\<close>

text \<open>
  \<open>path_create_directory\<close> passes \<open>dirfd\<close>, which is not its parameter but a function of libc: its
  address is an argument of the model.
\<close>

definition path_create_directory :: "u32 \<Rightarrow> u32 \<Rightarrow> string \<Rightarrow> fs \<Rightarrow> (u16 \<times> fs) option" where
  "path_create_directory dirfd_address fd path =
    wasi_call (syscall_mkdirat dirfd_address path (S_IRUGO OR S_IXUGO))"

text \<open>\<open>path_filestat_get\<close> resolves from the working directory, whatever \<open>fd\<close> is.\<close>

definition path_filestat_get ::
    "u32 \<Rightarrow> u32 \<Rightarrow> string \<Rightarrow> fs \<Rightarrow> ((u16 \<times> wasi_filetype option) \<times> fs) option" where
  "path_filestat_get fd flags path s =
    (case parseFile path AT_FDCWD FollowLinks s of
       None \<Rightarrow> None
     | Some (Inl e, s) \<Rightarrow> Some ((ucast (neg_errno e), None), s)
     | Some (Inr f, s) \<Rightarrow> Some ((0, Some (get_file_stat f s)), s))"

definition path_filestat_set_times ::
    "u32 \<Rightarrow> u32 \<Rightarrow> string \<Rightarrow> u64 \<Rightarrow> u64 \<Rightarrow> u16 \<Rightarrow> fs \<Rightarrow> (u16 \<times> fs) option" where
  "path_filestat_set_times fd flags path atim mtim fst_flags s =
    (case parseFile path fd FollowLinks s of
       None \<Rightarrow> None
     | Some (Inl e, s) \<Rightarrow> Some (ucast (neg_errno e), s)
     | Some (Inr f, s) \<Rightarrow> Some (0, set_times f atim mtim s))"

definition path_link :: "u32 \<Rightarrow> u32 \<Rightarrow> string \<Rightarrow> u32 \<Rightarrow> string \<Rightarrow> fs \<Rightarrow> (u16 \<times> fs) option" where
  "path_link old_fd old_flags old_path new_fd new_path =
    wasi_call (syscall_symlinkat new_path new_fd old_path)"

text \<open>The descriptor, or the negative error code, is stored in \<open>opened_fd\<close>; the call succeeds.\<close>

definition path_open ::
    "u32 \<Rightarrow> u32 \<Rightarrow> string \<Rightarrow> u16 \<Rightarrow> u64 \<Rightarrow> u64 \<Rightarrow> u16 \<Rightarrow> fs \<Rightarrow> ((u16 \<times> u32) \<times> fs) option" where
  "path_open dirfd dirflags path oflags fs_rights_base fs_rights_inheriting fdflags s =
    (case syscall_openat2 dirfd path dirflags oflags 0 s of
       None \<Rightarrow> None
     | Some (opened_fd, s) \<Rightarrow> Some ((0, opened_fd), s))"

definition path_readlink ::
    "u32 \<Rightarrow> string \<Rightarrow> u32 \<Rightarrow> u32 \<Rightarrow> fs \<Rightarrow> ((u16 \<times> u32 option) \<times> fs) option" where
  "path_readlink dir_fd path buf buf_len s =
    (case syscall_readlinkat dir_fd path buf buf_len s of
       None \<Rightarrow> None
     | Some (bytes, s) \<Rightarrow>
         if sint bytes < 0 then Some ((ucast (- bytes), None), s) else Some ((0, Some bytes), s))"

definition path_remove_directory :: "u32 \<Rightarrow> string \<Rightarrow> fs \<Rightarrow> (u16 \<times> fs) option" where
  "path_remove_directory fd path = wasi_call (syscall_unlinkat fd path AT_REMOVEDIR)"

definition path_rename :: "u32 \<Rightarrow> string \<Rightarrow> u32 \<Rightarrow> string \<Rightarrow> fs \<Rightarrow> (u16 \<times> fs) option" where
  "path_rename old_fd old_path new_fd new_path =
    wasi_call (syscall_renameat old_fd old_path new_fd new_path)"

definition path_symlink :: "string \<Rightarrow> u32 \<Rightarrow> string \<Rightarrow> fs \<Rightarrow> (u16 \<times> fs) option" where
  "path_symlink old_path fd new_path = wasi_call (syscall_symlinkat new_path fd old_path)"

definition path_unlink_file :: "u32 \<Rightarrow> string \<Rightarrow> fs \<Rightarrow> (u16 \<times> fs) option" where
  "path_unlink_file dirfd path = wasi_call (syscall_unlinkat dirfd path 0)"

end
