(* ===== verification/Init.thy ===== *)
theory Init
  imports Wasi
begin

text \<open>
  The construction of the file system (wasmfs.cpp): the file table with the standard streams, the
  root directory with /dev and /tmp, and the preloaded files. The state that results is
  well-formed.
\<close>

section \<open>Constructors\<close>

text \<open>Before any constructor runs there is no object; \<open>h\<close> is the host and \<open>m\<close> the memory.\<close>

definition empty_fs :: "host \<Rightarrow> (u32 \<Rightarrow> byte) \<Rightarrow> fs" where
  "empty_fs h m =
    \<lparr>fs_heap = \<lambda>_. \<lparr>f_node = NullFile, f_mode = 0, f_atime = Fin 0, f_mtime = Fin 0,
       f_ctime = Fin 0, f_parent = None, f_backend = None, f_seekable = True\<rparr>,
     fs_next = 0, fs_root = 0, fs_cwd = 0,
     fs_ofiles = \<lambda>_. \<lparr>of_file = 0, of_position = 0, of_flags = 0, of_uses = 0, of_dirents = []\<rparr>,
     fs_ofnext = 0, fs_table = [], fs_pipes = \<lambda>_. [], fs_pnext = 0, fs_backends = 0,
     fs_mem = m, fs_host = h, fs_calls = 0, fs_output = []\<rparr>"

text \<open>The singletons of special_files.cpp, made at the first call of their getter.\<close>

definition getStdin :: "fs \<Rightarrow> fid \<times> fs" where
  "getStdin = new_file StdinFile (S_IRUGO OR S_IFCHR) None False"

definition getStdout :: "fs \<Rightarrow> fid \<times> fs" where
  "getStdout = new_file (WritingStdFile Stdout []) (S_IWUGO OR S_IFCHR) None False"

definition getStderr :: "fs \<Rightarrow> fid \<times> fs" where
  "getStderr = new_file (WritingStdFile Stderr []) (S_IWUGO OR S_IFCHR) None False"

definition getNull :: "fs \<Rightarrow> fid \<times> fs" where
  "getNull = new_file NullFile (S_IRUGO OR S_IWUGO OR S_IFCHR) None True"

definition getRandom :: "fs \<Rightarrow> fid \<times> fs" where
  "getRandom = new_file RandomFile (S_IRUGO OR S_IFCHR) None False"

definition getURandom :: "fs \<Rightarrow> fid \<times> fs" where
  "getURandom = new_file RandomFile (S_IRUGO OR S_IFCHR) None False"

text \<open>One slot of the constructor \<open>FileTable\<close>: the state is put there without \<open>setEntry\<close>.\<close>

definition push_std :: "fid \<times> fs \<Rightarrow> u32 \<Rightarrow> fs" where
  "push_std made flags =
    (case OpenFileState_create (fst made) flags (snd made) of
       Some (Inr oid, s) \<Rightarrow> s\<lparr>fs_table := fs_table s @ [Some oid]\<rparr>
     | _ \<Rightarrow> snd made)"

definition init_FileTable :: "fs \<Rightarrow> fs" where
  "init_FileTable s =
    (let s = push_std (getStdin s) O_RDONLY;
         s = push_std (getStdout s) O_WRONLY in
     push_std (getStderr s) O_WRONLY)"

definition mount :: "fid \<Rightarrow> string \<Rightarrow> fid \<Rightarrow> fs \<Rightarrow> fs" where
  "mount d name f s = snd (mountChild d name f s)"

text \<open>The mounts of /dev; the streams have been made by the file table.\<close>

definition mount_dev :: "fid \<Rightarrow> fs \<Rightarrow> fs" where
  "mount_dev dev s =
    (let (null, s) = getNull s;
         s = mount dev ''null'' null s;
         s = mount dev ''stdin'' stdin_file s;
         s = mount dev ''stdout'' stdout_file s;
         s = mount dev ''stderr'' stderr_file s;
         (random, s) = getRandom s;
         s = mount dev ''random'' random s;
         (urandom, s) = getURandom s in
     mount dev ''urandom'' urandom s)"

text \<open>\<open>initRootDirectory\<close> and the constructor's initialisation of \<open>cwd\<close>.\<close>

definition init_root :: "fs \<Rightarrow> fs" where
  "init_root s =
    (let (b, s) = createMemoryBackend s;
         (root, s) = createDirectory (S_IRUGO OR S_IXUGO OR S_IWUGO) (Some b) s in
     (setParent root (Some root) s)\<lparr>fs_root := root, fs_cwd := root\<rparr>)"

definition initRootDirectory :: "fs \<Rightarrow> fs" where
  "initRootDirectory s =
    (let s = init_root s; root = fs_root s;
         (devDir, s) = insertDirectory root ''dev'' (S_IRUGO OR S_IXUGO) s;
         s = (case devDir of None \<Rightarrow> s | Some dev \<Rightarrow> mount_dev dev s) in
     snd (insertDirectory root ''tmp'' S_IRWXUGO s))"

text \<open>
  \<open>preloadFiles\<close>: what the host lists, directories as parent path and name, files as path, mode
  and contents. \<open>None\<close> is the call of \<open>abort\<close>, or a null pointer dereferenced.
\<close>

fun preload_dirs :: "(string \<times> string) list \<Rightarrow> fs \<Rightarrow> fs option" where
  "preload_dirs [] s = Some s"
| "preload_dirs ((parentPath, childName) # ds) s =
    (case parseFile parentPath AT_FDCWD FollowLinks s of
       Some (Inr parentDir, s) \<Rightarrow>
         if is_dir s parentDir then
           (case getChild parentDir childName s of
              (Some _, s) \<Rightarrow> preload_dirs ds s
            | (None, s) \<Rightarrow>
                preload_dirs ds (snd (insertDirectory parentDir childName (S_IRUGO OR S_IXUGO) s)))
         else None
     | _ \<Rightarrow> None)"

fun preload_files :: "(string \<times> u32 \<times> byte list) list \<Rightarrow> fs \<Rightarrow> fs option" where
  "preload_files [] s = Some s"
| "preload_files ((fileName, mode, contents) # fls) s =
    (case parseParent fileName AT_FDCWD s of
       Some (Inr (parent, childName), s) \<Rightarrow>
         (case insertDataFile parent childName mode s of
            (None, s) \<Rightarrow> None
          | (Some created, s) \<Rightarrow>
              (case df_write created contents 0 s of
                 None \<Rightarrow> None
               | Some (_, s) \<Rightarrow> preload_files fls s))
     | _ \<Rightarrow> None)"

definition preloadFiles ::
    "(string \<times> string) list \<Rightarrow> (string \<times> u32 \<times> byte list) list \<Rightarrow> fs \<Rightarrow> fs option" where
  "preloadFiles ds fls s =
    (case preload_dirs ds s of None \<Rightarrow> None | Some s \<Rightarrow> preload_files fls s)"

definition WasmFS_init :: "host \<Rightarrow> (u32 \<Rightarrow> byte) \<Rightarrow> fs" where
  "WasmFS_init h m = initRootDirectory (init_FileTable (empty_fs h m))"

text \<open>\<open>wasmfs_flush\<close>: the streams of libc are not part of the model.\<close>

definition wasmfs_flush :: "fs \<Rightarrow> fs" where
  "wasmfs_flush s = snd (df_flush stderr_file (snd (df_flush stdout_file s)))"

section \<open>Mounting keeps the tree\<close>

lemma mount_effect:
  assumes "is_dir s d" "parent_of s d = Some p"
  shows "fs_next (mount d n c s) = fs_next s" "fs_root (mount d n c s) = fs_root s"
    "fs_cwd (mount d n c s) = fs_cwd s" "kind (mount d n c s) g = kind s g"
    "entries (mount d n c s) g = entries s g" "mode_of (mount d n c s) g = mode_of s g"
    "parent_of (mount d n c s) g = (if g = c then Some d else parent_of s g)"
    "dcache (mount d n c s) g =
      (if g = d then omap_insert n \<lparr>dc_kind = DCMount, dc_file = c\<rparr> (dcache s d) else dcache s g)"
    "fs_table (mount d n c s) = fs_table s" "fs_ofiles (mount d n c s) = fs_ofiles s"
    "fs_ofnext (mount d n c s) = fs_ofnext s"
  using assms by (simp_all add: mount_def mountChild_def cacheChild_def Let_def)

lemma wf_mount_step:
  assumes wf: "wf_fs s" and d: "is_dir s d" "parent_of s d = Some p" "mode_of s d AND WASMFS_PERM_WRITE = 0"
    and n: "child_of s d n = None" and c: "c < fs_next s" "\<not> is_dir s c" "parent_of s c = None"
  shows "wf_fs (mount d n c s)"
proof -
  let ?t = "mount d n c s"
  note wt = wfD(1) [OF wf]
  note eff = mount_effect [OF d(1,2), where n = n and c = c]
  have fresh: "(k, c) \<notin> set (entries s g)" "(k, e) \<in> set (dcache s g) \<Longrightarrow> dc_file e \<noteq> c" for k g e
    using wf_entry(2) [OF wt] wf_mount(3) [OF wt] c(3) by (metis option.distinct(1))+
  have keys: "fst ` set (dcache ?t g) = (if g = d then insert n (fst ` set (dcache s d)) else fst ` set (dcache s g))" for g
    by (simp add: eff keys_omap_insert)
  have upt: "up ?t = insert (c, d) (up s)"
    using c(3) by (auto simp: up_def eff split: if_splits)
  have dirne: "is_dir s g \<Longrightarrow> g \<noteq> c" for g
    using c(2) by auto
  have root: "fs_root s \<noteq> c"
    using dirne wf_root(1) [OF wt] by blast
  have "wf_roots ?t"
    using wf_root [OF wt] root by (simp add: wf_roots_def eff)
  moreover have "wf_maps ?t"
    unfolding wf_maps_def keys eff(5)
  proof (intro allI conjI)
    fix g
    show "good_entries (entries s g)"
      by (rule wf_containers [OF wt])
    show "sorted_wrt (<) (map fst (dcache ?t g))"
      using wf_containers(2) [OF wt] by (simp add: eff(8) sorted_omap_insert)
    show "fst ` set (entries s g) \<inter>
        (if g = d then insert n (fst ` set (dcache s d)) else fst ` set (dcache s g)) = {}"
      using wf_containers(3) [OF wt, of g] child_of_None(3) [OF n d(2)] by (cases "g = d") simp_all
  qed
  moreover have "wf_entries ?t"
    using wf_entry [OF wt] fresh(1) by (auto simp: wf_entries_def eff)
  moreover have "wf_mounts ?t"
    unfolding wf_mounts_def
  proof (intro allI impI)
    fix g k e
    assume "(k, e) \<in> set (dcache ?t g)"
    then have "(g = d \<and> e = \<lparr>dc_kind = DCMount, dc_file = c\<rparr>) \<or> (k, e) \<in> set (dcache s g)"
      using set_omap_insert_subset [of n "\<lparr>dc_kind = DCMount, dc_file = c\<rparr>" "dcache s d"]
      by (auto simp: eff split: if_splits)
    then show "dc_kind e = DCMount \<and> dc_file e < fs_next ?t \<and> parent_of ?t (dc_file e) = Some g \<and>
        \<not> is_dir ?t (dc_file e) \<and> mode_of ?t g AND WASMFS_PERM_WRITE = 0"
      using wf_mount [OF wt, of k e g] fresh(2) [of k e g] c(1,2) d(3) by (auto simp: eff)
  qed
  moreover have "wf_parents ?t"
    using wf_parent [OF wt] c(1) d(1) by (auto simp: wf_parents_def eff)
  moreover have "wf_unlinked ?t"
    using wf_dir(1-3) [OF wt] dirne d(2) by (auto simp: wf_unlinked_def eff)
  moreover have "wf_linked ?t"
  proof -
    have "(g, fs_root s) \<in> (insert (c, d) (up s))\<^sup>*" if "(g, fs_root s) \<in> (up s)\<^sup>*" for g
      using that by (rule rtrancl_mono [THEN subsetD, rotated]) auto
    then show ?thesis
      using wf_dir(4,5) [OF wt] dirne by (auto simp: wf_linked_def eff upt)
  qed
  moreover have "wf_table ?t"
    by (rule wf_table_cong [OF wfD(2) [OF wf]]) (simp_all add: eff)
  ultimately show ?thesis by (simp add: wf_fs_def wf_tree_def)
qed

section \<open>The initial state is well-formed\<close>

lemma wf_new_file:
  assumes wf: "wf_fs s" and n: "kind_of n \<noteq> DirectoryKind" and f: "new_file n m b sk s = (c, t)"
  shows "wf_fs t"
proof -
  note wt = wfD(1) [OF wf]
  note eff = new_file_effect [OF f]
  have c: "\<not> is_dir s (fs_next s)" "parent_of s (fs_next s) = None"
    using wf_dir(1) [OF wt] wf_parent(1) [OF wt] by (metis less_irrefl, metis less_irrefl not_None_eq)
  have k: "is_dir t g = is_dir s g" for g
    using c(1) n by (simp add: eff)
  have e: "entries t g = entries s g" "dcache t g = dcache s g" "parent_of t g = parent_of s g" for g
    using c n by (simp_all add: eff)
  have dc: "(k, d) \<in> set (dcache s g) \<Longrightarrow> mode_of t g = mode_of s g" for k d g
    using c(1) by (auto simp: eff)
  have up: "up t = up s" by (simp add: up_def e)
  have "wf_roots t" "wf_maps t" "wf_parents t"
    using wf_root [OF wt] wf_containers [OF wt] wf_parent [OF wt]
    by (simp_all add: wf_roots_def wf_maps_def wf_parents_def k e eff(2-4) less_SucI)
  moreover have "wf_entries t"
    using wf_entry [OF wt] by (simp add: wf_entries_def e eff(2,3) less_SucI)
  moreover have "wf_mounts t"
    using wf_mount [OF wt] dc by (simp add: wf_mounts_def e k eff(2) less_SucI)
  moreover have "wf_unlinked t" "wf_linked t"
    using wf_dir [OF wt] by (simp_all add: wf_unlinked_def wf_linked_def e k up eff(2,3) less_SucI)
  moreover have "wf_table t"
    by (rule wf_table_cong [OF wfD(2) [OF wf]]) (simp_all add: eff)
  ultimately show ?thesis by (simp add: wf_fs_def wf_tree_def)
qed

text \<open>/dev while its mounts are made.\<close>

definition dev_ok :: "fs \<Rightarrow> fid \<Rightarrow> string set \<Rightarrow> bool" where
  "dev_ok s dev N \<longleftrightarrow> wf_fs s \<and> is_dir s dev \<and> parent_of s dev \<noteq> None \<and>
     mode_of s dev AND WASMFS_PERM_WRITE = 0 \<and> entries s dev = [] \<and> fst ` set (dcache s dev) = N \<and>
     fs_root s \<noteq> dev \<and> entries s (fs_root s) = [(''dev'', dev)] \<and> dcache s (fs_root s) = []"

definition loose :: "fs \<Rightarrow> fid \<Rightarrow> bool" where
  "loose s c \<longleftrightarrow> c < fs_next s \<and> \<not> is_dir s c \<and> parent_of s c = None"

lemma mount_dev_step:
  assumes "dev_ok s dev N" "loose s c" "n \<notin> N" "n \<noteq> ''.''" "n \<noteq> ''..''"
  shows "dev_ok (mount dev n c s) dev (insert n N)"
    "x \<noteq> c \<Longrightarrow> loose (mount dev n c s) x = loose s x"
proof -
  obtain p where p: "parent_of s dev = Some p"
    using assms(1) by (auto simp: dev_ok_def)
  have d: "is_dir s dev" using assms(1) by (simp add: dev_ok_def)
  note eff = mount_effect [OF d p, where n = n and c = c]
  have "map_of (dcache s dev) n = None"
    using assms(1,3) by (simp add: dev_ok_def map_of_eq_None_iff)
  then have "child_of s dev n = None"
    using assms p by (simp add: dev_ok_def child_of_def)
  then have "wf_fs (mount dev n c s)"
    using assms by (intro wf_mount_step [OF _ d p]) (auto simp: dev_ok_def loose_def)
  moreover have "dev \<noteq> c" using d assms(2) by (auto simp: loose_def)
  ultimately show "dev_ok (mount dev n c s) dev (insert n N)"
    "x \<noteq> c \<Longrightarrow> loose (mount dev n c s) x = loose s x"
    using assms(1) p by (simp_all add: dev_ok_def loose_def eff keys_omap_insert)
qed

lemma dev_new_file:
  assumes "dev_ok s dev N" "kind_of n \<noteq> DirectoryKind" "new_file n m b sk s = (c, t)"
  shows "dev_ok t dev N" "loose t c" "loose s x \<Longrightarrow> loose t x" "loose s x \<Longrightarrow> x \<noteq> c"
proof -
  note eff = new_file_effect [OF assms(3)]
  have "dev < fs_next s" "fs_root s < fs_next s"
    using assms(1) wf_dir(1) [OF wfD(1)] wf_root(1) [OF wfD(1)] by (auto simp: dev_ok_def)
  then show "dev_ok t dev N"
    using assms wf_new_file [OF _ assms(2,3)] by (simp add: dev_ok_def eff)
  show "loose t c" "loose s x \<Longrightarrow> loose t x" "loose s x \<Longrightarrow> x \<noteq> c"
    using assms(2) eff(1) by (auto simp: loose_def eff(2,8,9))
qed

lemma mount_dev_wf:
  assumes "dev_ok s dev {}" "loose s stdin_file" "loose s stdout_file" "loose s stderr_file"
  shows "\<exists>N. dev_ok (mount_dev dev s) dev N"
proof -
  have ids: "stdin_file \<noteq> stdout_file" "stdin_file \<noteq> stderr_file" "stdout_file \<noteq> stderr_file"
    by (simp_all add: stdin_file_def stdout_file_def stderr_file_def)
  obtain null s1 where 1: "getNull s = (null, s1)" by (rule prod.exhaust)
  note n1 = dev_new_file [OF assms(1) _ 1 [unfolded getNull_def], simplified]
  define s2 where "s2 = mount dev ''null'' null s1"
  have m2: "dev_ok s2 dev {''null''}" "x \<noteq> null \<Longrightarrow> loose s2 x = loose s1 x" for x
    using mount_dev_step [OF n1(1,2), of "''null''"] by (simp_all add: s2_def)
  define s3 where "s3 = mount dev ''stdin'' stdin_file s2"
  have l2: "loose s2 stdin_file" "loose s2 stdout_file" "loose s2 stderr_file"
    using m2(2) n1(3,4) assms(2-4) by simp_all
  have m3: "dev_ok s3 dev {''stdin'', ''null''}" "x \<noteq> stdin_file \<Longrightarrow> loose s3 x = loose s2 x" for x
    using mount_dev_step [OF m2(1) l2(1), of "''stdin''"] by (simp_all add: s3_def)
  define s4 where "s4 = mount dev ''stdout'' stdout_file s3"
  have l3: "loose s3 stdout_file" "loose s3 stderr_file"
    using m3(2) l2 ids by simp_all
  have m4: "dev_ok s4 dev {''stdout'', ''stdin'', ''null''}"
    "x \<noteq> stdout_file \<Longrightarrow> loose s4 x = loose s3 x" for x
    using mount_dev_step [OF m3(1) l3(1), of "''stdout''"] by (simp_all add: s4_def)
  define s5 where "s5 = mount dev ''stderr'' stderr_file s4"
  have l4: "loose s4 stderr_file"
    using m4(2) l3 ids by simp
  have m5: "dev_ok s5 dev {''stderr'', ''stdout'', ''stdin'', ''null''}"
    using mount_dev_step [OF m4(1) l4, of "''stderr''"] by (simp add: s5_def)
  obtain random s6 where 6: "getRandom s5 = (random, s6)" by (rule prod.exhaust)
  note n6 = dev_new_file [OF m5 _ 6 [unfolded getRandom_def], simplified]
  define s7 where "s7 = mount dev ''random'' random s6"
  have m7: "dev_ok s7 dev {''random'', ''stderr'', ''stdout'', ''stdin'', ''null''}"
    using mount_dev_step [OF n6(1,2), of "''random''"] by (simp add: s7_def)
  obtain urandom s8 where 8: "getURandom s7 = (urandom, s8)" by (rule prod.exhaust)
  note n8 = dev_new_file [OF m7 _ 8 [unfolded getURandom_def], simplified]
  have "dev_ok (mount dev ''urandom'' urandom s8) dev
      {''urandom'', ''random'', ''stderr'', ''stdout'', ''stdin'', ''null''}"
    using mount_dev_step [OF n8(1,2), of "''urandom''"] by simp
  moreover have "mount_dev dev s = mount dev ''urandom'' urandom s8"
    by (simp add: mount_dev_def 1 6 8 flip: s2_def s3_def s4_def s5_def s7_def)
  ultimately show ?thesis by auto
qed

lemma mount_frame:
  "fs_root (mount d n c s) = fs_root s" "fs_cwd (mount d n c s) = fs_cwd s"
  "fs_next (mount d n c s) = fs_next s" "fs_table (mount d n c s) = fs_table s"
  "fs_ofnext (mount d n c s) = fs_ofnext s" "mode_of (mount d n c s) f = mode_of s f"
  by (simp_all add: mount_def mountChild_def cacheChild_def Let_def split: option.split)

lemma new_file_frame:
  "fs_root (snd (new_file n m b sk s)) = fs_root s" "fs_cwd (snd (new_file n m b sk s)) = fs_cwd s"
  "fs_next (snd (new_file n m b sk s)) = Suc (fs_next s)"
  "fs_table (snd (new_file n m b sk s)) = fs_table s"
  "fs_ofnext (snd (new_file n m b sk s)) = fs_ofnext s"
  "f \<noteq> fs_next s \<Longrightarrow> mode_of (snd (new_file n m b sk s)) f = mode_of s f"
  by (simp_all add: new_file_def date_now_def Let_def)

lemma mount_dev_frame:
  "fs_root (mount_dev dev s) = fs_root s" "fs_cwd (mount_dev dev s) = fs_cwd s"
  "fs_next (mount_dev dev s) = fs_next s + 3" "fs_table (mount_dev dev s) = fs_table s"
  "fs_ofnext (mount_dev dev s) = fs_ofnext s"
  by (simp_all add: mount_dev_def getNull_def getRandom_def getURandom_def split_beta Let_def
      mount_frame new_file_frame)

lemma mount_dev_mode: "f < fs_next s \<Longrightarrow> mode_of (mount_dev dev s) f = mode_of s f"
  by (simp add: mount_dev_def getNull_def getRandom_def getURandom_def split_beta Let_def
      mount_frame new_file_frame)

text \<open>The root before and after /dev is made.\<close>

lemma wf_init_root:
  assumes "\<And>g. \<not> is_dir s g" "\<And>g. parent_of s g = None" "wf_table s"
  shows "wf_fs (init_root s)"
    "is_dir (init_root s) (fs_root (init_root s))"
    "entries (init_root s) (fs_root (init_root s)) = []"
    "dcache (init_root s) (fs_root (init_root s)) = []"
    "loose s x \<Longrightarrow> loose (init_root s) x"
proof -
  let ?t = "init_root s"
  obtain b u where b: "createMemoryBackend s = (b, u)" by (rule prod.exhaust)
  have u: "fs_heap u = fs_heap s" "fs_next u = fs_next s" "fs_table u = fs_table s"
    "fs_ofiles u = fs_ofiles s" "fs_ofnext u = fs_ofnext s"
    using b by (auto simp: createMemoryBackend_def)
  obtain r v where r: "createDirectory (S_IRUGO OR S_IXUGO OR S_IWUGO) (Some b) u = (r, v)"
    by (rule prod.exhaust)
  note eff = new_file_effect [OF r [unfolded createDirectory_def]]
  have t: "?t = (setParent r (Some r) v)\<lparr>fs_root := r, fs_cwd := r\<rparr>"
    by (simp only: init_root_def b r Let_def prod.case)
  have ents: "entries s g = []" "dcache s g = []" for g
    using assms(1) [of g] by simp_all
  have facts: "fs_root ?t = fs_next s" "fs_cwd ?t = fs_next s" "fs_next ?t = Suc (fs_next s)"
    "kind ?t g = (if g = fs_next s then DirectoryKind else kind s g)"
    "entries ?t g = []" "dcache ?t g = []"
    "parent_of ?t g = (if g = fs_next s then Some (fs_next s) else None)"
    "fs_table ?t = fs_table s" "fs_ofiles ?t = fs_ofiles s" "fs_ofnext ?t = fs_ofnext s" for g
    using assms(1,2) ents by (simp_all add: t eff u)
  have "wf_roots ?t" "wf_entries ?t" "wf_mounts ?t" "wf_maps ?t"
    by (simp_all add: wf_roots_def wf_entries_def wf_mounts_def wf_maps_def good_entries_def facts)
  moreover have "wf_parents ?t" "wf_unlinked ?t" "wf_linked ?t"
    using assms(1) by (auto simp: wf_parents_def wf_unlinked_def wf_linked_def facts split: if_splits)
  moreover have "wf_table ?t"
    by (rule wf_table_cong [OF assms(3)]) (simp_all add: facts)
  ultimately show "wf_fs ?t" by (simp add: wf_fs_def wf_tree_def)
  show "is_dir ?t (fs_root ?t)" "entries ?t (fs_root ?t) = []" "dcache ?t (fs_root ?t) = []"
    "loose s x \<Longrightarrow> loose ?t x"
    by (auto simp: facts loose_def)
qed

text \<open>The file table: three states, one for each stream, counted as \<open>std_offset\<close> says.\<close>

lemma init_FileTable_facts:
  fixes h m
  defines "s \<equiv> init_FileTable (empty_fs h m)"
  shows "\<not> is_dir s g" "parent_of s g = None" "wf_table s"
    "loose s stdin_file" "loose s stdout_file" "loose s stderr_file"
    "fs_table s = [Some 0, Some 1, Some 2]"
proof -
  have s: "init_FileTable (empty_fs h m) = s" by (simp add: s_def)
  note defs = init_FileTable_def push_std_def getStdin_def getStdout_def getStderr_def new_file_def
    date_now_def OpenFileState_create_def empty_fs_def Let_def
  show "\<not> is_dir s g" "parent_of s g = None" "loose s stdin_file" "loose s stdout_file"
    "loose s stderr_file" "fs_table s = [Some 0, Some 1, Some 2]"
    unfolding s_def
    by (simp_all add: defs loose_def stdin_file_def stdout_file_def stderr_file_def)
  show "wf_table s"
    unfolding s_def
    by (auto simp: defs wf_table_def occurs_def std_offset_def less_Suc_eq numeral_3_eq_3)
qed

text \<open>The state in which \<open>initRootDirectory\<close> adds /tmp.\<close>

lemma initRootDirectory_steps:
  assumes s: "\<And>g. \<not> is_dir s g" "\<And>g. parent_of s g = None" "wf_table s"
    and std: "loose s stdin_file" "loose s stdout_file" "loose s stderr_file"
  obtains u dev N where "initRootDirectory s = snd (insertDirectory (fs_next s) ''tmp'' S_IRWXUGO u)"
    "dev_ok u dev N" "dev = Suc (fs_next s)" "fs_root u = fs_next s" "fs_cwd u = fs_next s"
    "fs_next u = fs_next s + 5" "fs_table u = fs_table s" "fs_ofnext u = fs_ofnext s"
    "mode_of u (fs_next s) = 0x41FF"
proof -
  define s1 where "s1 = init_root s"
  define r where "r = fs_next s"
  note init = wf_init_root [OF s, folded s1_def]
  have r1: "fs_root s1 = r" "fs_cwd s1 = r" "fs_next s1 = Suc r" "mode_of s1 r = 0x41FF"
    "fs_table s1 = fs_table s" "fs_ofnext s1 = fs_ofnext s"
    by (simp_all add: s1_def r_def init_root_def createMemoryBackend_def createDirectory_def
        new_file_def date_now_def setParent_def upd_file_def Let_def)
  note wt1 = wfD(1) [OF init(1)]
  have root: "is_dir s1 r" "parent_of s1 r = Some r"
    using init(2) wf_root(2) [OF wt1] by (simp_all add: r1)
  have none: "child_of s1 r ''dev'' = None"
    using init(3,4) root by (simp add: child_of_def r1)
  define dev where "dev = fs_next s1"
  define s2 where "s2 = insert_new r ''dev'' (MemoryDirectory [] []) (0x16D OR S_IFDIR) s1"
  have s2: "insertDirectory r ''dev'' (S_IRUGO OR S_IXUGO) s1 = (Some dev, s2)"
    using inserts_new(2) [OF root(2)] by (simp add: s2_def dev_def)
  note eff2 = insert_new_effect [OF wt1 root(1), of "MemoryDirectory [] []" "''dev''" "0x16D OR S_IFDIR",
      folded s2_def, simplified]
  have dev: "dev = Suc r"
    by (simp add: dev_def r1)
  have wf2: "wf_fs s2"
    unfolding s2_def by (rule wf_insert_new [OF init(1) root none]) simp_all
  have nodev: "entries s1 dev = []" "dcache s1 dev = []"
    using wf_dir(1) [OF wt1, of dev] not_dir_no_entries not_dir_no_dcache
    by (metis dev_def less_irrefl)+
  have ok2: "dev_ok s2 dev {}"
    using wf2 nodev init(3,4) by (simp add: dev_ok_def eff2 r1 dev)
  have std2: "loose s1 x \<Longrightarrow> loose s2 x" for x
    by (auto simp: loose_def eff2)
  define s3 where "s3 = mount_dev dev s2"
  obtain N where ok3: "dev_ok s3 dev N"
    using mount_dev_wf [OF ok2] std init(5) std2 by (auto simp: s3_def)
  have r3: "fs_root s3 = r" "fs_cwd s3 = r" "fs_next s3 = r + 5" "fs_table s3 = fs_table s"
    "fs_ofnext s3 = fs_ofnext s"
    by (simp_all add: s3_def mount_dev_frame eff2 r1)
  have "mode_of s3 r = mode_of s2 r"
    unfolding s3_def by (rule mount_dev_mode) (simp add: eff2 r1)
  then have "mode_of s3 r = 0x41FF"
    by (simp add: eff2 r1)
  moreover have "initRootDirectory s = snd (insertDirectory r ''tmp'' S_IRWXUGO s3)"
    unfolding initRootDirectory_def Let_def s1_def [symmetric] r1(1) s2 prod.case
      option.case s3_def [symmetric] ..
  ultimately show thesis
    using that [OF _ ok3 dev [unfolded r_def]] r3 by (simp add: r_def)
qed

text \<open>The result: /dev with its mounts, and an empty /tmp, in a well-formed state.\<close>

lemma initRootDirectory_tree:
  fixes s
  assumes s: "\<And>g. \<not> is_dir s g" "\<And>g. parent_of s g = None" "wf_table s"
    and std: "loose s stdin_file" "loose s stdout_file" "loose s stderr_file"
  defines "r \<equiv> fs_next s" and "t \<equiv> initRootDirectory s"
  shows "wf_fs t" "fs_root t = r" "fs_cwd t = r" "fs_next t = r + 6"
    "entries t r = [(''dev'', Suc r), (''tmp'', r + 5)]" "dcache t r = []" "mode_of t r = 0x41FF"
    "is_dir t (r + 5)" "entries t (r + 5) = []" "dcache t (r + 5) = []"
    "parent_of t (r + 5) = Some r" "mode_of t (r + 5) = 0x41FF"
    "is_dir t (Suc r)" "parent_of t (Suc r) = Some r"
    "fs_table t = fs_table s" "fs_ofnext t = fs_ofnext s"
proof -
  obtain u dev N where u: "t = snd (insertDirectory r ''tmp'' S_IRWXUGO u)"
    "dev_ok u dev N" "dev = Suc r" "fs_root u = r" "fs_cwd u = r" "fs_next u = r + 5"
    "fs_table u = fs_table s" "fs_ofnext u = fs_ofnext s" "mode_of u r = 0x41FF"
    using initRootDirectory_steps [OF s std] unfolding r_def t_def by blast
  have wu: "wf_fs u" using u(2) by (simp add: dev_ok_def)
  note wt = wfD(1) [OF wu]
  have root: "is_dir u r" "parent_of u r = Some r"
    using wf_root [OF wt] by (simp_all add: u(4))
  have r: "entries u r = [(''dev'', dev)]" "dcache u r = []"
    using u(2) by (simp_all add: dev_ok_def u(4))
  have none: "child_of u r ''tmp'' = None"
    using r root by (simp add: child_of_def)
  have t: "t = insert_new r ''tmp'' (MemoryDirectory [] []) 0x41FF u"
    using inserts_new(2) [OF root(2)] by (simp add: u(1))
  note eff = insert_new_effect [OF wt root(1), of "MemoryDirectory [] []" "''tmp''" "0x41FF",
      folded t, simplified]
  have new: "entries u (r + 5) = []" "dcache u (r + 5) = []"
    using wf_dir(1) [OF wt, of "r + 5"] not_dir_no_entries not_dir_no_dcache
    by (metis u(6) less_irrefl)+
  show "wf_fs t"
    unfolding t by (rule wf_insert_new [OF wu root none]) simp_all
  show "fs_root t = r" "fs_cwd t = r" "fs_next t = r + 6"
    "entries t r = [(''dev'', Suc r), (''tmp'', r + 5)]" "dcache t r = []" "mode_of t r = 0x41FF"
    "is_dir t (r + 5)" "entries t (r + 5) = []" "dcache t (r + 5) = []"
    "parent_of t (r + 5) = Some r" "mode_of t (r + 5) = 0x41FF"
    "fs_table t = fs_table s" "fs_ofnext t = fs_ofnext s"
    using new r by (simp_all add: eff u(3-))
  show "is_dir t (Suc r)" "parent_of t (Suc r) = Some r"
    using u(2,3,6) wf_entry(2) [OF wt, of "''dev''" dev r] r by (simp_all add: eff dev_ok_def)
qed

lemma WasmFS_init_wf: "wf_fs (WasmFS_init h m)"
  unfolding WasmFS_init_def
  by (rule initRootDirectory_tree(1)) (rule init_FileTable_facts)+

end
