(* ===== verification/Demo.thy ===== *)
theory Demo
  imports Init
begin

text \<open>
  A concrete file system, built by the model's own constructors and calls from a concrete host,
  on which the theorems of the other theories are applied.
\<close>

text \<open>A host with a clock that stands still, an empty stdin, and stdout and stderr that take all.\<close>

definition demo_host :: host where
  "demo_host = \<lparr>host_date_now = \<lambda>_. Fin 0, host_read_stdin = \<lambda>_ _ _. (0, []),
     host_write_std = \<lambda>_ _ data _. of_nat (length data), host_getentropy = \<lambda>_ n. replicate n 0\<rparr>"

text \<open>The state after the constructor; each byte of memory holds the low byte of its address.\<close>

definition demo_fs :: fs where
  "demo_fs = WasmFS_init demo_host ucast"

lemma demo_wf: "wf_fs demo_fs"
  unfolding demo_fs_def by (rule WasmFS_init_wf)

lemma demo_tree:
  "fs_root demo_fs = 3" "fs_cwd demo_fs = 3" "fs_next demo_fs = 9"
  "entries demo_fs 3 = [(''dev'', 4), (''tmp'', 8)]" "dcache demo_fs 3 = []"
  "mode_of demo_fs 3 = 0x41FF" "is_dir demo_fs 8" "entries demo_fs 8 = []"
  "dcache demo_fs 8 = []" "parent_of demo_fs 8 = Some 3" "mode_of demo_fs 8 = 0x41FF"
  "is_dir demo_fs 4" "parent_of demo_fs 4 = Some 3"
  "fs_table demo_fs = [Some 0, Some 1, Some 2]" "fs_ofnext demo_fs = 3"
proof -
  have n: "fs_next (init_FileTable (empty_fs demo_host ucast)) = 3"
    "fs_ofnext (init_FileTable (empty_fs demo_host ucast)) = 3"
    by (simp_all add: init_FileTable_def push_std_def getStdin_def getStdout_def getStderr_def
        new_file_def date_now_def OpenFileState_create_def empty_fs_def Let_def)
  note facts = init_FileTable_facts [of demo_host ucast]
  note tree = initRootDirectory_tree [OF facts(1-6), unfolded n facts(7), folded WasmFS_init_def demo_fs_def]
  show "fs_root demo_fs = 3" "fs_cwd demo_fs = 3" "fs_next demo_fs = 9"
    "entries demo_fs 3 = [(''dev'', 4), (''tmp'', 8)]" "dcache demo_fs 3 = []"
    "mode_of demo_fs 3 = 0x41FF" "is_dir demo_fs 8" "entries demo_fs 8 = []"
    "dcache demo_fs 8 = []" "parent_of demo_fs 8 = Some 3" "mode_of demo_fs 8 = 0x41FF"
    "is_dir demo_fs 4" "parent_of demo_fs 4 = Some 3"
    "fs_table demo_fs = [Some 0, Some 1, Some 2]" "fs_ofnext demo_fs = 3"
    using tree by simp_all
qed

end
