(* ===== verification/Data_Laws.thy ===== *)
theory Data_Laws
  imports Demo
begin

text \<open>
  What a program sees when it reads and writes through descriptors: round trips, positions,
  limits, truncation and pipes. Each law speaks of the calls of syscalls.cpp and their results.
\<close>

section \<open>A concrete state\<close>

text \<open>One memory file with three bytes, open for reading and writing on descriptor 0.\<close>

definition demo_data :: fs where
  "demo_data = (empty_fs demo_host ucast)
    \<lparr>fs_heap := \<lambda>_. \<lparr>f_node = MemoryDataFile [1, 2, 3], f_mode = 0x81B6, f_atime = Fin 0,
        f_mtime = Fin 0, f_ctime = Fin 0, f_parent = None, f_backend = None, f_seekable = True\<rparr>,
     fs_table := [Some 0], fs_ofnext := 1, fs_next := 1\<rparr>"

lemma demo_data_simps [simp]:
  "open_memory demo_data 0 0 [1, 2, 3]" "isSeekable demo_data f" "file_of demo_data 0 = 0"
  "of_position (fs_ofiles demo_data 0) = 0" "\<not> appending demo_data 0"
  "getEntry 0 demo_data = Some 0" "mode_of demo_data f = 0x81B6"
  by (simp_all add: demo_data_def empty_fs_def open_memory_def getEntry_def tbl_get_def appending_def)

definition demo_iovs :: "iovec list" where
  "demo_iovs = [\<lparr>iov_buf = 16, iov_len = 2\<rparr>, \<lparr>iov_buf = 32, iov_len = 3\<rparr>]"

lemma demo_iovs_simps [simp]:
  "valid_iovs demo_iovs" "demo_iovs \<noteq> []" "length (gather s demo_iovs) = 5" "iov_total demo_iovs = 5"
  by (simp_all add: demo_iovs_def valid_iovs_def length_gather)

section \<open>Round trips\<close>

abbreviation one_iov :: "u32 \<Rightarrow> u32 \<Rightarrow> iovec list" where
  "one_iov buf len \<equiv> [\<lparr>iov_buf = buf, iov_len = len\<rparr>]"

lemma valid_one_iov [simp]: "valid_iovs (one_iov buf len) \<longleftrightarrow> (buf = 0 \<longrightarrow> len = 0)"
  by (simp add: valid_iovs_def)

lemma seek_to:
  assumes "getEntry fd s = Some oid" "isSeekable s (file_of s oid)" "0 \<le> sint off"
  shows "wasi_fd_seek fd off 0 nw s =
    Some ((0, if nw \<noteq> 0 then Some off else None), setPosition oid off s)"
  using assms sint_lt [of off] by (simp add: wasi_fd_seek_def Let_def)

lemma mem_read_setPosition: "mem_read (setPosition oid p s) a n = mem_read s a n"
  by (simp add: mem_read_def)

lemma of_nat_length: "unat len = n \<Longrightarrow> of_nat n = len" for len :: "'a::len word"
  by auto

text \<open>
  C7: What \<open>pwrite\<close> gathers from any number of buffers, \<open>pread\<close> at the same offset delivers again,
  byte for byte, into a buffer of that length, and neither call moves a file position.
\<close>

theorem pwrite_pread_roundtrip:
  assumes "open_memory s fd oid b" "valid_iovs iovs" "iovs \<noteq> []"
    and "unat offset + length (gather s iovs) \<le> 0x7FFFFFFF"
    and "buf \<noteq> 0" "unat len = length (gather s iovs)"
  shows "\<exists>t u. wasi_fd_pwrite fd iovs offset s = Some ((0, Some len), t) \<and>
    wasi_fd_pread fd [\<lparr>iov_buf = buf, iov_len = len\<rparr>] offset t = Some ((0, Some len), u) \<and>
    mem_read u buf len = gather s iovs \<and> fs_ofiles u = fs_ofiles s"
proof (rule pwrite_memory [OF assms(1-4)])
  fix t
  assume t: "wasi_fd_pwrite fd iovs offset s = Some ((0, Some (of_nat (length (gather s iovs)))), t)"
    "open_memory t fd oid (write_spec (unat offset) (gather s iovs) b)" "fs_ofiles t = fs_ofiles s"
  have "wasi_fd_pread fd (one_iov buf len) offset t =
      Some ((0, Some len), t\<lparr>fs_mem := mem_store buf (gather s iovs) (fs_mem t)\<rparr>)"
    using pread_memory [OF t(2), of "one_iov buf len" offset] assms(4-6)
    by (simp add: read_write_spec [of "gather s iovs"] of_nat_length Let_def)
  then show ?thesis
    using t(1,3) assms(6) by (simp add: mem_read_store of_nat_length)
qed

lemma pwrite_pread_roundtrip_witness:
  "\<exists>t u. wasi_fd_pwrite 0 demo_iovs 7 demo_data = Some ((0, Some 5), t) \<and>
    wasi_fd_pread 0 [\<lparr>iov_buf = 64, iov_len = 5\<rparr>] 7 t = Some ((0, Some 5), u) \<and>
    mem_read u 64 5 = gather demo_data demo_iovs \<and> fs_ofiles u = fs_ofiles demo_data"
  by (rule pwrite_pread_roundtrip [of demo_data 0 0 "[1, 2, 3]"]) simp_all

text \<open>
  C8: \<open>write\<close> on a seekable memory file stores all the buffers at the position, or at the end of
  the file in append mode, grows the file with zeros over a gap, advances the position behind the
  last byte written, and leaves the position of every other open file alone.
\<close>

theorem fd_write_spec:
  assumes "open_memory s fd oid b" "valid_iovs iovs" "iovs \<noteq> []" "isSeekable s (file_of s oid)"
    and "write_base s oid b + length (gather s iovs) \<le> 0x7FFFFFFF"
  shows "\<exists>t b'. wasi_fd_write fd iovs s = Some ((0, Some (of_nat (length (gather s iovs)))), t) \<and>
    open_memory t fd oid b' \<and>
    length b' = max (length b) (write_base s oid b + length (gather s iovs)) \<and>
    (\<forall>i. i < length b' \<longrightarrow> b' ! i =
      (if i < write_base s oid b then if i < length b then b ! i else 0
       else if i < write_base s oid b + length (gather s iovs)
         then gather s iovs ! (i - write_base s oid b) else b ! i)) \<and>
    of_position (fs_ofiles t oid) = of_nat (write_base s oid b + length (gather s iovs)) \<and>
    (\<forall>x. x \<noteq> oid \<longrightarrow> fs_ofiles t x = fs_ofiles s x)"
proof (rule write_memory [OF assms])
  fix t
  assume "wasi_fd_write fd iovs s = Some ((0, Some (of_nat (length (gather s iovs)))), t)"
    "open_memory t fd oid (write_spec (write_base s oid b) (gather s iovs) b)"
    "of_position (fs_ofiles t oid) = of_nat (write_base s oid b + length (gather s iovs))"
    "\<And>x. x \<noteq> oid \<Longrightarrow> fs_ofiles t x = fs_ofiles s x"
  moreover have "\<forall>i. i < length (write_spec (write_base s oid b) (gather s iovs) b) \<longrightarrow>
      write_spec (write_base s oid b) (gather s iovs) b ! i =
      (if i < write_base s oid b then if i < length b then b ! i else 0
       else if i < write_base s oid b + length (gather s iovs)
         then gather s iovs ! (i - write_base s oid b) else b ! i)"
    by (simp add: nth_write_spec)
  ultimately show ?thesis
    by (intro exI [of _ t] exI [of _ "write_spec (write_base s oid b) (gather s iovs) b"]) simp
qed

lemma fd_write_spec_witness:
  "\<exists>t b'. wasi_fd_write 0 demo_iovs demo_data = Some ((0, Some 5), t) \<and> open_memory t 0 0 b' \<and>
    length b' = 5 \<and> of_position (fs_ofiles t 0) = 5"
  using fd_write_spec [of demo_data 0 0 "[1, 2, 3]" demo_iovs] by (auto simp: write_base_def)

text \<open>
  Writing, seeking back to where the write started and reading the same number of bytes gives
  the bytes written, and leaves the position where the write left it.
\<close>

theorem write_seek_read:
  assumes "open_memory s fd oid b" "valid_iovs iovs" "iovs \<noteq> []" "isSeekable s (file_of s oid)"
    and "write_base s oid b + length (gather s iovs) \<le> 0x7FFFFFFF"
    and "buf \<noteq> 0" "unat len = length (gather s iovs)"
  shows "\<exists>t u v. wasi_fd_write fd iovs s = Some ((0, Some len), t) \<and>
    wasi_fd_seek fd (of_nat (write_base s oid b)) 0 0 t = Some ((0, None), u) \<and>
    wasi_fd_read fd [\<lparr>iov_buf = buf, iov_len = len\<rparr>] u = Some ((0, Some len), v) \<and>
    mem_read v buf len = gather s iovs \<and>
    of_position (fs_ofiles v oid) = of_position (fs_ofiles t oid)"
proof (rule write_memory [OF assms(1-5)])
  define k where "k = write_base s oid b"
  have k: "k + length (gather s iovs) \<le> 0x7FFFFFFF" "unat (of_nat k :: u64) = k"
    using assms(5) by (simp_all add: k_def unat_of_nat)
  fix t
  assume t: "wasi_fd_write fd iovs s = Some ((0, Some (of_nat (length (gather s iovs)))), t)"
    "open_memory t fd oid (write_spec (write_base s oid b) (gather s iovs) b)"
    "of_position (fs_ofiles t oid) = of_nat (write_base s oid b + length (gather s iovs))"
    "file_of t oid = file_of s oid" "isSeekable t (file_of s oid)"
  define u where "u = setPosition oid (of_nat k) t"
  have u: "wasi_fd_seek fd (of_nat k) 0 0 t = Some ((0, None), u)"
    using seek_to [of fd t oid "of_nat k" 0] t k by (simp add: u_def open_memory_def)
  have "open_memory u fd oid (write_spec k (gather s iovs) b)" "isSeekable u (file_of u oid)"
    "of_position (fs_ofiles u oid) = of_nat k"
    using t by (simp_all add: u_def k_def open_memory_def getEntry_def)
  from read_memory [OF this(1) _ this(2), of "one_iov buf len", unfolded this(3) Let_def k(2)]
  have "wasi_fd_read fd (one_iov buf len) u = Some ((0, Some len),
      setPosition oid (of_nat k + of_nat (unat len)) (u\<lparr>fs_mem := mem_store buf (gather s iovs) (fs_mem u)\<rparr>))"
    using assms(6,7) k(1) by (simp add: read_write_spec [of "gather s iovs"] of_nat_length)
  then show ?thesis
    using t u assms(7) by (auto simp: k_def of_nat_length mem_read_store mem_read_setPosition)
qed

lemma write_seek_read_witness:
  "\<exists>t u v. wasi_fd_write 0 demo_iovs demo_data = Some ((0, Some 5), t) \<and>
    wasi_fd_seek 0 (of_nat 0) 0 0 t = Some ((0, None), u) \<and>
    wasi_fd_read 0 [\<lparr>iov_buf = 64, iov_len = 5\<rparr>] u = Some ((0, Some 5), v) \<and>
    mem_read v 64 5 = gather demo_data demo_iovs \<and>
    of_position (fs_ofiles v 0) = of_position (fs_ofiles t 0)"
  using write_seek_read [of demo_data 0 0 "[1, 2, 3]" demo_iovs 64 5] by (simp add: write_base_def)


section \<open>Consecutive reads\<close>

lemma scatter_append:
  "scatter (xs @ ys) bs m = scatter ys (drop (iov_total xs) bs) (scatter xs (take (iov_total xs) bs) m)"
proof (induction xs arbitrary: bs m)
  case (Cons x xs)
  then show ?case
    by (simp add: drop_take add.commute min_def)
qed simp

lemma iov_total_append [simp]: "iov_total (xs @ ys) = iov_total xs + iov_total ys"
  by (induction xs) simp_all

text \<open>
  C9: Two \<open>read\<close> calls in a row on a memory file return together what one \<open>read\<close> into both lists of
  buffers returns: the same number of bytes, the same memory and the same position, short reads at
  the end of the file included.
\<close>

theorem reads_are_consecutive:
  assumes "open_memory s fd oid b" "valid_iovs xs" "valid_iovs ys" "isSeekable s (file_of s oid)"
    and "unat (of_position (fs_ofiles s oid)) + (iov_total xs + iov_total ys) \<le> 0x7FFFFFFF"
  shows "\<exists>n m t u. wasi_fd_read fd xs s = Some ((0, Some n), t) \<and>
    wasi_fd_read fd ys t = Some ((0, Some m), u) \<and>
    wasi_fd_read fd (xs @ ys) s = Some ((0, Some (n + m)), u) \<and> unat (n + m) = unat n + unat m"
proof -
  define p where "p = of_position (fs_ofiles s oid)"
  define rest where "rest = drop (unat p) b"
  define bs where "bs = take (iov_total xs) rest"
  define t where "t = setPosition oid (p + of_nat (length bs)) (s\<lparr>fs_mem := scatter xs bs (fs_mem s)\<rparr>)"
  have fits: "unat p + (iov_total xs + iov_total ys) \<le> 0x7FFFFFFF"
    using assms(5) by (simp add: p_def)
  have n: "length bs \<le> iov_total xs" by (simp add: bs_def)
  have r1: "wasi_fd_read fd xs s = Some ((0, Some (of_nat (length bs))), t)"
    using read_memory [OF assms(1,2,4)] fits by (simp add: Let_def t_def bs_def rest_def p_def)
  have pos: "unat (p + of_nat (length bs)) = unat p + length bs"
    using unat_add_u64 [of p "of_nat (length bs)"] fits n by (simp add: unat_of_nat)
  define cs where "cs = take (iov_total ys) (drop (length bs) rest)"
  have t: "open_memory t fd oid b" "isSeekable t (file_of t oid)"
    "of_position (fs_ofiles t oid) = p + of_nat (length bs)" "fs_mem t = scatter xs bs (fs_mem s)"
    using assms(1,4) by (simp_all add: t_def open_memory_def getEntry_def)
  have cs: "take (iov_total ys) (drop (unat p + length bs) b) = cs"
    by (simp add: cs_def rest_def ac_simps)
  have r2: "wasi_fd_read fd ys t = Some ((0, Some (of_nat (length cs))),
      setPosition oid (p + of_nat (length bs) + of_nat (length cs)) (t\<lparr>fs_mem := scatter ys cs (fs_mem t)\<rparr>))"
    using read_memory [OF t(1) assms(3) t(2), unfolded Let_def t(3) pos cs] fits n by simp
  have all: "take (iov_total xs + iov_total ys) rest = bs @ cs"
  proof (cases "length rest < iov_total xs")
    case True
    then show ?thesis by (simp add: bs_def cs_def)
  next
    case False
    then have "length bs = iov_total xs" by (simp add: bs_def)
    then show ?thesis by (simp add: bs_def cs_def take_add)
  qed
  have short: "length bs = iov_total xs \<or> cs = []"
    by (auto simp: bs_def cs_def min_def)
  have both: "valid_iovs (xs @ ys)"
    using assms(2,3) by (auto simp: valid_iovs_def)
  have parts: "take (iov_total xs) (bs @ cs) = bs" "scatter ys (drop (iov_total xs) (bs @ cs)) m = scatter ys cs m" for m
    using short n by auto
  have "wasi_fd_read fd (xs @ ys) s = Some ((0, Some (of_nat (length bs + length cs))),
      setPosition oid (p + of_nat (length bs + length cs))
        (s\<lparr>fs_mem := scatter ys cs (scatter xs bs (fs_mem s))\<rparr>))"
    using read_memory [OF assms(1) both assms(4), folded p_def, unfolded Let_def iov_total_append,
        folded rest_def, unfolded all scatter_append parts length_append] fits by blast
  moreover have "setPosition oid (p + of_nat (length bs + length cs))
        (s\<lparr>fs_mem := scatter ys cs (scatter xs bs (fs_mem s))\<rparr>) =
      setPosition oid (p + of_nat (length bs) + of_nat (length cs)) (t\<lparr>fs_mem := scatter ys cs (fs_mem t)\<rparr>)"
    by (simp add: t_def t(4) fs_defs add.assoc)
  moreover have "length cs \<le> iov_total ys" by (simp add: cs_def)
  then have "unat (of_nat (length bs) + of_nat (length cs) :: u32) =
      unat (of_nat (length bs) :: u32) + unat (of_nat (length cs) :: u32)"
    using fits n by (intro unat_add_u32) (simp add: unat_of_nat)
  ultimately show ?thesis
    using r1 r2 by (auto simp: of_nat_add)
qed

lemma reads_are_consecutive_witness:
  "\<exists>n m t u. wasi_fd_read 0 [\<lparr>iov_buf = 64, iov_len = 2\<rparr>] demo_data = Some ((0, Some n), t) \<and>
    wasi_fd_read 0 demo_iovs t = Some ((0, Some m), u) \<and>
    wasi_fd_read 0 ([\<lparr>iov_buf = 64, iov_len = 2\<rparr>] @ demo_iovs) demo_data = Some ((0, Some (n + m)), u) \<and>
    unat (n + m) = unat n + unat m"
  by (rule reads_are_consecutive [of demo_data 0 0 "[1, 2, 3]"]) simp_all

section \<open>Limits\<close>

lemma set_node_same: "node_of s f = n \<Longrightarrow> set_node f n s = s"
  by (auto simp: fs_defs intro!: fs.equality)



section \<open>Sizes\<close>

lemma ftruncate_memory:
  assumes "open_memory s fd oid b" "mode_of s (file_of s oid) AND WASMFS_PERM_WRITE \<noteq> 0"
    and "0 \<le> sint sz" "unat sz mod 2 ^ 32 \<le> MAX_SIZE"
  shows "syscall_ftruncate64 fd sz s =
    Some (0, set_node (file_of s oid) (MemoryDataFile (resize (unat sz mod 2 ^ 32) b)) s)"
  using assms
  by (simp add: syscall_ftruncate64_def doTruncate_def df_setSize_def memdata_setSize_def
      open_memory_def unat_ucast_u32 neg_errno_def Let_def)

text \<open>
  C11: \<open>ftruncate\<close> cuts the file or extends it with zeros, and leaves the positions, the memory and the
  other files alone. The size is taken modulo $2^{32}$: asked for $2^{32} + n$ bytes the call succeeds, and
  leaves a file of $n$ bytes.
\<close>

theorem ftruncate_spec:
  assumes "open_memory s fd oid b" "mode_of s (file_of s oid) AND 0x92 \<noteq> 0"
    and "0 \<le> sint sz" "unat sz mod 2 ^ 32 \<le> 0x7FFFFFFF"
  shows "\<exists>t b'. syscall_ftruncate64 fd sz s = Some (0, t) \<and> open_memory t fd oid b' \<and>
    length b' = unat sz mod 2 ^ 32 \<and> (\<forall>i. i < length b' \<longrightarrow> b' ! i = (if i < length b then b ! i else 0)) \<and>
    fs_ofiles t = fs_ofiles s \<and> fs_mem t = fs_mem s \<and>
    (\<forall>g. g \<noteq> file_of s oid \<longrightarrow> fs_heap t g = fs_heap s g)"
proof -
  define n where "n = unat sz mod 2 ^ 32"
  define t where "t = set_node (file_of s oid) (MemoryDataFile (resize n b)) s"
  have "syscall_ftruncate64 fd sz s = Some (0, t)"
    using ftruncate_memory [OF assms] by (simp add: t_def n_def)
  moreover have "open_memory t fd oid (resize n b)" "fs_ofiles t = fs_ofiles s" "fs_mem t = fs_mem s"
    using assms(1,4) by (simp_all add: t_def n_def open_memory_def getEntry_def)
  moreover have "g \<noteq> file_of s oid \<Longrightarrow> fs_heap t g = fs_heap s g" for g
    by (simp add: t_def fs_defs)
  ultimately show ?thesis
    unfolding n_def [symmetric] by (intro exI [of _ t] exI [of _ "resize n b"]) (simp add: nth_resize)
qed

lemma ftruncate_spec_witness:
  "(\<exists>t b'. syscall_ftruncate64 0 2 demo_data = Some (0, t) \<and> open_memory t 0 0 b' \<and> length b' = 2) \<and>
   (\<exists>t b'. syscall_ftruncate64 0 0x100000001 demo_data = Some (0, t) \<and> open_memory t 0 0 b' \<and> length b' = 1)"
  using ftruncate_spec [of demo_data 0 0 "[1, 2, 3]" 2] ftruncate_spec [of demo_data 0 0 "[1, 2, 3]" "0x100000001"]
  by auto

text \<open>The second half on its own: \<open>ftruncate\<close> to $2^{32} + n$ bytes.\<close>

theorem ftruncate_cuts_the_size:
  assumes "open_memory s fd oid b" "mode_of s (file_of s oid) AND 0x92 \<noteq> 0" "n \<le> 0x7FFFFFFF"
  shows "\<exists>t. syscall_ftruncate64 fd (of_nat (2 ^ 32 + n)) s = Some (0, t) \<and>
    node_of t (file_of s oid) = MemoryDataFile (resize n b)"
proof -
  have u: "unat (of_nat (2 ^ 32 + n) :: u64) = 2 ^ 32 + n"
    using assms(3) unfolding unat_of_nat by simp
  have "0 \<le> sint (of_nat (2 ^ 32 + n) :: u64)"
    by (subst sint_below_half) (use u assms(3) in auto)
  then have "syscall_ftruncate64 fd (of_nat (2 ^ 32 + n)) s =
      Some (0, set_node (file_of s oid) (MemoryDataFile (resize n b)) s)"
    using ftruncate_memory [OF assms(1,2), of "of_nat (2 ^ 32 + n)"] assms(3) unfolding u by simp
  then show ?thesis by simp
qed

lemma ftruncate_cuts_the_size_witness:
  "\<exists>t. syscall_ftruncate64 0 (of_nat (2 ^ 32 + 2)) demo_data = Some (0, t) \<and>
    node_of t 0 = MemoryDataFile [1, 2]"
  using ftruncate_cuts_the_size [of demo_data 0 0 "[1, 2, 3]" 2] by (simp add: resize_def)

section \<open>Seeking\<close>

definition seek_base :: "byte \<Rightarrow> fs \<Rightarrow> ofid \<Rightarrow> byte list \<Rightarrow> int" where
  "seek_base whence s oid b =
    (if whence = 0 then 0 else if whence = 1 then sint (of_position (fs_ofiles s oid))
     else int (length b))"

lemma sint_of_nat_size: "n \<le> MAX_SIZE \<Longrightarrow> sint (of_nat n :: u64) = int n"
  by (subst sint_below_half) (simp_all add: unat_of_nat)

lemma sint_add_in_range:
  fixes v w :: u64
  assumes "- (2 ^ 63) \<le> sint v + sint w" "sint v + sint w < 2 ^ 63"
  shows "sint (v + w) = sint v + sint w"
proof -
  have "v + w = word_of_int (sint v + sint w)"
    by simp
  then have "sint (v + w) = (sint v + sint w + 2 ^ 63) mod 2 ^ 64 - 2 ^ 63"
    by (simp only: int_word_sint) simp
  then show ?thesis
    using assms by (simp add: mod_pos_pos_trivial)
qed

lemma seek_memory:
  fixes offset
  assumes "open_memory s fd oid b" "isSeekable s (file_of s oid)" "whence \<in> {0, 1, 2}"
  defines "tot \<equiv> seek_base whence s oid b + sint offset"
  defines "base \<equiv> (if whence = 0 then 0 else if whence = 1 then of_position (fs_ofiles s oid)
      else of_nat (length b))"
  shows "wasi_fd_seek fd offset whence nw s =
    (if tot < - (2 ^ 63) \<or> 2 ^ 63 \<le> tot then None
     else if tot < 0 then Some ((wasi EINVAL, None), s)
     else Some ((0, if nw \<noteq> 0 then Some (base + offset) else None), setPosition oid (base + offset) s))"
    "sint base = seek_base whence s oid b"
proof -
  show s: "sint base = seek_base whence s oid b"
    using assms(1,3) sint_of_nat_size by (auto simp: base_def seek_base_def open_memory_def)
  have size: "getSize (file_of s oid) s = of_nat (length b)" "\<not> sint (getSize (file_of s oid) s) < 0"
    using assms(1) sint_of_nat_size by (simp_all add: getSize_def open_memory_def)
  then show "wasi_fd_seek fd offset whence nw s =
    (if tot < - (2 ^ 63) \<or> 2 ^ 63 \<le> tot then None
     else if tot < 0 then Some ((wasi EINVAL, None), s)
     else Some ((0, if nw \<noteq> 0 then Some (base + offset) else None), setPosition oid (base + offset) s))"
    using assms(1-3) s
    by (auto simp: wasi_fd_seek_def Let_def open_memory_def tot_def base_def seek_base_def)
qed

text \<open>
  C12: \<open>seek\<close> from the start, the position or the end of a memory file moves the position to the sum
  of that base and the offset when the sum is a non-negative \<open>off_t\<close>; \<open>tell\<close> then reports it. A
  negative sum is \<open>EINVAL\<close> and moves nothing.
\<close>

theorem seek_then_tell:
  assumes "open_memory s fd oid b" "isSeekable s (file_of s oid)" "whence \<in> {0, 1, 2}"
    and "- (2 ^ 63) \<le> seek_base whence s oid b + sint offset"
    and "seek_base whence s oid b + sint offset < 2 ^ 63"
  shows "if seek_base whence s oid b + sint offset < 0
    then wasi_fd_seek fd offset whence 1 s = Some ((wasi EINVAL, None), s)
    else \<exists>p t. wasi_fd_seek fd offset whence 1 s = Some ((0, Some p), t) \<and>
      sint p = seek_base whence s oid b + sint offset \<and> fd_tell fd t = ((0, Some p), t) \<and>
      open_memory t fd oid b"
proof -
  define base where "base = (if whence = 0 then 0 else if whence = 1
      then of_position (fs_ofiles s oid) else of_nat (length b) :: u64)"
  note run = seek_memory(1) [OF assms(1-3), where offset = offset and nw = 1, folded base_def]
    seek_memory(2) [OF assms(1-3), folded base_def]
  have "sint (base + offset) = seek_base whence s oid b + sint offset"
    unfolding run(2) [symmetric] by (rule sint_add_in_range) (use assms(4,5) run(2) in simp_all)
  moreover have "open_memory (setPosition oid (base + offset) s) fd oid b"
    "getEntry fd (setPosition oid (base + offset) s) = Some oid"
    using assms(1) by (simp_all add: open_memory_def getEntry_def)
  ultimately show ?thesis
    using run(1) assms(4,5) by (simp add: fd_tell_def)
qed

lemma seek_then_tell_witness:
  "\<exists>p t. wasi_fd_seek 0 (- 1) 2 1 demo_data = Some ((0, Some p), t) \<and> sint p = 2 \<and>
    fd_tell 0 t = ((0, Some p), t) \<and> open_memory t 0 0 [1, 2, 3]"
  using seek_then_tell [of demo_data 0 0 "[1, 2, 3]" 2 "- 1"] by (simp add: seek_base_def)

section \<open>Pipes\<close>

text \<open>A descriptor is open on an end of the pipe \<open>p\<close>.\<close>

definition open_pipe :: "fs \<Rightarrow> u32 \<Rightarrow> ofid \<Rightarrow> nat \<Rightarrow> bool" where
  "open_pipe s fd oid p \<longleftrightarrow> getEntry fd s = Some oid \<and> node_of s (file_of s oid) = PipeFile p \<and>
     \<not> isSeekable s (file_of s oid) \<and> \<not> appending s oid"

lemma open_pipe_cong:
  assumes "open_pipe s fd oid p" "fs_table t = fs_table s" "fs_ofiles t = fs_ofiles s"
    and "\<And>g. node_of t g = node_of s g" "\<And>g. isSeekable t g = isSeekable s g"
  shows "open_pipe t fd oid p"
  using assms by (simp add: open_pipe_def getEntry_def appending_def)

lemma updateMTime_pipes [simp]: "fs_pipes (updateMTime f s) = fs_pipes s"
  by (simp add: fs_defs)

lemma pipe_write:
  assumes w: "open_pipe s fd oid p" and buf: "buf \<noteq> 0" "unat len \<le> MAX_SIZE"
  obtains t where "wasi_fd_write fd (one_iov buf len) s = Some ((0, Some len), t)"
    "fs_pipes t = (fs_pipes s)(p := fs_pipes s p @ mem_read s buf len)"
    "fs_mem t = fs_mem s" "fs_table t = fs_table s" "fs_ofiles t = fs_ofiles s"
    "\<And>g. node_of t g = node_of s g" "\<And>g. isSeekable t g = isSeekable s g"
proof -
  define u where "u = s\<lparr>fs_pipes := (fs_pipes s)(p := fs_pipes s p @ mem_read s buf len)\<rparr>"
  define f where "f = file_of s oid"
  have data: "node_of s f = PipeFile p" "is_data s f" "getEntry fd s = Some oid"
    "\<not> isSeekable u f" "of_flags (fs_ofiles s oid) AND O_APPEND = 0"
    using w by (simp_all add: open_pipe_def f_def u_def appending_def)
  have "df_write f (mem_read s buf len) off s = Some (len, u)" for off
    by (simp add: df_write_def data u_def)
  then have "write_loop f off (one_iov buf len) 0 s = Some (Inr len, u)" for off
    using buf sint_small(2) [OF buf(2)] by (simp add: addWillOverFlow_def)
  then have "wasi_fd_write fd (one_iov buf len) s =
      Some ((0, Some len), if len \<noteq> 0 then updateMTime f u else u)"
    using data by (simp add: wasi_fd_write_def writeAtOffset_def Let_def flip: f_def)
  then show thesis
    by (rule that) (simp_all add: u_def)
qed

lemma pipe_read:
  assumes r: "open_pipe s fd oid p" and buf: "buf \<noteq> 0" "unat len \<le> MAX_SIZE"
  shows "wasi_fd_read fd (one_iov buf len) s =
    (let bs = take (unat len) (fs_pipes s p) in
     Some ((0, Some (of_nat (length bs))),
       s\<lparr>fs_pipes := (fs_pipes s)(p := drop (unat len) (fs_pipes s p)),
         fs_mem := mem_store buf bs (fs_mem s)\<rparr>))"
proof -
  define bs where "bs = take (unat len) (fs_pipes s p)"
  define t where "t = s\<lparr>fs_pipes := (fs_pipes s)(p := drop (unat len) (fs_pipes s p)),
      fs_mem := mem_store buf bs (fs_mem s)\<rparr>"
  define f where "f = file_of s oid"
  have data: "node_of s f = PipeFile p" "is_data s f" "getEntry fd s = Some oid" "\<not> isSeekable t f"
    using r by (simp_all add: open_pipe_def f_def t_def)
  have "length bs \<le> unat len" by (simp add: bs_def)
  then have small: "unat (of_nat (length bs) :: u32) = length bs" "length bs \<le> MAX_SIZE"
    using buf(2) by (simp_all add: unat_of_nat)
  have "df_read f buf len off s = Some (of_nat (length bs), t)" for off
    by (simp add: df_read_def data t_def bs_def Let_def)
  then have "read_loop f off (one_iov buf len) 0 s = Some (Inr (of_nat (length bs)), t)" for off
    using buf(1) small sint_small(2) [of "of_nat (length bs)"] by simp
  then show ?thesis
    using data by (simp add: wasi_fd_read_def readAtOffset_def Let_def flip: f_def bs_def t_def)
qed

text \<open>
  C13: A pipe is a queue of bytes: what two writes put in comes out of a read in the order it was
  written, behind what was there before, as much of it as the reader asks for; the rest stays.
\<close>

theorem pipe_is_fifo:
  assumes "open_pipe s w ow p" "open_pipe s r orr p" "a \<noteq> 0" "c \<noteq> 0" "buf \<noteq> 0"
    and "unat la \<le> 0x7FFFFFFF" "unat lc \<le> 0x7FFFFFFF" "unat n \<le> 0x7FFFFFFF"
  shows "\<exists>t u v. let queue = fs_pipes s p @ mem_read s a la @ mem_read s c lc; got = take (unat n) queue in
    wasi_fd_write w [\<lparr>iov_buf = a, iov_len = la\<rparr>] s = Some ((0, Some la), t) \<and>
    wasi_fd_write w [\<lparr>iov_buf = c, iov_len = lc\<rparr>] t = Some ((0, Some lc), u) \<and>
    wasi_fd_read r [\<lparr>iov_buf = buf, iov_len = n\<rparr>] u = Some ((0, Some (of_nat (length got))), v) \<and>
    mem_read v buf (of_nat (length got)) = got \<and> fs_pipes v p = drop (unat n) queue"
proof (rule pipe_write [OF assms(1,3,6)])
  fix t
  assume t: "wasi_fd_write w (one_iov a la) s = Some ((0, Some la), t)"
    "fs_pipes t = (fs_pipes s)(p := fs_pipes s p @ mem_read s a la)"
    "fs_mem t = fs_mem s" "fs_table t = fs_table s" "fs_ofiles t = fs_ofiles s"
    "\<And>g. node_of t g = node_of s g" "\<And>g. isSeekable t g = isSeekable s g"
  show ?thesis
  proof (rule pipe_write [OF open_pipe_cong [OF assms(1) t(4-7)] assms(4,7)])
    fix u
    assume u: "wasi_fd_write w (one_iov c lc) t = Some ((0, Some lc), u)"
      "fs_pipes u = (fs_pipes t)(p := fs_pipes t p @ mem_read t c lc)"
      "fs_mem u = fs_mem t" "fs_table u = fs_table t" "fs_ofiles u = fs_ofiles t"
      "\<And>g. node_of u g = node_of t g" "\<And>g. isSeekable u g = isSeekable t g"
    define q where "q = fs_pipes s p @ mem_read s a la @ mem_read s c lc"
    have q: "fs_pipes u p = q"
      using t(2,3) u(2) by (simp add: q_def mem_read_def)
    have r: "open_pipe u r orr p"
      using assms(2) t(4-) u(4-) by (intro open_pipe_cong [OF assms(2)]) simp_all
    have k: "unat (of_nat (length (take (unat n) q)) :: u32) = length (take (unat n) q)"
      using assms(8) by (simp add: unat_of_nat min_def)
    note rd = pipe_read [OF r assms(5,8), unfolded q Let_def]
    show ?thesis
      unfolding Let_def q_def [symmetric]
      using t(1) u(1) rd k by (auto simp: mem_read_store)
  qed
qed

text \<open>Two descriptors on one pipe that holds a byte already.\<close>

definition demo_pipe :: fs where
  "demo_pipe = demo_data
    \<lparr>fs_heap := \<lambda>_. (fs_heap demo_data 0)\<lparr>f_node := PipeFile 0, f_seekable := False\<rparr>,
     fs_table := [Some 0, Some 0], fs_pipes := \<lambda>_. [9]\<rparr>"

lemma demo_pipe_open: "open_pipe demo_pipe 1 0 0" "open_pipe demo_pipe 0 0 0"
  by (simp_all add: demo_pipe_def demo_data_def empty_fs_def open_pipe_def getEntry_def tbl_get_def appending_def)

lemma pipe_is_fifo_witness:
  "\<exists>t u v. let queue = fs_pipes demo_pipe 0 @ mem_read demo_pipe 16 2 @ mem_read demo_pipe 32 2;
      got = take (unat (4 :: u32)) queue in
    wasi_fd_write 1 [\<lparr>iov_buf = 16, iov_len = 2\<rparr>] demo_pipe = Some ((0, Some 2), t) \<and>
    wasi_fd_write 1 [\<lparr>iov_buf = 32, iov_len = 2\<rparr>] t = Some ((0, Some 2), u) \<and>
    wasi_fd_read 0 [\<lparr>iov_buf = 64, iov_len = 4\<rparr>] u = Some ((0, Some (of_nat (length got))), v) \<and>
    mem_read v 64 (of_nat (length got)) = got \<and> fs_pipes v 0 = drop (unat (4 :: u32)) queue"
  by (rule pipe_is_fifo [OF demo_pipe_open]) simp_all
end
