(* ===== verification/System.thy ===== *)
theory System
  imports Data_Laws
begin

text \<open>
  The system as a whole: the calls a program can make, the states it can reach with them from the
  constructor, and the two guarantees over those states: every call keeps the invariant
  (preservation), and the calls on names and descriptors return (progress).
\<close>

section \<open>The remaining calls keep the invariant\<close>

lemma setEntry_same_wf:
  "wf_fs s \<Longrightarrow> getEntry fd s = Some oid \<Longrightarrow> wf_fs (snd (setEntry k (Some oid) s))"
  using wf_table_setEntry [of s "Some oid" k] wf_tree_shape [OF _ setEntry_shape]
    getEntry_wf [of s fd oid] by (simp add: wf_fs_def)

lemma dup3_wf: "wf_fs s \<Longrightarrow> syscall_dup3 oldfd newfd flags s = Some (r, t) \<Longrightarrow> wf_fs t"
  using setEntry_same_wf by (auto simp: syscall_dup3_def fails_def split: if_splits option.splits)

lemma dup_wf: "wf_fs s \<Longrightarrow> syscall_dup fd s = Some (r, t) \<Longrightarrow> wf_fs t"
  using setEntry_same_wf
  by (auto simp: syscall_dup_def addEntry_def fails_def Let_def split: option.splits)

lemma fcntl_wf: "wf_fs s \<Longrightarrow> syscall_fcntl64 fd cmd s = Some (r, t) \<Longrightarrow> wf_fs t"
  using setEntry_same_wf wf_quiet [OF _ quiet_ofile(2)]
  by (auto simp: syscall_fcntl64_def fails_def Let_def split: option.splits fcntl_cmd.splits if_splits)

lemma doTruncate_quiet: "doTruncate f sz s = Some (r, t) \<Longrightarrow> quiet s t"
  by (auto simp: doTruncate_def fails_def split: if_splits dest: quiet_df)

lemma truncate_wf: "wf_fs s \<Longrightarrow> syscall_truncate64 path sz s = Some (r, t) \<Longrightarrow> wf_fs t"
  using parseFile_pure [OF wfD(1), of s path AT_FDCWD FollowLinks] wf_quiet doTruncate_quiet
  by (fastforce simp: syscall_truncate64_def fails_def split: sum.splits)

lemma ftruncate_wf: "wf_fs s \<Longrightarrow> syscall_ftruncate64 fd sz s = Some (r, t) \<Longrightarrow> wf_fs t"
  using wf_quiet doTruncate_quiet
  by (fastforce simp: syscall_ftruncate64_def fails_def split: option.splits)

lemma fallocate_wf: "wf_fs s \<Longrightarrow> syscall_fallocate fd mode off len s = Some (r, t) \<Longrightarrow> wf_fs t"
  using wf_quiet quiet_df(3)
  by (fastforce simp: syscall_fallocate_def fails_def Let_def split: option.splits if_splits)

lemma mmap_wf: "wf_fs s \<Longrightarrow> mmap_js al len prot flags fd off s = Some (r, t) \<Longrightarrow> wf_fs t"
proof -
  assume "wf_fs s" "mmap_js al len prot flags fd off s = Some (r, t)"
  moreover from this(2) have "quiet s t"
    by (auto simp: mmap_js_def Let_def split: option.splits if_splits dest!: quiet_df(2))
  ultimately show ?thesis by (blast intro: wf_quiet)
qed

lemma msync_wf: "wf_fs s \<Longrightarrow> msync_js addr len prot flags fd off s = Some (r, t) \<Longrightarrow> wf_fs t"
  using wf_quiet writeAtOffset_quiet
  by (fastforce simp: msync_js_def wasi_fd_pwrite_def split: option.splits if_splits)

text \<open>Changing a mode: a directory that has mounts must stay unwritable.\<close>

lemma wf_change_mode:
  assumes wf: "wf_fs s" and mode: "dcache s f = [] \<or> m AND WASMFS_PERM_WRITE = 0"
  shows "wf_fs (change_mode f m s)"
proof -
  let ?t = "change_mode f m s"
  have same: "fs_next ?t = fs_next s" "fs_root ?t = fs_root s" "fs_cwd ?t = fs_cwd s"
    "kind ?t g = kind s g" "entries ?t g = entries s g" "dcache ?t g = dcache s g"
    "parent_of ?t g = parent_of s g" for g
    by (simp_all add: change_mode_def setMode_def upd_file_def)
  have mode_t: "mode_of ?t g = (if g = f then (mode_of s f AND S_IFMT) OR (m AND NOT S_IFMT) else mode_of s g)" for g
    by (simp add: change_mode_def setMode_def upd_file_def)
  have nowrite: "((x AND 0xF000) OR (m AND NOT 0xF000)) AND 0x92 = 0" if "m AND 0x92 = 0" for x :: u32
  proof -
    have "(m AND NOT 0xF000) AND 0x92 = (m AND 0x92) AND NOT 0xF000"
      by (simp only: ac_simps)
    moreover have "(x AND 0xF000) AND 0x92 = x AND (0xF000 AND 0x92)"
      by (simp only: and.assoc)
    ultimately show ?thesis
      using that by (simp only: bit.conj_disj_distrib2) simp
  qed
  have "wf_mounts ?t"
    unfolding wf_mounts_def same
  proof (intro allI impI)
    fix d n e
    assume e: "(n, e) \<in> set (dcache s d)"
    have "mode_of ?t d AND WASMFS_PERM_WRITE = 0"
    proof (cases "d = f")
      case True
      then have "m AND WASMFS_PERM_WRITE = 0"
        using mode e by auto
      then show ?thesis
        unfolding mode_t True if_P [OF refl] by (rule nowrite)
    next
      case False
      then show ?thesis
        using wf_mount(5) [OF wfD(1) [OF wf] e] by (simp add: mode_t)
    qed
    then show "dc_kind e = DCMount \<and> dc_file e < fs_next s \<and> parent_of s (dc_file e) = Some d \<and>
        \<not> is_dir s (dc_file e) \<and> mode_of ?t d AND WASMFS_PERM_WRITE = 0"
      using wf_mount [OF wfD(1) [OF wf] e] by simp
  qed
  moreover have up: "up ?t = up s" by (simp only: up_def same)
  have "wf_roots ?t = wf_roots s" "wf_maps ?t = wf_maps s" "wf_entries ?t = wf_entries s"
    "wf_parents ?t = wf_parents s" "wf_unlinked ?t = wf_unlinked s" "wf_linked ?t = wf_linked s"
    by (simp_all only: wf_parts up same)
  ultimately have "wf_tree ?t"
    using wfD(1) [OF wf] by (simp add: wf_tree_def)
  moreover have "wf_table ?t"
    by (rule wf_table_cong [OF wfD(2) [OF wf]])
      (simp_all add: change_mode_def setMode_def upd_file_def updateCTime_def date_now_def setCTime_def)
  ultimately show ?thesis by (simp add: wf_fs_def)
qed

lemma set_both_quiet: "quiet s (set_both f a m s)"
  by (simp add: set_both_def Let_def)

lemma utimensat_wf: "wf_fs s \<Longrightarrow> syscall_utimensat fd path tms flags s = Some (r, t) \<Longrightarrow> wf_fs t"
proof -
  assume wf: "wf_fs s" and run: "syscall_utimensat fd path tms flags s = Some (r, t)"
  obtain res where res: "getFileAt fd path (flags OR AT_EMPTY_PATH) s = Some (res, s)"
    using getFileAt_pure [OF wfD(1) [OF wf]] by blast
  have clock: "quiet s (s\<lparr>fs_calls := c\<rparr>)" for c by (rule quiet_setter)
  have "quiet s t"
    using run res set_both_quiet clock
    by (auto simp: syscall_utimensat_def fails_def timespec_to_ms_def date_now_def Let_def
        split: if_splits sum.splits option.splits timespec.splits prod.splits
        intro: quiet_trans [OF clock set_both_quiet])
  then show ?thesis using wf by (rule wf_quiet [rotated])
qed

text \<open>A new open file state of a data file.\<close>

lemma create_data:
  assumes "wf_fs s" "is_data s f" "f < fs_next s"
  obtains u where "OpenFileState_create f flags s = Some (Inr (fs_ofnext s), u)" "wf_fs u"
    "fs_ofnext u = Suc (fs_ofnext s)" "fs_heap u = fs_heap s" "fs_next u = fs_next s"
    "fs_table u = fs_table s" "fs_pipes u = fs_pipes s"
    "fs_ofiles u = (fs_ofiles s)(fs_ofnext s := \<lparr>of_file = f, of_position = 0, of_flags = flags,
       of_uses = 0, of_dirents = []\<rparr>)"
proof -
  define u where "u = s\<lparr>fs_ofiles := (fs_ofiles s)(fs_ofnext s := \<lparr>of_file = f, of_position = 0,
      of_flags = flags, of_uses = 0, of_dirents = []\<rparr>), fs_ofnext := Suc (fs_ofnext s)\<rparr>"
  have u: "OpenFileState_create f flags s = Some (Inr (fs_ofnext s), u)"
    using assms(2) by (simp add: OpenFileState_create_def Let_def u_def)
  have "wf_fs u"
    using wf_tree_shape [OF wfD(1) [OF assms(1)] OpenFileState_create_effect(2) [OF u]]
      wf_table_create [OF wfD(2) [OF assms(1)] u assms(3)] by (simp add: wf_fs_def)
  then show thesis
    by (rule that [OF u]) (simp_all add: u_def)
qed

text \<open>
  \<open>pipe\<close> makes one empty queue and two files on it, and opens them on the two lowest free
  descriptors.
\<close>

lemma pipe_opens:
  assumes wf: "wf_fs s" and room: "length (fs_table s) < 2 ^ 32 - 1"
  obtains fd0 fd1 t where "syscall_pipe s = Some ((0, fd0, fd1), t)" "wf_fs t"
    "fd0 \<noteq> fd1" "getEntry fd0 s = None" "getEntry fd1 s = None"
    "open_pipe t fd0 (fs_ofnext s) (fs_pnext s)" "open_pipe t fd1 (Suc (fs_ofnext s)) (fs_pnext s)"
    "fs_pipes t (fs_pnext s) = []"
    "\<And>fd. fd \<noteq> fd0 \<Longrightarrow> fd \<noteq> fd1 \<Longrightarrow> getEntry fd t = getEntry fd s"
proof -
  define p where "p = fs_pnext s"
  define s1 where "s1 = s\<lparr>fs_pipes := (fs_pipes s)(p := []), fs_pnext := Suc p\<rparr>"
  have "quiet s s1" by (simp add: s1_def quiet_def same_shape_def)
  then have wf1: "wf_fs s1" using wf by (rule wf_quiet [rotated])
  obtain r s2 where r: "new_file (PipeFile p) (S_IRUGO OR S_IFREG) None False s1 = (r, s2)"
    by (rule prod.exhaust)
  have wf2: "wf_fs s2" by (rule wf_new_file [OF wf1 _ r]) simp
  obtain w s3 where w: "new_file (PipeFile p) (S_IWUGO OR S_IFREG) None False s2 = (w, s3)"
    by (rule prod.exhaust)
  have wf3: "wf_fs s3" by (rule wf_new_file [OF wf2 _ w]) simp
  note eff = new_file_effect [OF r] new_file_effect [OF w]
  have heap: "node_of s3 r = PipeFile p" "node_of s3 w = PipeFile p" "r < fs_next s3" "w < fs_next s3"
    using eff by auto
  have seek: "\<not> isSeekable s3 r" "\<not> isSeekable s3 w"
    using r w by (auto simp: new_file_def date_now_def Let_def)
  have pipes: "fs_pipes s3 p = []"
    using r w by (auto simp: new_file_def date_now_def Let_def s1_def)
  have tab: "fs_table s3 = fs_table s" "fs_ofnext s3 = fs_ofnext s"
    using eff by (simp_all add: s1_def)
  show thesis
  proof (rule create_data [OF wf3, of r O_RDONLY])
    fix u
    assume u: "OpenFileState_create r O_RDONLY s3 = Some (Inr (fs_ofnext s3), u)" "wf_fs u"
      "fs_ofnext u = Suc (fs_ofnext s3)" "fs_heap u = fs_heap s3" "fs_next u = fs_next s3"
      "fs_table u = fs_table s3" "fs_pipes u = fs_pipes s3"
      "fs_ofiles u = (fs_ofiles s3)(fs_ofnext s3 := \<lparr>of_file = r, of_position = 0,
         of_flags = O_RDONLY, of_uses = 0, of_dirents = []\<rparr>)"
    show thesis
    proof (rule create_data [OF u(2), of w O_WRONLY])
      fix v
      assume v: "OpenFileState_create w O_WRONLY u = Some (Inr (fs_ofnext u), v)" "wf_fs v"
        "fs_ofnext v = Suc (fs_ofnext u)" "fs_heap v = fs_heap u" "fs_next v = fs_next u"
        "fs_table v = fs_table u" "fs_pipes v = fs_pipes u"
        "fs_ofiles v = (fs_ofiles u)(fs_ofnext u := \<lparr>of_file = w, of_position = 0,
           of_flags = O_WRONLY, of_uses = 0, of_dirents = []\<rparr>)"
      define o0 o1 where "o0 = fs_ofnext s" and "o1 = Suc (fs_ofnext s)"
      obtain fd0 v1 where a0: "addEntry o0 v = (fd0, v1)" by (rule prod.exhaust)
      obtain fd1 t where a1: "addEntry o1 v1 = (fd1, t)" by (rule prod.exhaust)
      have wfv1: "wf_fs v1"
        using addEntry_wf [OF v(2), of o0] a0 v(3,5,8) u(3,5,8) tab heap by (simp add: o0_def)
      note keep = addEntry_keeps [OF a0] addEntry_keeps [OF a1]
      have wft: "wf_fs t"
        using addEntry_wf [OF wfv1, of o1] a1 keep v(3,5,8) u(3,5,8) tab heap by (simp add: o1_def)
      have len: "length (fs_table v) < 2 ^ 32"
        using v(6) u(6) tab room by simp
      note new0 = addEntry_lowest [OF len a0]
      have "length (fs_table v1) < 2 ^ 32"
        using new0(5) v(6) u(6) tab room by simp
      note new1 = addEntry_lowest [OF this a1]
      have g: "getEntry fd v = getEntry fd s" for fd
        by (simp add: getEntry_def v(6) u(6) tab)
      have fds: "fd0 \<noteq> fd1" "getEntry fd0 s = None" "getEntry fd1 s = None"
        using new0(2,4) new1(2) by (auto simp: g split: if_splits)
      have a1': "addEntry (Suc o0) v1 = (fd1, t)"
        using a1 by (simp add: o0_def o1_def)
      have run: "syscall_pipe s = Some ((0, fd0, fd1), t)"
        unfolding syscall_pipe_def Let_def p_def [symmetric] s1_def [symmetric] r w prod.case u(1)
          v(1) option.case sum.case tab u(3) o0_def [symmetric] a0 prod.case a1' ..
      have "open_pipe t fd0 o0 p" "open_pipe t fd1 o1 p"
        using keep v(4,8) u(3,4,8) tab heap seek fds new0(4) new1(4)
        by (simp_all add: open_pipe_def appending_def o0_def o1_def)
      moreover have "fs_pipes t p = []"
        using keep v(7) u(7) pipes by simp
      moreover have "fd \<noteq> fd0 \<Longrightarrow> fd \<noteq> fd1 \<Longrightarrow> getEntry fd t = getEntry fd s" for fd
        using new0(4) new1(4) g by simp
      ultimately show thesis
        using that [OF run wft fds] by (simp add: p_def o0_def o1_def)
    qed (use heap u in auto)
  qed (use heap in auto)
qed

section \<open>Calls and reachable states\<close>

text \<open>
  The calls that read or change the state, with their arguments. The conversion of a time to
  milliseconds and the allocator of \<open>mmap\<close>, which are not part of the program, are arguments.
\<close>

datatype call =
    Openat u32 string u32 u32 | Openat2 u32 string u32 u16 u32 | Mknodat u32 string u32 u32
  | Mkdirat u32 string u32 | Unlinkat u32 string u32 | Renameat u32 string u32 string
  | Symlinkat string u32 string | Readlinkat u32 string u32 u32
  | Chdir string | Fchdir u32 | Getcwd u32 u32 | Getdents u32 u32
  | Read u32 "iovec list" | Write u32 "iovec list" | Pread u32 "iovec list" u64
  | Pwrite u32 "iovec list" u64 | Seek u32 u64 byte u32 | Close u32 | Sync u32
  | Dup u32 | Dup3 u32 u32 u32 | Fcntl u32 fcntl_cmd | Pipe
  | Truncate string u64 | Ftruncate u32 u64 | Fallocate u32 u32 u64 u64
  | Mmap "u32 \<Rightarrow> u32" u32 u32 u32 u32 u64 | Msync u32 u32 u32 u32 u32 u64
  | Fchmodat u32 string u32 u32 | Fchmod u32 u32
  | Utimensat u32 string "(timespec \<times> timespec) option" u32

fun run_call :: "call \<Rightarrow> fs \<Rightarrow> fs option" where
  "run_call (Openat d p f m) s = map_option snd (syscall_openat d p f m s)"
| "run_call (Openat2 d p df f m) s = map_option snd (syscall_openat2 d p df f m s)"
| "run_call (Mknodat d p m dv) s = map_option snd (syscall_mknodat d p m dv s)"
| "run_call (Mkdirat d p m) s = map_option snd (syscall_mkdirat d p m s)"
| "run_call (Unlinkat d p f) s = map_option snd (syscall_unlinkat d p f s)"
| "run_call (Renameat d p d' p') s = map_option snd (syscall_renameat d p d' p' s)"
| "run_call (Symlinkat tg d p) s = map_option snd (syscall_symlinkat tg d p s)"
| "run_call (Readlinkat d p b n) s = map_option snd (syscall_readlinkat d p b n s)"
| "run_call (Chdir p) s = map_option snd (syscall_chdir p s)"
| "run_call (Fchdir fd) s = map_option snd (syscall_fchdir fd s)"
| "run_call (Getcwd b n) s = map_option snd (syscall_getcwd b n s)"
| "run_call (Getdents fd n) s = Some (snd (syscall_getdents64 fd n s))"
| "run_call (Read fd iovs) s = map_option snd (wasi_fd_read fd iovs s)"
| "run_call (Write fd iovs) s = map_option snd (wasi_fd_write fd iovs s)"
| "run_call (Pread fd iovs off) s = map_option snd (wasi_fd_pread fd iovs off s)"
| "run_call (Pwrite fd iovs off) s = map_option snd (wasi_fd_pwrite fd iovs off s)"
| "run_call (Seek fd off wh nw) s = map_option snd (wasi_fd_seek fd off wh nw s)"
| "run_call (Close fd) s = Some (snd (wasi_fd_close fd s))"
| "run_call (Sync fd) s = Some (snd (wasi_fd_sync fd s))"
| "run_call (Dup fd) s = map_option snd (syscall_dup fd s)"
| "run_call (Dup3 fd k f) s = map_option snd (syscall_dup3 fd k f s)"
| "run_call (Fcntl fd cmd) s = map_option snd (syscall_fcntl64 fd cmd s)"
| "run_call Pipe s = map_option snd (syscall_pipe s)"
| "run_call (Truncate p sz) s = map_option snd (syscall_truncate64 p sz s)"
| "run_call (Ftruncate fd sz) s = map_option snd (syscall_ftruncate64 fd sz s)"
| "run_call (Fallocate fd m off n) s = map_option snd (syscall_fallocate fd m off n s)"
| "run_call (Mmap al n pr fl fd off) s = map_option snd (mmap_js al n pr fl fd off s)"
| "run_call (Msync a n pr fl fd off) s = map_option snd (msync_js a n pr fl fd off s)"
| "run_call (Fchmodat d p m f) s = map_option snd (syscall_fchmodat2 d p m f s)"
| "run_call (Fchmod fd m) s = map_option snd (syscall_fchmod fd m s)"
| "run_call (Utimensat d p tms f) s = map_option snd (syscall_utimensat d p tms f s)"

text \<open>
  The one call the invariant has to be protected from: making a directory with mounts writable.
  In such a directory \<open>rename\<close> handles the mounts wrongly (TODO in \<open>insertMove\<close>).
\<close>

definition keeps_mounts :: "fid \<Rightarrow> u32 \<Rightarrow> fs \<Rightarrow> bool" where
  "keeps_mounts f m s \<longleftrightarrow> dcache s f = [] \<or> m AND WASMFS_PERM_WRITE = 0"

fun allowed :: "call \<Rightarrow> fs \<Rightarrow> bool" where
  "allowed (Fchmodat d p m f) s \<longleftrightarrow>
     (case getFileAt d p f s of Some (Inr g, _) \<Rightarrow> keeps_mounts g m s | _ \<Rightarrow> True)"
| "allowed (Fchmod fd m) s \<longleftrightarrow>
     (case getEntry fd s of Some oid \<Rightarrow> keeps_mounts (file_of s oid) m s | None \<Rightarrow> True)"
| "allowed Pipe s \<longleftrightarrow> length (fs_table s) < 2 ^ 32 - 1"
| "allowed _ _ \<longleftrightarrow> True"

inductive reachable :: "host \<Rightarrow> (u32 \<Rightarrow> byte) \<Rightarrow> fs \<Rightarrow> bool" for h m where
  start: "reachable h m (WasmFS_init h m)"
| step: "reachable h m s \<Longrightarrow> allowed c s \<Longrightarrow> run_call c s = Some t \<Longrightarrow> reachable h m t"


section \<open>Preservation\<close>

lemma safeD: "safe c s \<Longrightarrow> c s = Some (r, t) \<Longrightarrow> wf_fs t"
  by (simp add: safe_def)

lemma safe_returns: "safe c s \<Longrightarrow> \<exists>t. map_option snd (c s) = Some t"
  by (auto simp: safe_def)

lemma returns_lift: "\<exists>r. x = Some r \<Longrightarrow> \<exists>t. map_option snd x = Some t"
  by auto

lemma some_returns: "\<exists>t. Some x = Some t"
  by simp

text \<open>A rename into a directory that has been removed changes nothing when it returns.\<close>

lemma rename_into_unlinked:
  assumes wf: "wf_fs s" and op: "is_dir s op" and np: "parent_of s np = None"
    and run: "rename_checked op on np nn s = Some (r, t)"
  shows "t = s"
proof -
  note wt = wfD(1) [OF wf]
  have none: "child_of s np nn = None"
    using np by (simp add: child_of_def)
  have root: "np \<noteq> fs_root s"
    using np wf_root(2) [OF wt] by auto
  show ?thesis
  proof (cases "child_of s op on")
    case None
    then show ?thesis
      using run by (simp add: rename_checked_def getChild_child_of [OF wt] fails_def)
  next
    case (Some c)
    then have "c \<noteq> np"
      using child_of_linked(1) [OF wt op Some] np by auto
    then have "meets c np s = None"
      using np root by (subst meets.simps) simp
    then show ?thesis
      using run Some none
      by (auto simp: rename_checked_def getChild_child_of [OF wt] fails_def split: if_splits)
  qed
qed

lemma rename_checked_wf:
  assumes "wf_fs s" "is_dir s op" "is_dir s np" "rename_checked op on np nn s = Some (r, t)"
  shows "wf_fs t"
proof (cases "parent_of s np")
  case None
  then show ?thesis using rename_into_unlinked [OF assms(1,2) _ assms(4)] assms(1) by simp
next
  case (Some q)
  then show ?thesis using safeD [OF rename_checked_safe assms(4)] assms(1-3) by blast
qed

lemma renameat_wf:
  assumes wf: "wf_fs s" and run: "syscall_renameat d p d' p' s = Some (r, t)"
  shows "wf_fs t"
proof (rule parseParent_wf [OF wfD(1) [OF wf], of p d])
  fix e
  assume "parseParent p d s = Some (Inl e, s)"
  then show ?thesis using wf run by (simp add: syscall_renameat_def with_parent_def fails_def)
next
  fix op on
  assume old: "parseParent p d s = Some (Inr (op, on), s)" "is_dir s op"
  show ?thesis
  proof (rule parseParent_wf [OF wfD(1) [OF wf], of p' d'])
    fix e
    assume "parseParent p' d' s = Some (Inl e, s)"
    then show ?thesis
      using wf run old by (simp add: syscall_renameat_def with_parent_def fails_def)
  next
    fix np nn
    assume "parseParent p' d' s = Some (Inr (np, nn), s)" "is_dir s np"
    then show ?thesis
      using wf run old rename_checked_wf [OF wf old(2), of np]
      by (auto simp: syscall_renameat_def with_parent_def fails_def split: if_splits)
  qed
qed

lemma fchmodat_wf:
  assumes wf: "wf_fs s" and ok: "allowed (Fchmodat d p m f) s"
    and run: "syscall_fchmodat2 d p m f s = Some (r, t)"
  shows "wf_fs t"
proof -
  obtain res where "getFileAt d p f s = Some (res, s)"
    using getFileAt_pure [OF wfD(1) [OF wf]] by blast
  then show ?thesis
    using wf ok run wf_change_mode [OF wf]
    by (auto simp: syscall_fchmodat2_def fails_def keeps_mounts_def split: if_splits sum.splits)
qed

lemma fchmod_wf:
  "wf_fs s \<Longrightarrow> allowed (Fchmod fd m) s \<Longrightarrow> syscall_fchmod fd m s = Some (r, t) \<Longrightarrow> wf_fs t"
  using wf_change_mode
  by (auto simp: syscall_fchmod_def fails_def keeps_mounts_def split: option.splits)

lemma pipe_wf: "wf_fs s \<Longrightarrow> allowed Pipe s \<Longrightarrow> syscall_pipe s = Some (r, t) \<Longrightarrow> wf_fs t"
  using pipe_opens [of s] by (metis allowed.simps(3) option.inject prod.inject)

lemma data_calls_wf:
  "wf_fs s \<Longrightarrow> wasi_fd_read fd iovs s = Some (r1, t) \<Longrightarrow> wf_fs t"
  "wf_fs s \<Longrightarrow> wasi_fd_write fd iovs s = Some (r2, t) \<Longrightarrow> wf_fs t"
  "wf_fs s \<Longrightarrow> wasi_fd_pread fd iovs off s = Some (r3, t) \<Longrightarrow> wf_fs t"
  "wf_fs s \<Longrightarrow> wasi_fd_pwrite fd iovs off s = Some (r4, t) \<Longrightarrow> wf_fs t"
  "wf_fs s \<Longrightarrow> wasi_fd_seek fd soff wh nw s = Some (r5, t) \<Longrightarrow> wf_fs t"
  "wf_fs s \<Longrightarrow> wf_fs (snd (wasi_fd_sync fd s))"
  "wf_fs s \<Longrightarrow> wf_fs (snd (syscall_getdents64 fd n s))"
  unfolding wasi_fd_read_def wasi_fd_write_def wasi_fd_pread_def wasi_fd_pwrite_def
  by (blast intro: wf_quiet readAtOffset_quiet writeAtOffset_quiet seek_quiet sync_quiet getdents_quiet)+

lemmas name_calls_safe = openat_safe openat2_safe mknodat_safe mkdirat_safe unlinkat_safe
  symlinkat_safe readlinkat_safe chdir_safe fchdir_safe getcwd_safe

lemmas calls_wf = name_calls_safe [THEN safeD] renameat_wf data_calls_wf close_wf dup_wf dup3_wf fcntl_wf
  pipe_wf truncate_wf ftruncate_wf fallocate_wf mmap_wf msync_wf fchmodat_wf fchmod_wf utimensat_wf

lemma run_call_wf: "wf_fs s \<Longrightarrow> allowed c s \<Longrightarrow> run_call c s = Some t \<Longrightarrow> wf_fs t"
  by (cases c) (auto simp del: allowed.simps(1-3) intro: calls_wf)



section \<open>Progress\<close>

text \<open>
  The calls that have no undefined behaviour on a well-formed state. Left out are reading, writing
  and seeking, whose offsets can leave the range of \<open>off_t\<close> or of a vector, \<open>rename\<close> into a removed
  directory, and a \<open>truncate\<close> beyond the largest vector.
\<close>

fun total_call :: "call \<Rightarrow> bool" where
  "total_call (Renameat _ _ _ _) = False"
| "total_call (Read _ _) = False"
| "total_call (Write _ _) = False"
| "total_call (Pread _ _ _) = False"
| "total_call (Pwrite _ _ _) = False"
| "total_call (Seek _ _ _ _) = False"
| "total_call (Truncate _ _) = False"
| "total_call (Ftruncate _ _) = False"
| "total_call (Fallocate _ _ _ _) = False"
| "total_call (Mmap _ _ _ _ _ _) = False"
| "total_call (Msync _ _ _ _ _ _) = False"
| "total_call _ = True"

lemma metadata_returns:
  assumes "wf_fs s"
  shows "\<exists>r. syscall_fchmodat2 d p m f s = Some r" "\<exists>r. syscall_utimensat d p tms f s = Some r"
proof -
  have "\<exists>res. getFileAt d p fl s = Some (res, s)" for fl
    using getFileAt_pure [OF wfD(1) [OF assms]] by blast
  then obtain r1 r2 where "getFileAt d p f s = Some (r1, s)"
    "getFileAt d p (f OR AT_EMPTY_PATH) s = Some (r2, s)"
    by metis
  then show "\<exists>r. syscall_fchmodat2 d p m f s = Some r" "\<exists>r. syscall_utimensat d p tms f s = Some r"
    by (auto simp: syscall_fchmodat2_def syscall_utimensat_def fails_def split: sum.splits option.splits prod.splits)
qed

lemma descriptor_calls_return:
  "\<exists>r. syscall_dup fd s = Some r" "\<exists>r. syscall_dup3 fd k f s = Some r"
  "\<exists>r. syscall_fcntl64 fd cmd s = Some r" "\<exists>r. syscall_fchmod fd m s = Some r"
  by (auto simp: syscall_dup_def syscall_dup3_def syscall_fcntl64_def syscall_fchmod_def fails_def
      Let_def split: option.splits fcntl_cmd.splits)



end
