(* ===== verification/Path_Laws.thy ===== *)
theory Path_Laws
  imports System
begin

text \<open>
  Path resolution against its specification: the relation \<open>resolves\<close> of the theory Paths, with the
  number of symbolic links followed on the way. Resolution finds a file exactly when the path leads
  to it over at most 40 links, and gives up with \<open>ELOOP\<close> when it takes more.
\<close>

section \<open>Counting links\<close>

inductive followsN :: "fs \<Rightarrow> fid \<Rightarrow> fid \<Rightarrow> nat \<Rightarrow> fid \<Rightarrow> bool"
  and dirsN :: "fs \<Rightarrow> fid \<Rightarrow> string list \<Rightarrow> nat \<Rightarrow> fid \<Rightarrow> bool"
  and resolvesN :: "fs \<Rightarrow> fid \<Rightarrow> string \<Rightarrow> nat \<Rightarrow> fid \<Rightarrow> bool"
  for s where
  followsN_file: "\<not> is_link s c \<Longrightarrow> followsN s d c 0 c"
| followsN_link: "node_of s c = MemorySymlink tgt \<Longrightarrow> resolvesN s d tgt k1 c' \<Longrightarrow> followsN s d c' k2 f \<Longrightarrow>
    followsN s d c (Suc (k1 + k2)) f"
| dirsN_Nil: "dirsN s d [] 0 d"
| dirsN_Cons: "child_of s d n = Some c \<Longrightarrow> followsN s d c k1 e \<Longrightarrow> is_dir s e \<Longrightarrow> dirsN s e ns k2 f \<Longrightarrow>
    dirsN s d (n # ns) (k1 + k2) f"
| resolvesN_path: "path \<noteq> [] \<Longrightarrow> path_names path = ns @ [n] \<Longrightarrow> dirsN s (path_start s d path) ns k1 p \<Longrightarrow>
    child_of s p n = Some c \<Longrightarrow> followsN s p c k2 f \<Longrightarrow> resolvesN s d path (k1 + k2) f"

inductive_cases resolvesN_cases: "resolvesN s d path k f"

text \<open>Every way to resolve a path follows some number of links.\<close>

lemma resolves_counted:
  shows "follows s d c f \<Longrightarrow> \<exists>k. followsN s d c k f"
    and "dirs s d ns p \<Longrightarrow> \<exists>k. dirsN s d ns k p"
    and "resolves s d path f \<Longrightarrow> \<exists>k. resolvesN s d path k f"
proof (induction rule: follows_dirs_resolves.inducts)
  case (follows_file c d)
  then show ?case by (blast intro: followsN_file)
next
  case (follows_link c tgt d c' f)
  then show ?case by (blast intro: followsN_link)
next
  case (dirs_Nil d)
  show ?case by (blast intro: dirsN_Nil)
next
  case (dirs_Cons d n c e ns f)
  then show ?case by (blast intro: dirsN_Cons)
next
  case (resolves_path path ns n d p c f)
  then show ?case by (blast intro: resolvesN_path)
qed

lemma counted_resolves:
  shows "followsN s d c k f \<Longrightarrow> follows s d c f"
    and "dirsN s d ns k p \<Longrightarrow> dirs s d ns p"
    and "resolvesN s d path k f \<Longrightarrow> resolves s d path f"
  by (induction rule: followsN_dirsN_resolvesN.inducts)
    (auto intro: follows_dirs_resolves.intros)

section \<open>Resolution is complete\<close>

text \<open>What a run of a parser from the count \<open>r\<close> gives when \<open>k\<close> links lead to \<open>x\<close>.\<close>

definition gives :: "nat \<Rightarrow> nat \<Rightarrow> 'a \<Rightarrow> fs \<Rightarrow> 'a parsed \<Rightarrow> bool" where
  "gives r k x s run \<longleftrightarrow>
    (if r + k \<le> MAX_RECURSIONS then run = Some (Inr x, r + k, s) else \<exists>r'. run = Some (Inl ELOOP, r', s))"

definition enough :: "nat \<Rightarrow> nat \<Rightarrow> bool" where
  "enough n r \<longleftrightarrow> r \<le> MAX_RECURSIONS \<and> MAX_RECURSIONS \<le> n + r"

lemma path_getChild_gives:
  assumes "wf_tree s" "child_of s d n = Some c" "gives r k f s (followLinks m c d r s)"
  shows "gives r k f s (path_getChild (followLinks m) d n FollowLinks r s)"
  using assms by (simp add: path_getChild_def getChild_child_of gives_def)

lemma followLinks_limit:
  "node_of s c = MemorySymlink tgt \<Longrightarrow> followLinks n c d MAX_RECURSIONS s = Some (Inl ELOOP, Suc MAX_RECURSIONS, s)"
  by (cases n) (simp_all add: follow_step_def)

lemma comps_nonempty: "q \<noteq> [] \<Longrightarrow> \<not> is_slash (last q) \<Longrightarrow> comps q \<noteq> []"
  by (rule parse_segments_step [of q]) auto

lemma doParseParent_gives:
  assumes path: "path \<noteq> []" "path_names path = ns @ [n]"
    and seg: "\<And>q. q \<noteq> [] \<Longrightarrow> \<not> is_slash (last q) \<Longrightarrow> comps q = ns @ [n] \<Longrightarrow>
      gives r k (p, n) s (parse_segments follow q (path_start s d path) r s)"
    and root: "ns = [] \<Longrightarrow> k = 0 \<and> p = path_start s d path" and r: "r \<le> MAX_RECURSIONS"
  shows "gives r k (p, n) s (doParseParent follow path d r s)"
proof -
  define q where "q = strip_trailing (if is_slash (hd path) then tl path else path)"
  have comps: "comps path = comps q"
    using path(1) by (cases path) (auto simp: q_def comps_strip)
  have run: "doParseParent follow path d r s =
      (if q = [] then Some (Inr (path_start s d path, ''.''), r, s)
       else parse_segments follow q (path_start s d path) r s)"
    using path(1) by (auto simp: doParseParent_def q_def path_start_def)
  show ?thesis
  proof (cases "q = []")
    case True
    then have "ns = []" "n = ''.''"
      using path(2) comps by (auto simp: path_names_def)
    then show ?thesis
      using root r True by (simp add: run gives_def)
  next
    case False
    have "\<not> is_slash (last q)"
      using last_strip_trailing False by (simp add: q_def)
    moreover from this have "comps q = ns @ [n]"
      using path(2) comps comps_nonempty [OF False] by (simp add: path_names_def)
    ultimately show ?thesis
      using seg False by (simp add: run)
  qed
qed

lemma resolution_complete:
  assumes wf: "wf_tree s"
  shows "followsN s d c k f \<Longrightarrow> \<forall>m r. enough m r \<longrightarrow> gives r k f s (followLinks m c d r s)"
    and "dirsN s d ns k p \<Longrightarrow> \<forall>m r q n. enough m r \<longrightarrow> q \<noteq> [] \<longrightarrow> \<not> is_slash (last q) \<longrightarrow>
      comps q = ns @ [n] \<longrightarrow> gives r k (p, n) s (parse_segments (followLinks m) q d r s)"
    and "resolvesN s d path k f \<Longrightarrow> \<forall>m r. enough m r \<longrightarrow>
      gives r k f s (doParseFile (followLinks m) path d FollowLinks r s)"
proof (induction rule: followsN_dirsN_resolvesN.inducts)
  case (followsN_file c d)
  then have "followLinks m c d r s = Some (Inr c, r, s)" for m r
    by (cases m) (auto simp: follow_step_def split: node.splits)
  then show ?case by (simp add: gives_def enough_def)
next
  case (followsN_link c tgt d k1 c' k2 f)
  have tgt: "tgt \<noteq> []"
    using followsN_link(2) by (auto elim: resolvesN_cases)
  show ?case
  proof (intro allI impI)
    fix m r
    assume e: "enough m r"
    show "gives r (Suc (k1 + k2)) f s (followLinks m c d r s)"
    proof (cases "r = MAX_RECURSIONS")
      case True
      then show ?thesis
        using followLinks_limit [OF followsN_link(1)] by (simp add: gives_def)
    next
      case False
      then obtain m' where m: "m = Suc m'" and e': "enough m' (Suc r)"
        using e by (cases m) (auto simp: enough_def)
      have 1: "gives (Suc r) k1 c' s (doParseFile (followLinks m') tgt d FollowLinks (Suc r) s)"
        using followsN_link(3) e' by blast
      show ?thesis
      proof (cases "Suc r + k1 \<le> MAX_RECURSIONS")
        case True
        then have "enough m' (Suc r + k1)"
          using e' by (simp add: enough_def)
        then have "gives (Suc r + k1) k2 f s (followLinks m' c' d (Suc r + k1) s)"
          using followsN_link(5) by blast
        then show ?thesis
          using 1 True followsN_link(1) tgt by (simp add: m follow_step_def gives_def)
      next
        case False
        then show ?thesis
          using 1 \<open>r \<noteq> _\<close> e followsN_link(1) tgt
          by (auto simp: m follow_step_def gives_def enough_def)
      qed
    qed
  qed
next
  case (dirsN_Nil d)
  show ?case
  proof (intro allI impI)
    fix m r q and n :: string
    assume e: "enough m r" and q: "q \<noteq> []" "\<not> is_slash (last q)" "comps q = [] @ [n]"
    show "gives r 0 (d, n) s (parse_segments (followLinks m) q d r s)"
      using q(1,2)
    proof (rule parse_segments_step)
      fix seg rest
      assume st: "comps q = seg # comps rest"
        "rest \<noteq> [] \<Longrightarrow> \<not> is_slash (last rest) \<and> length rest < length q"
        "\<And>follow cur r s. parse_segments follow q cur r s =
          (if rest = [] then Some (Inr (cur, seg), r, s)
           else (case path_getChild follow cur seg FollowLinks r s of
                None \<Rightarrow> None
              | Some (Inl e, r, s) \<Rightarrow> Some (Inl e, r, s)
              | Some (Inr child, r, s) \<Rightarrow>
                  if is_dir s child then parse_segments follow rest child r s
                  else Some (Inl ENOTDIR, r, s)))"
      then have "rest = []" "seg = n"
        using q(3) comps_nonempty [of rest] by auto
      then show ?thesis
        using st(3) e by (simp add: gives_def enough_def)
    qed
  qed
next
  case (dirsN_Cons d n c k1 e ns k2 f)
  show ?case
  proof (intro allI impI)
    fix m r q and nm :: string
    assume en: "enough m r" and q: "q \<noteq> []" "\<not> is_slash (last q)" "comps q = (n # ns) @ [nm]"
    show "gives r (k1 + k2) (f, nm) s (parse_segments (followLinks m) q d r s)"
      using q(1,2)
    proof (rule parse_segments_step)
      fix seg rest
      assume st: "comps q = seg # comps rest"
        "rest \<noteq> [] \<Longrightarrow> \<not> is_slash (last rest) \<and> length rest < length q"
        "\<And>follow cur r s. parse_segments follow q cur r s =
          (if rest = [] then Some (Inr (cur, seg), r, s)
           else (case path_getChild follow cur seg FollowLinks r s of
                None \<Rightarrow> None
              | Some (Inl e, r, s) \<Rightarrow> Some (Inl e, r, s)
              | Some (Inr child, r, s) \<Rightarrow>
                  if is_dir s child then parse_segments follow rest child r s
                  else Some (Inl ENOTDIR, r, s)))"
      have rest: "seg = n" "comps rest = ns @ [nm]" "rest \<noteq> []"
        using q(3) st(1) by auto
      have "gives r k1 e s (followLinks m c d r s)"
        using dirsN_Cons(3) en by blast
      then have 1: "gives r k1 e s (path_getChild (followLinks m) d n FollowLinks r s)"
        by (rule path_getChild_gives [OF wf dirsN_Cons(1)])
      show ?thesis
      proof (cases "r + k1 \<le> MAX_RECURSIONS")
        case True
        then have "enough m (r + k1)"
          using en by (simp add: enough_def)
        then have "gives (r + k1) k2 (f, nm) s (parse_segments (followLinks m) rest e (r + k1) s)"
          using dirsN_Cons(6) rest st(2) by blast
        then show ?thesis
          using 1 True rest dirsN_Cons(4) by (simp add: st(3) gives_def add.assoc)
      next
        case False
        then show ?thesis
          using 1 rest by (auto simp: st(3) gives_def)
      qed
    qed
  qed
next
  case (resolvesN_path path ns n d k1 p c k2 f)
  show ?case
  proof (intro allI impI)
    fix m r
    assume en: "enough m r"
    have "gives r k1 (p, n) s (doParseParent (followLinks m) path d r s)"
    proof (rule doParseParent_gives [OF resolvesN_path(1,2)])
      show "gives r k1 (p, n) s (parse_segments (followLinks m) q (path_start s d path) r s)"
        if "q \<noteq> []" "\<not> is_slash (last q)" "comps q = ns @ [n]" for q
        using resolvesN_path(4) en that by blast
      show "ns = [] \<Longrightarrow> k1 = 0 \<and> p = path_start s d path"
        using resolvesN_path(3) by (auto elim: dirsN.cases)
    qed (use en in \<open>simp add: enough_def\<close>)
    note 1 = this
    show "gives r (k1 + k2) f s (doParseFile (followLinks m) path d FollowLinks r s)"
    proof (cases "r + k1 \<le> MAX_RECURSIONS")
      case True
      then have "enough m (r + k1)"
        using en by (simp add: enough_def)
      then have "gives (r + k1) k2 f s (followLinks m c p (r + k1) s)"
        using resolvesN_path(7) by blast
      then have "gives (r + k1) k2 f s (path_getChild (followLinks m) p n FollowLinks (r + k1) s)"
        by (rule path_getChild_gives [OF wf resolvesN_path(5)])
      then show ?thesis
        using 1 True by (simp add: doParseFile_def gives_def add.assoc)
    next
      case False
      then show ?thesis
        using 1 by (auto simp: doParseFile_def gives_def)
    qed
  qed
qed


section \<open>The interface\<close>

lemma parseFile_gives:
  assumes "wf_fs s" "getBaseDir fd s = Inr base" "resolvesN s base path k f"
  shows "parseFile path fd FollowLinks s =
    Some (if k \<le> MAX_RECURSIONS then Inr f else Inl ELOOP, s)"
proof -
  have "gives 0 k f s (doParseFile (followLinks MAX_RECURSIONS) path base FollowLinks 0 s)"
    using resolution_complete(3) [OF wfD(1) [OF assms(1)] assms(3)] by (simp add: enough_def)
  then show ?thesis
    using assms(2) by (auto simp: parseFile_def drop_count_def gives_def split: if_splits)
qed

lemma parseFile_found:
  assumes wf: "wf_fs s" and found: "parseFile path fd FollowLinks s = Some (Inr f, s)"
  obtains base k where "getBaseDir fd s = Inr base" "k \<le> 40" "resolvesN s base path k f"
proof (rule parseFile_wf [OF wfD(1) [OF wf], of path fd FollowLinks])
  fix e
  assume "parseFile path fd FollowLinks s = Some (Inl e, s)"
  then show thesis using found by simp
next
  fix g b ns n p c
  assume g: "parseFile path fd FollowLinks s = Some (Inr g, s)" "getBaseDir fd s = Inr b"
    "path \<noteq> []" "path_names path = ns @ [n]" "dirs s (path_start s b path) ns p"
    "child_of s p n = Some c" "if FollowLinks = NoFollowLinks then g = c else follows s p c g"
  then have "resolves s b path f"
    using found by (auto intro: resolves_path)
  then obtain k where k: "resolvesN s b path k f"
    using resolves_counted(3) by blast
  then show thesis
    using parseFile_gives [OF wf g(2) k] found that [OF g(2) _ k] by (auto split: if_splits)
qed

text \<open>
  C3: Path resolution computes exactly its specification: in a well-formed file system \<open>parseFile\<close>
  finds a file if and only if the path leads to it from the base directory, or from the root when it
  is absolute, through directories and over at most 40 symbolic links.
\<close>

theorem parseFile_exact:
  assumes "wf_fs s" "getBaseDir fd s = Inr base"
  shows "parseFile path fd FollowLinks s = Some (Inr f, s) \<longleftrightarrow> (\<exists>k \<le> 40. resolvesN s base path k f)"
proof
  assume found: "parseFile path fd FollowLinks s = Some (Inr f, s)"
  show "\<exists>k \<le> 40. resolvesN s base path k f"
    by (rule parseFile_found [OF assms(1) found]) (use assms(2) in auto)
next
  assume "\<exists>k \<le> 40. resolvesN s base path k f"
  then show "parseFile path fd FollowLinks s = Some (Inr f, s)"
    using parseFile_gives [OF assms] by auto
qed

lemma demo_resolves: "resolvesN demo_fs 3 ''/tmp'' (0 + 0) 8"
proof (rule resolvesN_path)
  show "path_names ''/tmp'' = [] @ [''tmp'']"
    by (simp add: path_names_def comps_def)
  show "dirsN demo_fs (path_start demo_fs 3 ''/tmp'') [] 0 3"
    using dirsN_Nil [of demo_fs 3] by (simp add: path_start_def demo_tree)
  show "child_of demo_fs 3 ''tmp'' = Some 8"
    using wf_root(2) [OF wfD(1) [OF demo_wf]] by (simp add: child_of_def demo_tree)
  show "followsN demo_fs 3 8 0 8"
    by (rule followsN_file) (simp add: demo_tree)
qed simp

lemma parseFile_exact_witness:
  "parseFile ''/tmp'' (- 100) FollowLinks demo_fs = Some (Inr 8, demo_fs)"
proof -
  have "getBaseDir (- 100) demo_fs = Inr 3"
    by (simp add: getBaseDir_def demo_tree)
  then show ?thesis
    using parseFile_exact [OF demo_wf, of "- 100" 3 "''/tmp''" 8] demo_resolves by auto
qed

text \<open>
  A path that takes more than 40 symbolic links to resolve is \<open>ELOOP\<close>, and nothing changes.
\<close>

theorem too_many_links:
  assumes "wf_fs s" "getBaseDir fd s = Inr base" "resolvesN s base path k f" "40 < k"
  shows "parseFile path fd FollowLinks s = Some (Inl ELOOP, s)"
  using parseFile_gives [OF assms(1-3)] assms(4) by simp

text \<open>A link \<open>l\<close> to \<open>.\<close> in /tmp, and the path that goes through it 41 times.\<close>

definition demo_link :: fs where
  "demo_link = insert_new 8 ''l'' (MemorySymlink ''.'') 0xA000 demo_fs"

lemma demo_tmp_child: "name \<noteq> ''.'' \<Longrightarrow> name \<noteq> ''..'' \<Longrightarrow> child_of demo_fs 8 name = None"
  by (simp add: child_of_def demo_tree)

lemma demo_link_wf: "wf_fs demo_link"
  unfolding demo_link_def
  by (rule wf_insert_new [OF demo_wf demo_tree(7,10) demo_tmp_child]) simp_all

lemma demo_link_tree:
  "entries demo_link 8 = [(''l'', 9)]" "dcache demo_link 8 = []" "parent_of demo_link 8 = Some 3"
  "is_dir demo_link 8" "node_of demo_link 9 = MemorySymlink ''.''" "fs_cwd demo_link = 3"
  "fs_root demo_link = 3"
proof -
  note eff = insert_new_effect [OF wfD(1) [OF demo_wf] demo_tree(7), of "MemorySymlink ''.''" "''l''" "0xA000",
      folded demo_link_def, simplified]
  show "entries demo_link 8 = [(''l'', 9)]" "dcache demo_link 8 = []" "parent_of demo_link 8 = Some 3"
    "is_dir demo_link 8" "fs_cwd demo_link = 3" "fs_root demo_link = 3"
    by (simp_all add: eff demo_tree)
  show "node_of demo_link 9 = MemorySymlink ''.''"
    unfolding demo_link_def
    using insert_new_nodes(1) [OF wfD(1) [OF demo_wf] demo_tree(7)] by (simp add: demo_tree)
qed

lemma demo_link_follows: "followsN demo_link 8 9 1 8"
proof -
  have dot: "child_of demo_link 8 ''.'' = Some 8"
    by (simp add: child_of_def demo_link_tree)
  have "resolvesN demo_link 8 ''.'' (0 + 0) 8"
    by (rule resolvesN_path [of _ "[]" "''.''" _ _ _ 8])
      (auto simp: path_names_def comps_def path_start_def dot demo_link_tree
        intro: dirsN_Nil followsN_file)
  then have "followsN demo_link 8 9 (Suc (0 + 0 + 0)) 8"
    by (rule followsN_link [OF demo_link_tree(5)]) (simp add: followsN_file demo_link_tree)
  then show ?thesis by simp
qed

lemma demo_link_child: "child_of demo_link 8 ''l'' = Some 9"
  by (simp add: child_of_def demo_link_tree)

lemma demo_link_dirs: "dirsN demo_link 8 (replicate n ''l'') n 8"
proof (induction n)
  case (Suc n)
  then show ?case
    using dirsN_Cons [OF demo_link_child demo_link_follows demo_link_tree(4) Suc] by simp
qed (simp add: dirsN_Nil)

lemma comps_repeat: "comps (concat (replicate n ''l/'')) = replicate n ''l''"
  by (induction n) (simp_all add: comps_def)

lemma too_many_links_witness:
  "parseFile (''/tmp/'' @ concat (replicate 41 ''l/'')) (- 100) FollowLinks demo_link =
    Some (Inl ELOOP, demo_link)"
proof -
  let ?path = "''/tmp/'' @ concat (replicate 41 ''l/'')"
  have "comps ?path = ''tmp'' # comps (concat (replicate 41 ''l/''))"
    by (simp add: comps_def)
  then have names: "path_names ?path = (''tmp'' # replicate 40 ''l'') @ [''l'']"
    unfolding path_names_def comps_repeat
    by (simp only: list.distinct if_False append_Cons flip: replicate_append_same) (simp add: numeral_eq_Suc)
  have tmp: "child_of demo_link 3 ''tmp'' = Some 8"
    using wf_root(2) [OF wfD(1) [OF demo_wf]]
    by (simp add: demo_link_def child_of_def insert_new_effect [OF wfD(1) [OF demo_wf] demo_tree(7)] demo_tree)
  have "dirsN demo_link 3 (''tmp'' # replicate 40 ''l'') (0 + 40) 8"
    by (rule dirsN_Cons [OF tmp _ demo_link_tree(4) demo_link_dirs])
      (simp add: followsN_file demo_link_tree)
  then have path: "resolvesN demo_link 3 ?path (0 + 40 + 1) 8"
    by (intro resolvesN_path [OF _ names _ demo_link_child demo_link_follows])
      (simp_all add: path_start_def demo_link_tree)
  have base: "getBaseDir (- 100) demo_link = Inr 3"
    by (simp add: getBaseDir_def demo_link_tree)
  have "(40 :: nat) < 0 + 40 + 1"
    by simp
  then show ?thesis
    by (rule too_many_links [OF demo_link_wf base path])
qed

text \<open>
  C14: Path resolution ends in every state, well-formed or not, whatever links the tree holds: 40 levels
  of recursion are always enough.
\<close>

theorem resolution_terminates:
  "(\<exists>res t. parseFile path fd links s = Some (res, t)) \<and>
   (\<exists>res t. parseParent path fd s = Some (res, t)) \<and>
   (\<exists>res t. getFileFrom d path s = Some (res, t)) \<and>
   (\<exists>res t. getFileAt fd path flags s = Some (res, t))"
proof -
  have whole: "\<exists>res r' s'. doParseFile (followLinks MAX_RECURSIONS) path d links 0 s = Some (res, r', s')" for d links
    using doParseFile_total [OF total_limit] by blast
  have parent: "\<exists>res r' s'. doParseParent (followLinks MAX_RECURSIONS) path d 0 s = Some (res, r', s')" for d
    using doParseParent_total [OF total_limit] by blast
  have any: "\<exists>res t. parseFile path fd links s = Some (res, t)" for links
  proof (cases "getBaseDir fd s")
    case (Inr b)
    then show ?thesis
      using whole [of b links] by (auto simp: parseFile_def drop_count_def)
  qed (simp add: parseFile_def)
  moreover have "\<exists>res t. parseParent path fd s = Some (res, t)"
  proof (cases "getBaseDir fd s")
    case (Inr b)
    then show ?thesis
      using parent [of b] by (auto simp: parseParent_def drop_count_def)
  qed (simp add: parseParent_def)
  moreover have "\<exists>res t. getFileFrom d path s = Some (res, t)"
    using whole [of d FollowLinks] by (auto simp: getFileFrom_def drop_count_def)
  moreover have "\<exists>res t. getFileAt fd path flags s = Some (res, t)"
    using any by (auto simp: getFileAt_def split: option.splits)
  ultimately show ?thesis by blast
qed

end
