(* ===== verification/Path_Mono.thy ===== *)
theory Path_Mono
  imports Path_Laws
begin

text \<open>
  Resolution of the parent of a path, exactly, and how resolution carries over to a state with more
  names: what the laws on creating files rest on.
\<close>

section \<open>The parent of a path\<close>

lemma parseParent_gives:
  assumes wf: "wf_fs s" and base: "getBaseDir fd s = Inr base" and path: "path \<noteq> []" "path_names path = ns @ [n]"
    and dirs: "dirsN s (path_start s base path) ns k p"
  shows "parseParent path fd s = Some (if k \<le> MAX_RECURSIONS then Inr (p, n) else Inl ELOOP, s)"
proof -
  have "gives 0 k (p, n) s (doParseParent (followLinks MAX_RECURSIONS) path base 0 s)"
  proof (rule doParseParent_gives [OF path])
    show "gives 0 k (p, n) s (parse_segments (followLinks MAX_RECURSIONS) q (path_start s base path) 0 s)"
      if "q \<noteq> []" "\<not> is_slash (last q)" "comps q = ns @ [n]" for q
      using resolution_complete(2) [OF wfD(1) [OF wf] dirs] that by (simp add: enough_def)
    show "ns = [] \<Longrightarrow> k = 0 \<and> p = path_start s base path"
      using dirs by (auto elim: dirsN.cases)
  qed simp
  then show ?thesis
    using base by (auto simp: parseParent_def drop_count_def gives_def split: if_splits)
qed

lemma parseParent_counted:
  assumes wf: "wf_fs s" and run: "parseParent path fd s = Some (Inr (p, n), u)"
  obtains base ns k where "u = s" "getBaseDir fd s = Inr base" "path \<noteq> []" "path_names path = ns @ [n]"
    "dirsN s (path_start s base path) ns k p" "k \<le> 40" "is_dir s p"
proof (rule parseParent_wf [OF wfD(1) [OF wf], of path fd])
  fix e
  assume "parseParent path fd s = Some (Inl e, s)"
  then show thesis using run by simp
next
  fix p' n' base ns
  assume a: "parseParent path fd s = Some (Inr (p', n'), s)" "getBaseDir fd s = Inr base" "path \<noteq> []"
    "path_names path = ns @ [n']" "dirs s (path_start s base path) ns p'" "is_dir s p'"
  obtain k where k: "dirsN s (path_start s base path) ns k p'"
    using resolves_counted(2) [OF a(5)] by blast
  then have "k \<le> 40"
    using parseParent_gives [OF wf a(2-4) k] a(1) by (auto split: if_splits)
  then show thesis
    using that a run k by auto
qed

section \<open>More names\<close>

text \<open>
  A state extends another when every object that existed is the same kind of object, every link has
  its target, every lookup that succeeded has the same result, and descriptors lead to the same files.
\<close>

definition extends :: "fs \<Rightarrow> fs \<Rightarrow> bool" where
  "extends s t \<longleftrightarrow> fs_root t = fs_root s \<and> fs_cwd t = fs_cwd s \<and> fs_next s \<le> fs_next t \<and>
     (\<forall>f < fs_next s. kind t f = kind s f \<and> (\<forall>tgt. node_of s f = MemorySymlink tgt \<longrightarrow> node_of t f = MemorySymlink tgt)) \<and>
     (\<forall>d n c. child_of s d n = Some c \<longrightarrow> child_of t d n = Some c) \<and>
     (\<forall>fd oid. getEntry fd s = Some oid \<longrightarrow> getEntry fd t = Some oid \<and> file_of t oid = file_of s oid)"

lemma extends_refl [simp]: "extends s s"
  by (simp add: extends_def)

lemma extends_path_start: "extends s t \<Longrightarrow> path_start t d path = path_start s d path"
  by (simp add: extends_def path_start_def)

lemma extends_base:
  assumes "wf_fs s" "extends s t" "getBaseDir fd s = Inr base"
  shows "getBaseDir fd t = Inr base"
proof -
  have "kind t base = kind s base" if "is_dir s base"
    using wf_dir(1) [OF wfD(1) [OF assms(1)] that] assms(2) by (simp add: extends_def)
  then show ?thesis
    using assms(2,3) getBaseDir_dir [OF wfD(1) [OF assms(1)] assms(3)]
    by (auto simp: getBaseDir_def extends_def Let_def split: if_splits option.splits)
qed

lemma resolution_extends:
  assumes wf: "wf_tree s" and ext: "extends s t"
  shows "followsN s d c k f \<Longrightarrow> is_dir s d \<longrightarrow> c < fs_next s \<longrightarrow> followsN t d c k f \<and> f < fs_next s"
    and "dirsN s d ns k p \<Longrightarrow> is_dir s d \<longrightarrow> dirsN t d ns k p \<and> is_dir s p"
    and "resolvesN s d path k f \<Longrightarrow> is_dir s d \<longrightarrow> resolvesN t d path k f \<and> f < fs_next s"
proof (induction rule: followsN_dirsN_resolvesN.inducts)
  case (followsN_file c d)
  then show ?case
    using ext by (auto simp: extends_def intro: followsN_dirsN_resolvesN.followsN_file)
next
  case (followsN_link c tgt d k1 c' k2 f)
  show ?case
  proof (intro impI)
    assume "is_dir s d" "c < fs_next s"
    moreover from this have "node_of t c = MemorySymlink tgt"
      using ext followsN_link(1) by (simp add: extends_def)
    ultimately show "followsN t d c (Suc (k1 + k2)) f \<and> f < fs_next s"
      using followsN_link(3,5) by (auto intro: followsN_dirsN_resolvesN.followsN_link)
  qed
next
  case (dirsN_Nil d)
  then show ?case by (auto intro: followsN_dirsN_resolvesN.dirsN_Nil)
next
  case (dirsN_Cons d n c k1 e ns k2 f)
  show ?case
  proof
    assume d: "is_dir s d"
    then have "c < fs_next s" "child_of t d n = Some c"
      using child_of_linked(2) [OF wf d dirsN_Cons(1)] ext dirsN_Cons(1) by (simp_all add: extends_def)
    moreover from this have "followsN t d c k1 e" "e < fs_next s"
      using dirsN_Cons(3) d by auto
    moreover have "is_dir t e"
      using ext \<open>e < fs_next s\<close> dirsN_Cons(4) by (simp add: extends_def)
    ultimately show "dirsN t d (n # ns) (k1 + k2) f \<and> is_dir s f"
      using dirsN_Cons(4,6) by (auto intro: followsN_dirsN_resolvesN.dirsN_Cons)
  qed
next
  case (resolvesN_path path ns n d k1 p c k2 f)
  show ?case
  proof
    assume "is_dir s d"
    then have "is_dir s (path_start s d path)"
      by (rule path_start_dir [OF wf])
    then have p: "dirsN t (path_start t d path) ns k1 p" "is_dir s p"
      using resolvesN_path(4) extends_path_start [OF ext] by simp_all
    moreover have "c < fs_next s" "child_of t p n = Some c"
      using child_of_linked(2) [OF wf p(2) resolvesN_path(5)] ext resolvesN_path(5) by (simp_all add: extends_def)
    ultimately show "resolvesN t d path (k1 + k2) f \<and> f < fs_next s"
      using resolvesN_path(1,2,7)
      by (auto intro: followsN_dirsN_resolvesN.resolvesN_path)
  qed
qed

lemma parseParent_extends:
  assumes "wf_fs s" "wf_fs t" "extends s t" "parseParent path fd s = Some (Inr (p, n), s)"
  shows "parseParent path fd t = Some (Inr (p, n), t)"
proof (rule parseParent_counted [OF assms(1,4)])
  fix base ns k
  assume a: "getBaseDir fd s = Inr base" "path \<noteq> []" "path_names path = ns @ [n]"
    "dirsN s (path_start s base path) ns k p" "k \<le> 40"
  have "is_dir s (path_start s base path)"
    using path_start_dir getBaseDir_dir wfD(1) assms(1) a(1) by blast
  then have "dirsN t (path_start t base path) ns k p"
    using resolution_extends(2) [OF wfD(1) [OF assms(1)] assms(3) a(4)] extends_path_start [OF assms(3)] by simp
  then show ?thesis
    using parseParent_gives [OF assms(2) extends_base [OF assms(1,3) a(1)] a(2,3)] a(5) by simp
qed

text \<open>A path whose parent is found leads to the child of that name, when the child is no link.\<close>

lemma parseFile_of_parent:
  assumes "wf_fs s" "parseParent path fd s = Some (Inr (p, n), s)" "child_of s p n = Some c"
    and "links = NoFollowLinks \<or> \<not> is_link s c"
  shows "parseFile path fd links s = Some (Inr c, s)"
proof -
  obtain base where base: "getBaseDir fd s = Inr base"
    using assms(2) by (cases "getBaseDir fd s") (auto simp: parseParent_def)
  then obtain r where r: "doParseParent (followLinks MAX_RECURSIONS) path base 0 s = Some (Inr (p, n), r, s)"
    using assms(2) by (auto simp: parseParent_def drop_count_def)
  have "followLinks m c d r s = Some (Inr c, r, s)" if "\<not> is_link s c" for d m
    using that by (cases m) (auto simp: follow_step_def split: node.splits)
  then show ?thesis
    using base r assms(1,3,4) getChild_child_of [OF wfD(1)]
    by (auto simp: parseFile_def drop_count_def doParseFile_def path_getChild_def)
qed

text \<open>Creating a file extends the state.\<close>

lemma insert_new_child:
  fixes m
  assumes wf: "wf_tree s" and d: "is_dir s d" "parent_of s d = Some q" "child_of s d name = None"
    and n: "entries_of_node n = []" "dcache_of_node n = []"
  defines "t \<equiv> insert_new d name n m s"
  shows "child_of t d name = Some (fs_next s)"
    "(g, k) \<noteq> (d, name) \<Longrightarrow> g \<noteq> fs_next s \<Longrightarrow> child_of t g k = child_of s g k"
proof -
  note eff = insert_new_effect [OF wf d(1) n, where name = name and m = m, folded t_def]
  have ne: "d \<noteq> fs_next s"
    using wf_dir(1) [OF wf d(1)] by simp
  note no = child_of_None [OF d(3,2)]
  have nodc: "map_of (dcache s d) name = None" "map_of (entries s d) name = None"
    using no(3,4) by (simp_all add: map_of_eq_None_iff)
  show "child_of t d name = Some (fs_next s)"
    using no(1,2) d(2) ne by (simp add: child_of_def eff nodc map_add_def)
  show "(g, k) \<noteq> (d, name) \<Longrightarrow> g \<noteq> fs_next s \<Longrightarrow> child_of t g k = child_of s g k"
    by (auto simp: child_of_def eff map_add_def split: option.splits)
qed

lemma insert_new_extends:
  assumes wf: "wf_tree s" and d: "is_dir s d" "parent_of s d = Some q" "child_of s d name = None"
    and n: "entries_of_node n = []" "dcache_of_node n = []"
  shows "extends s (insert_new d name n m s)"
proof -
  note eff = insert_new_effect [OF wf d(1) n, where name = name and m = m]
  note child = insert_new_child [OF wf d n, where m = m]
  have "parent_of s (fs_next s) = None"
    using wf_parent(1) [OF wf] by (metis less_irrefl not_None_eq)
  then have none: "child_of s (fs_next s) k = None" for k
    by (simp add: child_of_def)
  have "child_of (insert_new d name n m s) g k = Some c" if "child_of s g k = Some c" for g k c
    using that none d(3) child(2) [of g k] by (metis option.distinct(1) prod.inject)
  moreover have "node_of (insert_new d name n m s) f = MemorySymlink tgt"
    if "f < fs_next s" "node_of s f = MemorySymlink tgt" for f tgt
    using insert_new_nodes(2) [OF wf d(1), of f] that d(1) by (cases "f = d") auto
  ultimately show ?thesis
    using eff by (simp add: extends_def getEntry_def)
qed

end
