(* ===== verification/Name_Laws.thy ===== *)
theory Name_Laws
  imports Path_Mono
begin

text \<open>
  What the calls on names do to the tree: creating, removing and renaming as updates of one map from
  a directory and a name to a file, and what a path leads to afterwards.
\<close>

section \<open>The map of names\<close>

definition names :: "fs \<Rightarrow> fid \<times> string \<Rightarrow> fid option" where
  "names s = (\<lambda>(d, n). case map_of (dcache s d) n of
     Some e \<Rightarrow> Some (dc_file e) | None \<Rightarrow> map_of (entries s d) n)"

definition kinds :: "fs \<Rightarrow> fid \<Rightarrow> FileKind option" where
  "kinds s f = (if f < fs_next s then Some (kind s f) else None)"

lemma child_of_names:
  "child_of s d n = (case parent_of s d of None \<Rightarrow> None | Some p \<Rightarrow>
     if n = ''.'' then Some d else if n = ''..'' then Some p else names s (d, n))"
  by (auto simp: child_of_def names_def split: option.splits)

lemma names_iff:
  assumes "wf_tree s"
  shows "names s (d, n) = Some f \<longleftrightarrow>
    (n, f) \<in> set (entries s d) \<or> (\<exists>e. (n, e) \<in> set (dcache s d) \<and> dc_file e = f)"
proof -
  note c = wf_containers [OF assms, of d]
  have dist: "distinct (map fst (dcache s d))" "distinct (map fst (entries s d))"
    using c(1,2) by (simp_all add: good_entries_def strict_sorted_iff)
  show ?thesis
  proof (cases "map_of (dcache s d) n")
    case None
    then have "(n, e) \<notin> set (dcache s d)" for e
      by (metis map_of_eq_Some_iff dist(1) option.distinct(1))
    then show ?thesis
      using None map_of_eq_Some_iff [OF dist(2)] by (simp add: names_def)
  next
    case (Some e)
    then have e: "(n, e) \<in> set (dcache s d)"
      by (rule map_of_SomeD)
    then have "n \<notin> fst ` set (entries s d)"
      using c(3) by (force simp: rev_image_eqI)
    then have "(n, x) \<notin> set (entries s d)" for x
      by (force simp: rev_image_eqI)
    moreover have "(n, e') \<in> set (dcache s d) \<longleftrightarrow> e' = e" for e'
      using Some map_of_eq_Some_iff [OF dist(1)] by (metis option.inject)
    ultimately show ?thesis
      using Some by (simp add: names_def)
  qed
qed

lemma names_parent:
  assumes "wf_tree s" "names s (d, n) = Some f"
  shows "parent_of s f = Some d" "f < fs_next s" "f \<noteq> fs_root s" "is_dir s d"
proof -
  have "parent_of s f = Some d \<and> f < fs_next s \<and> f \<noteq> fs_root s"
    using assms wf_entry [OF assms(1)] wf_mount [OF assms(1)] wf_root(1) [OF assms(1)]
    unfolding names_iff [OF assms(1)] by metis
  then show "parent_of s f = Some d" "f < fs_next s" "f \<noteq> fs_root s"
    by auto
  then show "is_dir s d"
    using wf_parent(2) [OF assms(1)] by blast
qed

lemma names_unique:
  assumes "wf_tree s" "dcache s d = []" "names s (d, n) = Some f" "names s (d, m) = Some f"
  shows "n = m"
  using assms entry_name_unique [OF wf_containers(1) [OF assms(1)]] by (auto simp: names_iff [OF assms(1)])

lemma names_inj:
  assumes "wf_tree s" "dcache s d = []" "names s (d, n) = Some f" "names s (g, k) = Some f"
  shows "g = d \<and> k = n"
proof -
  have "g = d"
    using names_parent(1) [OF assms(1,3)] names_parent(1) [OF assms(1,4)] by simp
  then show ?thesis
    using names_unique [OF assms(1-3)] assms(4) by simp
qed

text \<open>Two well-formed trees with the same members have the same names.\<close>

lemma names_shape: "same_shape s t \<Longrightarrow> names t = names s" "same_shape s t \<Longrightarrow> kinds t = kinds s"
  by (simp_all add: names_def kinds_def same_shapeD fun_eq_iff cong: option.case_cong)

section \<open>Creating\<close>

lemma names_insert_new:
  assumes wf: "wf_tree s" and d: "is_dir s d" "parent_of s d = Some q" "child_of s d name = None"
    and n: "entries_of_node n = []" "dcache_of_node n = []"
  shows "names (insert_new d name n m s) = (names s)((d, name) \<mapsto> fs_next s)"
    "kinds (insert_new d name n m s) = (kinds s)(fs_next s \<mapsto> kind_of n)"
    "names s (d, name) = None"
proof -
  note eff = insert_new_effect [OF wf d(1) n, where name = name and m = m]
  have none: "map_of (dcache s d) name = None" "map_of (entries s d) name = None"
    using child_of_None(3,4) [OF d(3,2)] by (simp_all add: map_of_eq_None_iff)
  show "names (insert_new d name n m s) = (names s)((d, name) \<mapsto> fs_next s)"
    by (auto simp: names_def eff none map_add_def fun_eq_iff split: option.splits)
  show "kinds (insert_new d name n m s) = (kinds s)(fs_next s \<mapsto> kind_of n)"
    by (auto simp: kinds_def eff less_Suc_eq)
  show "names s (d, name) = None"
    by (simp add: names_def none)
qed

section \<open>Removing\<close>

lemma names_removeChild:
  assumes wf: "wf_tree s" and d: "is_dir s d" "dcache s d = []"
  shows "names (snd (removeChild d name s)) = (names s)((d, name) := None)"
    "kinds (snd (removeChild d name s)) = kinds s"
proof -
  note eff = memdir_removeChild_effect [OF d(1), where name = name]
  have "distinct (map fst (entries s d))"
    using wf_containers(1) [OF wf] by (simp add: good_entries_def)
  then have "map_of (erase_entry name (entries s d)) = (map_of (entries s d))(name := None)"
    by (simp add: erase_entry_def map_of_erase_first_key)
  then show "names (snd (removeChild d name s)) = (names s)((d, name) := None)"
    using d(2) by (auto simp: removeChild_def names_def eff fun_eq_iff split: option.split)
  show "kinds (snd (removeChild d name s)) = kinds s"
    using d(2) by (simp add: removeChild_def kinds_def eff fun_eq_iff)
qed

section \<open>Renaming\<close>

lemma names_move:
  assumes wf: "wf_tree s" "wf_tree t" and dc: "\<And>g. dcache t g = dcache s g" "dcache s np = []"
    and new: "(nn, c) \<in> set (entries t np)"
    and rest: "\<And>g n x. x \<noteq> c \<Longrightarrow> g \<noteq> np \<or> n \<noteq> nn \<Longrightarrow>
      (n, x) \<in> set (entries t g) \<longleftrightarrow> (n, x) \<in> set (entries s g)"
    and old: "names s (p, pn) = Some c" "\<And>n e. (n, e) \<in> set (dcache s p) \<Longrightarrow> dc_file e \<noteq> c"
  shows "names t = (names s)((p, pn) := None, (np, nn) \<mapsto> c)"
proof (rule ext, clarify)
  fix g n
  have c: "names t (np, nn) = Some c"
    using new by (simp add: names_iff [OF wf(2)])
  show "names t (g, n) = ((names s)((p, pn) := None, (np, nn) \<mapsto> c)) (g, n)"
  proof (cases "(g, n) = (np, nn)")
    case True
    then show ?thesis using c by simp
  next
    case False
    have t: "names t (g, n) \<noteq> Some c"
    proof
      assume "names t (g, n) = Some c"
      then have "g = np \<and> n = nn"
        by (rule names_inj [OF wf(2) _ c, rotated]) (simp add: dc)
      then show False using False by simp
    qed
    have s: "(g, n) = (p, pn)" if "names s (g, n) = Some c"
    proof -
      have "g = p"
        using names_parent(1) [OF wf(1) old(1)] names_parent(1) [OF wf(1) that] by simp
      then show ?thesis
        using old that entry_name_unique [OF wf_containers(1) [OF wf(1)]]
        by (auto simp: names_iff [OF wf(1)])
    qed
    have eq: "names t (g, n) = Some x \<longleftrightarrow> names s (g, n) = Some x" if "x \<noteq> c" for x
      using that False rest [of x g n] dc by (auto simp: names_iff [OF wf(1)] names_iff [OF wf(2)])
    show ?thesis
    proof (cases "(g, n) = (p, pn)")
      case True
      then have "names t (g, n) = None"
        using t eq old(1) by (cases "names t (g, n)") auto
      then show ?thesis using True False by simp
    next
      case no: False
      then have "names t (g, n) = names s (g, n)"
        using t s eq by (metis not_Some_eq)
      then show ?thesis using no False by auto
    qed
  qed
qed

end
