(* ===== verification/Name_Calls.thy ===== *)
theory Name_Calls
  imports Name_Laws
begin

text \<open>
  The laws of the calls on names, one for each call: what it does to the tree, and what the same path
  leads to afterwards.
\<close>

section \<open>Parents\<close>

lemma parse_dir: "wf_fs s \<Longrightarrow> parseParent path fd s = Some (Inr (d, n), s) \<Longrightarrow> is_dir s d"
  by (erule (1) parseParent_counted)

lemma child_parent: "child_of s d n = Some f \<Longrightarrow> \<exists>p. parent_of s d = Some p"
  by (auto simp: child_of_def split: option.splits)

lemma neg_errno_nonzero [simp]: "neg_errno e \<noteq> 0" "0 \<noteq> neg_errno e"
proof -
  have "(of_nat (errno_num e) :: u32) \<noteq> 0"
    using errno_num_bounds [of e] by (simp add: word_unat_eq_iff unat_of_nat)
  then show "neg_errno e \<noteq> 0" "0 \<noteq> neg_errno e"
    by (auto simp: neg_errno_def)
qed

lemma child_of_empty:
  "entries s d = [] \<Longrightarrow> dcache s d = [] \<Longrightarrow> n \<noteq> ''.'' \<Longrightarrow> n \<noteq> ''..'' \<Longrightarrow> child_of s d n = None"
  by (simp add: child_of_def split: option.split)

text \<open>The path /tmp/a in the concrete state.\<close>

lemma demo_tmp: "dirsN demo_fs 3 [''tmp''] 0 8"
proof -
  have "child_of demo_fs 3 ''tmp'' = Some 8"
    using wf_root(2) [OF wfD(1) [OF demo_wf]] by (simp add: child_of_def demo_tree)
  then have "dirsN demo_fs 3 [''tmp''] (0 + 0) 8"
    by (rule dirsN_Cons [OF _ followsN_file demo_tree(7) dirsN_Nil]) (simp add: demo_tree)
  then show ?thesis by simp
qed

lemma demo_parse: "parseParent ''/tmp/a'' (- 100) demo_fs = Some (Inr (8, ''a''), demo_fs)"
proof -
  have "path_names ''/tmp/a'' = [''tmp''] @ [''a'']"
    by (simp add: path_names_def comps_def)
  moreover have "dirsN demo_fs (path_start demo_fs 3 ''/tmp/a'') [''tmp''] 0 8"
    using demo_tmp by (simp add: path_start_def demo_tree)
  ultimately show ?thesis
    using parseParent_gives [OF demo_wf, of "- 100" 3 "''/tmp/a''"] by (simp add: getBaseDir_def demo_tree)
qed

section \<open>The new file\<close>

text \<open>What is known of the state after a file is inserted under a path that did not lead anywhere.\<close>

lemma insert_path:
  fixes m
  assumes wf: "wf_fs s" and parse: "parseParent path fd s = Some (Inr (d, n), s)"
    and d: "child_of s d n = None" "parent_of s d = Some q"
    and node: "entries_of_node nd = []" "dcache_of_node nd = []"
  defines "t \<equiv> insert_new d n nd m s"
  shows "wf_fs t" "extends s t" "parseParent path fd t = Some (Inr (d, n), t)"
    "child_of t d n = Some (fs_next s)" "node_of t (fs_next s) = nd" "mode_of t (fs_next s) = m"
    "parent_of t (fs_next s) = Some d" "entries t (fs_next s) = []" "fs_next t = Suc (fs_next s)"
    "fs_table t = fs_table s" "fs_ofiles t = fs_ofiles s" "fs_ofnext t = fs_ofnext s" "fs_mem t = fs_mem s"
    "fs_root t = fs_root s" "fs_cwd t = fs_cwd s" "mode_of t d = mode_of s d"
    "backend_of t (fs_next s) = backend_of s d" "backend_of t d = backend_of s d"
    "\<forall>g k. g \<noteq> fs_next s \<longrightarrow> (g, k) \<noteq> (d, n) \<longrightarrow> child_of t g k = child_of s g k"
proof -
  note wt = wfD(1) [OF wf]
  note dir = parse_dir [OF wf parse]
  show "wf_fs t"
    unfolding t_def by (rule wf_insert_new [OF wf dir d(2,1) node])
  moreover show "extends s t"
    unfolding t_def by (rule insert_new_extends [OF wt dir d(2,1) node])
  ultimately show "parseParent path fd t = Some (Inr (d, n), t)"
    by (rule parseParent_extends [OF wf _ _ parse])
  note eff = insert_new_effect [OF wt dir node, where name = n and m = m, folded t_def]
  have new: "d \<noteq> fs_next s"
    using wf_dir(1) [OF wt dir] by simp
  show "backend_of t (fs_next s) = backend_of s d" "backend_of t d = backend_of s d"
    unfolding t_def using insert_new_nodes(5) [OF wt dir] new by simp_all
  show "fs_root t = fs_root s" "fs_cwd t = fs_cwd s" "mode_of t d = mode_of s d"
    using new by (simp_all add: eff)
  show "mode_of t (fs_next s) = m" "parent_of t (fs_next s) = Some d" "fs_next t = Suc (fs_next s)"
    "fs_table t = fs_table s" "fs_ofiles t = fs_ofiles s" "fs_ofnext t = fs_ofnext s"
    by (simp_all add: eff)
  show "node_of t (fs_next s) = nd" "fs_mem t = fs_mem s"
    unfolding t_def by (rule insert_new_nodes(1,3) [OF wt dir])+
  then show "entries t (fs_next s) = []"
    using node by simp
  note child = insert_new_child [OF wt dir d(2,1) node, where m = m, folded t_def]
  show "child_of t d n = Some (fs_next s)"
    by (rule child)
  show "\<forall>g k. g \<noteq> fs_next s \<longrightarrow> (g, k) \<noteq> (d, n) \<longrightarrow> child_of t g k = child_of s g k"
    using child(2) by blast
qed

section \<open>mkdir\<close>

lemma mkdir_run:
  assumes "wf_fs s" "parseParent path fd s = Some (Inr (d, n), s)" "length n \<le> 255"
    and "child_of s d n = None" "parent_of s d = Some q" "mode_of s d AND 0x92 \<noteq> 0"
  shows "syscall_mkdirat fd path mode s =
    Some (0, insert_new d n (MemoryDirectory [] []) ((mode AND 0x3FF) OR 0x4000) s)"
  using assms
  by (simp add: syscall_mkdirat_def with_parent_def doMkdir_def getChild_child_of [OF wfD(1)] inserts_new
      Let_def)

text \<open>
  C16: When the parent of a path exists, is linked and writable and has no such name, mkdir makes an
  empty directory of the given permissions: the path then leads to it, every other lookup is as
  before, and the same call is EEXIST.
\<close>

theorem mkdir_then_find:
  assumes "wf_fs s" "parseParent path fd s = Some (Inr (d, n), s)" "length n \<le> 255"
    and "child_of s d n = None" "parent_of s d = Some q" "mode_of s d AND 0x92 \<noteq> 0"
  shows "\<exists>t. syscall_mkdirat fd path mode s = Some (0, t) \<and> wf_fs t \<and>
    parseFile path fd FollowLinks t = Some (Inr (fs_next s), t) \<and>
    is_dir t (fs_next s) \<and> entries t (fs_next s) = [] \<and> parent_of t (fs_next s) = Some d \<and>
    mode_of t (fs_next s) = (mode AND 0x3FF) OR 0x4000 \<and>
    (\<forall>g k. g \<noteq> fs_next s \<longrightarrow> (g, k) \<noteq> (d, n) \<longrightarrow> child_of t g k = child_of s g k) \<and>
    syscall_mkdirat fd path mode' t = Some (neg_errno EEXIST, t)"
proof -
  define m where "m = (mode AND 0x3FF) OR 0x4000"
  define t where "t = insert_new d n (MemoryDirectory [] []) m s"
  note facts = insert_path [OF assms(1,2,4,5), of "MemoryDirectory [] []" m, folded t_def, simplified]
  have "parseFile path fd FollowLinks t = Some (Inr (fs_next s), t)"
    by (rule parseFile_of_parent [OF facts(1,3,4)]) (simp add: facts)
  moreover have "syscall_mkdirat fd path mode' t = Some (neg_errno EEXIST, t)"
    using facts(3,4) assms(3)
    by (simp add: syscall_mkdirat_def with_parent_def doMkdir_def getChild_child_of [OF wfD(1) [OF facts(1)]] fails_def)
  ultimately show ?thesis
    using mkdir_run [OF assms, of mode] facts
    by (intro exI [of _ t]) (simp add: t_def m_def)
qed

lemma mkdir_then_find_witness:
  "\<exists>t. syscall_mkdirat (- 100) ''/tmp/a'' 0x1FF demo_fs = Some (0, t) \<and>
    parseFile ''/tmp/a'' (- 100) FollowLinks t = Some (Inr 9, t)"
  using mkdir_then_find [OF demo_wf demo_parse, of 3 "0x1FF" 0]
  by (auto simp: demo_tmp_child demo_tree)

section \<open>open\<close>

text \<open>A file is opened: the lowest free descriptor gets a new open file at position 0.\<close>

lemma open_file_opens:
  assumes wf: "wf_fs u" and f: "f < fs_next u" "is_dir u f \<Longrightarrow> parent_of u f \<noteq> None"
    and tbl: "length (fs_table u) < 2 ^ 32"
  obtains fd t where "open_file f flags (\<lambda>s. Some (None, s)) u = Some (fd, t)" "wf_fs t"
    "getEntry fd u = None" "\<And>k. k < fd \<Longrightarrow> getEntry k u \<noteq> None"
    "\<And>k. getEntry k t = (if k = fd then Some (fs_ofnext u) else getEntry k u)"
    "file_of t (fs_ofnext u) = f" "of_position (fs_ofiles t (fs_ofnext u)) = 0"
    "of_flags (fs_ofiles t (fs_ofnext u)) = flags" "same_shape u t" "fs_heap t = fs_heap u"
    "\<And>x. x \<noteq> fs_ofnext u \<Longrightarrow> file_of t x = file_of u x \<and>
      of_position (fs_ofiles t x) = of_position (fs_ofiles u x)"
proof -
  have "\<exists>oid v. OpenFileState_create f flags u = Some (Inr oid, v)"
    using f(2) by (cases "parent_of u f") (auto simp: OpenFileState_create_def Let_def)
  then obtain oid v where v: "OpenFileState_create f flags u = Some (Inr oid, v)"
    by blast
  note create = OpenFileState_create_effect [OF v]
  obtain fd t where t: "addEntry oid v = (fd, t)"
    by (rule prod.exhaust)
  have run: "open_file f flags (\<lambda>s. Some (None, s)) u = Some (fd, t)"
    by (simp add: open_file_def v t)
  have "safe (open_file f flags (\<lambda>s. Some (None, s))) u"
    by (rule open_file_safe [OF wf f]) auto
  then have wft: "wf_fs t"
    using run by (auto simp: safe_def)
  have same: "getEntry k v = getEntry k u" for k
    by (simp add: getEntry_def create)
  note add = addEntry_lowest [OF _ t]
  note keep = addEntry_keeps [OF t]
  have "same_shape v t"
    using t setEntry_shape [of v fd "Some oid"] by (auto simp: addEntry_def Let_def)
  then have "same_shape u t"
    by (rule same_shape_trans [OF create(2)])
  then show thesis
    using that [OF run wft] add keep tbl create same by (simp add: create(1))
qed

lemma opens_extends:
  assumes "wf_fs u" "same_shape u t" "fs_heap t = fs_heap u" "getEntry fd u = None"
    and "\<And>k. getEntry k t = (if k = fd then Some (fs_ofnext u) else getEntry k u)"
    and "\<And>x. x \<noteq> fs_ofnext u \<Longrightarrow> file_of t x = file_of u x"
  shows "extends u t"
proof -
  have "oid < fs_ofnext u" if "getEntry k u = Some oid" for k oid
    using getEntry_wf [OF wfD(2) [OF assms(1)] that] by simp
  then show ?thesis
    using assms child_of_shape [OF assms(2)] by (fastforce simp: extends_def same_shapeD)
qed

lemma openat_creates:
  assumes "wf_fs s" "parseParent path fd s = Some (Inr (d, n), s)" "length n \<le> 255"
    and "child_of s d n = None" "parent_of s d = Some q" "length (fs_table s) < 2 ^ 32"
    and "flags AND 0x200003 = 0 \<or> flags AND 0x200003 = 1 \<or> flags AND 0x200003 = 2" "flags AND 0x40 \<noteq> 0"
  shows "\<exists>fd' t. syscall_openat fd path flags mode s = Some (fd', t) \<and> wf_fs t \<and>
    getEntry fd' s = None \<and> (\<forall>k < fd'. getEntry k s \<noteq> None) \<and>
    (\<forall>k. getEntry k t = (if k = fd' then Some (fs_ofnext s) else getEntry k s)) \<and>
    file_of t (fs_ofnext s) = fs_next s \<and> of_position (fs_ofiles t (fs_ofnext s)) = 0 \<and>
    of_flags (fs_ofiles t (fs_ofnext s)) = flags \<and>
    node_of t (fs_next s) = MemoryDataFile [] \<and> mode_of t (fs_next s) = (mode AND 0xFFF) OR 0x8000 \<and>
    parseFile path fd FollowLinks t = Some (Inr (fs_next s), t)"
proof -
  define m where "m = (mode AND 0xFFF) OR 0x8000"
  define u where "u = insert_new d n (MemoryDataFile []) m s"
  note facts = insert_path [OF assms(1,2,4,5), of "MemoryDataFile []" m, folded u_def, simplified]
  have entry: "getEntry k u = getEntry k s" for k
    by (simp add: getEntry_def facts)
  show ?thesis
  proof (rule open_file_opens [OF facts(1), of "fs_next s" flags])
    fix fd' t
    assume t: "open_file (fs_next s) flags (\<lambda>s. Some (None, s)) u = Some (fd', t)" "wf_fs t"
      "getEntry fd' u = None" "\<And>k. k < fd' \<Longrightarrow> getEntry k u \<noteq> None"
      "\<And>k. getEntry k t = (if k = fd' then Some (fs_ofnext u) else getEntry k u)"
      "file_of t (fs_ofnext u) = fs_next s" "of_position (fs_ofiles t (fs_ofnext u)) = 0"
      "of_flags (fs_ofiles t (fs_ofnext u)) = flags" "same_shape u t" "fs_heap t = fs_heap u"
      "\<And>x. x \<noteq> fs_ofnext u \<Longrightarrow> file_of t x = file_of u x \<and>
        of_position (fs_ofiles t x) = of_position (fs_ofiles u x)"
    have ext: "extends u t"
      by (rule opens_extends [OF facts(1) t(9,10,3,5)]) (use t(11) in simp)
    have parse: "parseParent path fd t = Some (Inr (d, n), t)"
      by (rule parseParent_extends [OF facts(1) t(2) ext facts(3)])
    have child: "child_of t d n = Some (fs_next s)"
      using child_of_shape [OF t(9)] facts(4) by simp
    have "parseFile path fd FollowLinks t = Some (Inr (fs_next s), t)"
      by (rule parseFile_of_parent [OF t(2) parse child]) (simp add: t(10) facts)
    moreover have "syscall_openat fd path flags mode s = Some (fd', t)"
      using assms t(1)
      by (auto simp: syscall_openat_def with_parent_def doOpen_def getChild_child_of [OF wfD(1)]
          open_create_def inserts_new Let_def m_def u_def)
    ultimately show ?thesis
      using t facts entry by (intro exI [of _ fd'] exI [of _ t]) (auto simp: m_def)
  qed (use facts assms(6) in auto)
qed



section \<open>symlink and readlink\<close>

lemma symlinkat_readlinkat:
  assumes "wf_fs s" "parseParent path fd s = Some (Inr (d, n), s)" "length n \<le> 255"
    and "child_of s d n = None" "parent_of s d = Some q"
  shows "\<exists>t u. syscall_symlinkat tgt fd path s = Some (0, t) \<and> wf_fs t \<and>
    syscall_readlinkat fd path buf bufsize t = Some (of_nat (min (unat bufsize) (length tgt)), u) \<and>
    mem_read u buf (of_nat (min (unat bufsize) (length tgt))) = chars_to_bytes (take (unat bufsize) tgt) \<and>
    syscall_symlinkat tgt' fd path t = Some (neg_errno EEXIST, t)"
proof -
  define t where "t = insert_new d n (MemorySymlink tgt) 0xA000 s"
  note facts = insert_path [OF assms(1,2,4,5), of "MemorySymlink tgt" "0xA000", folded t_def, simplified]
  define k where "k = min (unat bufsize) (length tgt)"
  define u where "u = t\<lparr>fs_mem := mem_store buf (chars_to_bytes (take k tgt)) (fs_mem t)\<rparr>"
  have "parseFile path fd NoFollowLinks t = Some (Inr (fs_next s), t)"
    by (rule parseFile_of_parent [OF facts(1,3,4)]) simp
  then have "syscall_readlinkat fd path buf bufsize t = Some (of_nat k, u)"
    by (simp add: syscall_readlinkat_def facts k_def u_def Let_def)
  moreover have "k < 2 ^ 32"
    using unsigned_less [of bufsize, where ?'a = nat] by (simp add: k_def)
  then have "mem_read u buf (of_nat k) = chars_to_bytes (take k tgt)"
    unfolding u_def by (intro mem_read_store) (simp add: unat_of_nat chars_to_bytes_def k_def)
  moreover have "take k tgt = take (unat bufsize) tgt"
    by (simp add: k_def min_def)
  moreover have "syscall_symlinkat tgt fd path s = Some (0, t)"
    using assms by (simp add: syscall_symlinkat_def with_parent_def symlink_checked_def
        getChild_child_of [OF wfD(1)] inserts_new t_def)
  moreover have "syscall_symlinkat tgt' fd path t = Some (neg_errno EEXIST, t)"
    using facts(3,4) assms(3) by (simp add: syscall_symlinkat_def with_parent_def symlink_checked_def
        getChild_child_of [OF wfD(1) [OF facts(1)]] fails_def)
  ultimately show ?thesis
    using facts(1) by (intro exI [of _ t] exI [of _ u]) (simp add: k_def)
qed

text \<open>
  C19: A symbolic link made under a new name is read back by readlink under the same path: the target,
  cut to the size of the buffer, and its length. The link itself is found without following it.
\<close>

theorem symlink_readlink_roundtrip:
  assumes "wf_fs s" "parseParent path fd s = Some (Inr (d, n), s)" "length n \<le> 255"
    and "child_of s d n = None" "parent_of s d = Some q"
  shows "\<exists>t u. syscall_symlinkat tgt fd path s = Some (0, t) \<and> wf_fs t \<and>
    syscall_readlinkat fd path buf bufsize t = Some (of_nat (min (unat bufsize) (length tgt)), u) \<and>
    mem_read u buf (of_nat (min (unat bufsize) (length tgt))) = chars_to_bytes (take (unat bufsize) tgt) \<and>
    syscall_symlinkat tgt' fd path t = Some (neg_errno EEXIST, t)"
  by (rule symlinkat_readlinkat [OF assms])

lemma symlink_readlink_roundtrip_witness:
  "\<exists>t u. syscall_symlinkat ''../dev'' (- 100) ''/tmp/a'' demo_fs = Some (0, t) \<and>
    syscall_readlinkat (- 100) ''/tmp/a'' 64 16 t = Some (6, u) \<and>
    mem_read u 64 6 = chars_to_bytes ''../dev''"
  using symlink_readlink_roundtrip [OF demo_wf demo_parse, of 3 "''../dev''" 64 16 "''b''"]
  by (auto simp: demo_tmp_child demo_tree min_def)

section \<open>unlink and rmdir\<close>

lemma memdir_removeChild_nodes:
  "\<not> is_dir s g \<Longrightarrow> is_dir s d \<Longrightarrow> node_of (memdir_removeChild d name s) g = node_of s g"
  "fs_mem (memdir_removeChild d name s) = fs_mem s"
  by (auto simp: memdir_removeChild_eq fs_defs split: option.splits)

lemma child_is_name:
  "child_of s d n = Some f \<Longrightarrow> n \<noteq> ''.'' \<Longrightarrow> n \<noteq> ''..'' \<Longrightarrow> names s (d, n) = Some f"
  by (auto simp: child_of_names split: option.splits)

lemma unlink_checked_ok:
  assumes wf: "wf_fs s" and d: "is_dir s d" and run: "unlink_checked d n flags s = Some (0, t)"
  obtains f where "child_of s d n = Some f" "f \<noteq> fs_root s" "is_dir s f \<longleftrightarrow> flags = 0x200"
    "is_dir s f \<longrightarrow> entries s f = [] \<and> dcache s f = []" "mode_of s d AND 0x92 \<noteq> 0"
    "t = snd (removeChild d n s)" "dcache s d = []"
proof -
  note wt = wfD(1) [OF wf]
  obtain f where f: "child_of s d n = Some f"
    using run by (cases "child_of s d n") (auto simp: unlink_checked_def getChild_child_of [OF wt] fails_def)
  have conds: "f \<noteq> fs_root s" "is_dir s f \<longleftrightarrow> flags = 0x200" "\<not> (is_dir s f \<and> 0 < getNumEntries f s)"
    "mode_of s d AND 0x92 \<noteq> 0" "finish_remove d n s = Some (0, t)"
    using run f by (auto simp: unlink_checked_def getChild_child_of [OF wt] fails_def split: if_splits)
  moreover have "t = snd (removeChild d n s)"
    using conds(5) by (auto simp: finish_remove_def fails_def split: prod.splits sum.splits)
  ultimately show thesis
    using that [OF f] no_entries [OF wt] writable_no_mounts [OF wt] by auto
qed


lemma demo_parse_tmp: "parseParent ''/tmp'' (- 100) demo_fs = Some (Inr (3, ''tmp''), demo_fs)"
proof -
  have "path_names ''/tmp'' = [] @ [''tmp'']"
    by (simp add: path_names_def comps_def)
  moreover have "dirsN demo_fs (path_start demo_fs 3 ''/tmp'') [] 0 3"
    using dirsN_Nil [of demo_fs 3] by (simp add: path_start_def demo_tree)
  ultimately show ?thesis
    using parseParent_gives [OF demo_wf, of "- 100" 3 "''/tmp''"] by (simp add: getBaseDir_def demo_tree)
qed

lemma demo_child_tmp: "child_of demo_fs 3 ''tmp'' = Some 8" "parent_of demo_fs 3 = Some 3" "is_dir demo_fs 3"
  using wf_root(1,2) [OF wfD(1) [OF demo_wf]] by (simp_all add: child_of_def demo_tree)

lemma demo_rmdir: "syscall_unlinkat (- 100) ''/tmp'' 0x200 demo_fs =
    Some (0, snd (removeChild 3 ''tmp'' demo_fs))"
proof -
  have rm: "removeChild 3 ''tmp'' demo_fs = (Inr (), snd (removeChild 3 ''tmp'' demo_fs))"
    by (simp add: removeChild_def demo_tree)
  have finish: "finish_remove 3 ''tmp'' demo_fs = Some (0, snd (removeChild 3 ''tmp'' demo_fs))"
    by (subst finish_remove_def, subst rm) simp
  have "getNumEntries 8 demo_fs = 0"
    by (simp add: getNumEntries_def memdir_getNumEntries_def mounts_def demo_tree)
  moreover have "\<not> ends_in_dot ''/tmp''"
    by (simp add: ends_in_dot_def strip_trailing_def)
  ultimately show ?thesis
    using demo_parse_tmp demo_child_tmp finish
    by (simp add: syscall_unlinkat_def with_parent_def unlink_checked_def
        getChild_child_of [OF wfD(1) [OF demo_wf]] demo_tree)
qed


section \<open>rename\<close>

lemma meets_below:
  assumes "parent_of s (fs_root s) = Some (fs_root s)" "old \<noteq> fs_root s" "(cur, old) \<in> (up s)\<^sup>*"
  shows "meets old cur s = Some True"
  using assms(3)
proof (induction rule: converse_rtrancl_induct)
  case base
  then show ?case using assms(2) by (subst meets.simps) simp
next
  case (step y z)
  have "y \<noteq> fs_root s"
  proof
    assume "y = fs_root s"
    then have "z = fs_root s"
      using step(1) assms(1) by (auto simp: up_def)
    then have "meets old z s = Some False"
      by (subst meets.simps) simp
    then show False using step.IH by simp
  qed
  then show ?case
    using step by (subst meets.simps) (simp add: up_def)
qed

lemma renameat_run:
  assumes "parseParent oldpath oldfd s = Some (Inr (od, on), s)"
    and "parseParent newpath newfd s = Some (Inr (nd, nn), s)"
  shows "syscall_renameat oldfd oldpath newfd newpath s =
    (if 255 < length nn then fails ENAMETOOLONG s else rename_checked od on nd nn s)"
  using assms by (simp add: syscall_renameat_def with_parent_def)


text \<open>The concrete state with an empty directory /tmp/a, and with the path /tmp/a/b.\<close>

definition demo_dir :: fs where
  "demo_dir = insert_new 8 ''a'' (MemoryDirectory [] []) 0x41FF demo_fs"

lemmas demo_dir_facts = insert_path [OF demo_wf demo_parse demo_tmp_child demo_tree(10),
    of "MemoryDirectory [] []" "0x41FF", folded demo_dir_def, simplified demo_tree, simplified]

lemma demo_dir_tmp: "child_of demo_dir 3 ''tmp'' = Some 8" "is_dir demo_dir 8" "is_dir demo_dir 3"
  "parent_of demo_dir 8 = Some 3" "parent_of demo_dir 3 = Some 3"
  using demo_dir_facts(19) demo_child_tmp demo_tree
    insert_new_effect(4,7) [OF wfD(1) [OF demo_wf] demo_tree(7), of "MemoryDirectory [] []" "''a''" "0x41FF",
      folded demo_dir_def] by simp_all

lemma demo_dir_path: "dirsN demo_dir 3 [''tmp'', ''a''] 0 9"
proof -
  have "dirsN demo_dir 3 [''tmp'', ''a''] (0 + (0 + 0)) 9"
    by (intro dirsN_Cons [OF demo_dir_tmp(1) followsN_file demo_dir_tmp(2)]
        dirsN_Cons [OF demo_dir_facts(4) followsN_file _ dirsN_Nil]) (simp_all add: demo_dir_facts demo_dir_tmp)
  then show ?thesis by simp
qed

lemma demo_dir_parse: "parseParent ''/tmp/a/b'' (- 100) demo_dir = Some (Inr (9, ''b''), demo_dir)"
proof -
  have "path_names ''/tmp/a/b'' = [''tmp'', ''a''] @ [''b'']"
    by (simp add: path_names_def comps_def)
  moreover have "dirsN demo_dir (path_start demo_dir 3 ''/tmp/a/b'') [''tmp'', ''a''] 0 9"
    using demo_dir_path by (simp add: path_start_def demo_dir_facts demo_tree)
  ultimately show ?thesis
    using parseParent_gives [OF demo_dir_facts(1), of "- 100" 3 "''/tmp/a/b''"]
    by (simp add: getBaseDir_def demo_dir_facts demo_tree)
qed

text \<open>Renaming /tmp/a to /tmp/b there.\<close>

lemma demo_dir_parses:
  "parseParent ''/tmp/a'' (- 100) demo_dir = Some (Inr (8, ''a''), demo_dir)"
  "parseParent ''/tmp/b'' (- 100) demo_dir = Some (Inr (8, ''b''), demo_dir)"
proof -
  have "path_names ''/tmp/b'' = [''tmp''] @ [''b'']"
    by (simp add: path_names_def comps_def)
  moreover have "dirsN demo_dir (path_start demo_dir 3 ''/tmp/b'') [''tmp''] 0 8"
    using resolution_extends(2) [OF wfD(1) [OF demo_wf] demo_dir_facts(2) demo_tmp] demo_child_tmp
    by (simp add: path_start_def demo_dir_facts demo_tree)
  ultimately show "parseParent ''/tmp/b'' (- 100) demo_dir = Some (Inr (8, ''b''), demo_dir)"
    using parseParent_gives [OF demo_dir_facts(1), of "- 100" 3 "''/tmp/b''"]
    by (simp add: getBaseDir_def demo_dir_facts demo_tree)
qed (rule demo_dir_facts(3))

lemma demo_dir_b: "child_of demo_dir 8 ''b'' = None" "mode_of demo_dir 8 = 0x41FF" "fs_root demo_dir = 3"
    "child_of demo_dir 8 ''a'' = Some 9"
  using demo_dir_facts demo_tmp_child by (simp_all add: demo_tree)

lemma demo_rename: "\<exists>t. syscall_renameat (- 100) ''/tmp/a'' (- 100) ''/tmp/b'' demo_dir = Some (0, t)"
proof -
  have meets: "meets 9 8 demo_dir = Some False"
    using demo_dir_b demo_dir_tmp by (subst meets.simps, subst meets.simps) simp
  moreover have "\<exists>t. insertMove 8 ''b'' 9 demo_dir = Some (Inr (), t)"
  proof (rule rename_move [OF demo_dir_facts(1) demo_dir_tmp(2) _ demo_dir_tmp(2) _ demo_dir_tmp(4)
        demo_dir_b(4)])
    show "meets 9 8 demo_dir = Some False"
      by (rule meets)
    fix t
    assume "insertMove 8 ''b'' 9 demo_dir = Some (Inr (), t)"
    then show ?thesis by blast
  qed (simp_all add: demo_dir_b)
  ultimately show ?thesis
    using demo_dir_b
    by (auto simp: renameat_run [OF demo_dir_parses] rename_checked_def
        getChild_child_of [OF wfD(1) [OF demo_dir_facts(1)]])
qed


text \<open>
  C20: A directory cannot be moved below itself: when the new parent is the directory or lies below it,
  rename is EINVAL and nothing changes.
\<close>

theorem rename_below_itself:
  assumes "wf_fs s" "parseParent oldpath oldfd s = Some (Inr (od, on), s)"
    and "parseParent newpath newfd s = Some (Inr (nd, nn), s)" "length nn \<le> 255"
    and "child_of s od on = Some c" "c \<noteq> fs_root s" "(nd, c) \<in> (up s)\<^sup>*"
    and "child_of s nd nn \<noteq> Some c" "child_of s nd nn \<noteq> Some (fs_root s)"
    and "mode_of s od AND 0x92 \<noteq> 0" "mode_of s nd AND 0x92 \<noteq> 0" "backend_of s nd = backend_of s od"
  shows "syscall_renameat oldfd oldpath newfd newpath s = Some (neg_errno EINVAL, s)"
  using assms meets_below [OF wf_root(2) [OF wfD(1) [OF assms(1)]] assms(6,7)]
  by (simp add: renameat_run [OF assms(2,3)] rename_checked_def getChild_child_of [OF wfD(1)] fails_def)

lemma rename_below_itself_witness:
  "syscall_renameat (- 100) ''/tmp/a'' (- 100) ''/tmp/a/b'' demo_dir = Some (neg_errno EINVAL, demo_dir)"
proof (rule rename_below_itself [OF demo_dir_facts(1) demo_dir_parses(1) demo_dir_parse _ demo_dir_b(4)])
  have "entries demo_dir 9 = []" "dcache demo_dir 9 = []"
    by (simp_all add: demo_dir_facts)
  then have none: "child_of demo_dir 9 ''b'' = None"
    by (simp add: child_of_empty)
  show "child_of demo_dir 9 ''b'' \<noteq> Some 9" "child_of demo_dir 9 ''b'' \<noteq> Some (fs_root demo_dir)"
    by (simp_all only: none option.distinct not_False_eq_True)
  show "9 \<noteq> fs_root demo_dir" "mode_of demo_dir 8 AND 0x92 \<noteq> 0" "mode_of demo_dir 9 AND 0x92 \<noteq> 0"
    by (simp_all add: demo_dir_b demo_dir_facts)
  show "backend_of demo_dir 9 = backend_of demo_dir 8"
    by (simp only: demo_dir_facts)
qed simp_all

end
