(* ===== verification/Dir_Laws.thy ===== *)
theory Dir_Laws
  imports Name_Calls
begin

text \<open>
  The working directory and the reading of directories: \<open>getcwd\<close> gives a path that leads back to the
  working directory, and \<open>getdents\<close> pages through the entries without loss or repetition.
\<close>

section \<open>The path of a directory\<close>

lemma dirsN_append: "dirsN s d ns k e \<Longrightarrow> dirsN s e ms l f \<Longrightarrow> dirsN s d (ns @ ms) (k + l) f"
proof (induction ns arbitrary: d k)
  case Nil
  then show ?case by (auto elim: dirsN.cases)
next
  case (Cons n ns)
  from Cons.prems(1) obtain c k1 k2 g where c: "child_of s d n = Some c" "followsN s d c k1 g" "is_dir s g"
      "dirsN s g ns k2 e" "k = k1 + k2"
    by (auto elim: dirsN.cases)
  show ?case
    using dirsN_Cons [OF c(1-3) Cons.IH [OF c(4) Cons.prems(2)]] by (simp add: c(5) add.assoc)
qed

lemma dirsN_snoc:
  assumes "dirsN s d (ns @ [n]) k f"
  obtains p c k1 k2 where "dirsN s d ns k1 p" "child_of s p n = Some c" "followsN s p c k2 f" "k = k1 + k2"
  using assms
proof (induction ns arbitrary: d k thesis)
  case Nil
  then show ?case by (fastforce elim: dirsN.cases intro: dirsN_Nil)
next
  case (Cons m ns)
  from Cons.prems(2) obtain c k1 k2 g where c: "child_of s d m = Some c" "followsN s d c k1 g" "is_dir s g"
      "dirsN s g (ns @ [n]) k2 f" "k = k1 + k2"
    by (auto elim: dirsN.cases)
  show ?case
  proof (rule Cons.IH [OF _ c(4)])
    fix p c' j1 j2
    assume p: "dirsN s g ns j1 p" "child_of s p n = Some c'" "followsN s p c' j2 f" "k2 = j1 + j2"
    show ?thesis
      by (rule Cons.prems(1) [OF dirsN_Cons [OF c(1-3) p(1)] p(2,3)]) (simp add: c(5) p(4))
  qed
qed

text \<open>An absolute path made of names that are not empty, have no slash and are not dots.\<close>

definition plain :: "string \<Rightarrow> bool" where
  "plain n \<longleftrightarrow> n \<noteq> [] \<and> CHR ''/'' \<notin> set n \<and> n \<noteq> ''.'' \<and> n \<noteq> ''..''"

text \<open>All names on the way from a directory to the root are plain.\<close>

definition plain_above :: "fs \<Rightarrow> fid \<Rightarrow> bool" where
  "plain_above s f \<longleftrightarrow> (\<forall>x d n. (f, x) \<in> (up s)\<^sup>* \<longrightarrow> (n, x) \<in> set (entries s d) \<longrightarrow> plain n)"

definition join :: "string list \<Rightarrow> string" where
  "join ns = concat (map (Cons (CHR ''/'')) ns)"

lemma join_simps [simp]: "join [] = []" "join (n # ns) = CHR ''/'' # n @ join ns" "join (ns @ ms) = join ns @ join ms"
  by (simp_all add: join_def)

lemma join_absolute: "ns \<noteq> [] \<Longrightarrow> join ns \<noteq> [] \<and> hd (join ns) = CHR ''/''"
  by (cases ns) simp_all

lemma comps_join: "\<forall>n \<in> set ns. plain n \<Longrightarrow> comps (join ns) = ns"
proof (induction ns)
  case (Cons n ns)
  have n: "n \<noteq> []" "\<forall>c \<in> set n. \<not> is_slash c"
    using Cons.prems by (auto simp: plain_def)
  have "takeWhile (\<lambda>c. \<not> is_slash c) (n @ join ns) = n" "dropWhile (\<lambda>c. \<not> is_slash c) (n @ join ns) = join ns"
    using n(2) by (cases ns; simp add: takeWhile_tail)+
  then show ?case
    using Cons n by (simp add: comps_first)
qed simp

text \<open>The loop of \<open>getcwd\<close> collects the names on the way from the root.\<close>

lemma cwd_path_names:
  assumes wf: "wf_tree s"
    and up: "(cur, fs_root s) \<in> (up s)\<^sup>*" and dir: "is_dir s cur" and plain: "plain_above s cur"
  shows "\<exists>ns. cwd_path cur acc s = Some (Inr (join ns @ acc)) \<and> dirsN s (fs_root s) ns 0 cur \<and>
    (\<forall>n \<in> set ns. plain n)"
  using up dir plain
proof (induction arbitrary: acc rule: converse_rtrancl_induct)
  case base
  have "cwd_path (fs_root s) acc s = Some (Inr (join [] @ acc))"
    by (subst cwd_path.simps) simp
  then show ?case
    using dirsN_Nil [of s "fs_root s"] by (metis empty_iff list.set(1))
next
  case (step y z)
  show ?case
  proof (cases "y = fs_root s")
    case True
    have "cwd_path y acc s = Some (Inr (join [] @ acc))"
      using True by (subst cwd_path.simps) simp
    then show ?thesis
      using dirsN_Nil [of s "fs_root s"] True by (metis empty_iff list.set(1))
  next
    case False
    have z: "parent_of s y = Some z" "is_dir s z"
      using step(1) wf_parent(2) [OF wf] by (auto simp: up_def)
    obtain n where n: "(n, y) \<in> set (entries s z)"
      using wf_dir(4) [OF wf step(4) z(1) False] by auto
    then have name: "names s (z, n) = Some y"
      by (simp add: names_iff [OF wf])
    have pn: "plain n" and "plain_above s z"
      using step(5) n step(1) unfolding plain_above_def by (blast intro: converse_rtrancl_into_rtrancl)+
    obtain q where q: "parent_of s z = Some q"
      using wf_parent_linked [OF wf step(4) z(1)] by blast
    have child: "child_of s z n = Some y"
      using pn name q by (simp add: child_of_names plain_def)
    have "getName z y s = n"
      using z(2) name_of_child_unique n wf_containers(1) [OF wf, of z]
      by (simp add: getName_def memdir_getName_def good_entries_def)
    then have run: "cwd_path y acc s = cwd_path z (CHR ''/'' # n @ acc) s"
      using False z(1) by (subst cwd_path.simps) simp
    obtain ns where ns: "cwd_path z (CHR ''/'' # n @ acc) s = Some (Inr (join ns @ CHR ''/'' # n @ acc))"
      "dirsN s (fs_root s) ns 0 z" "\<forall>n \<in> set ns. plain n"
      using step.IH [OF z(2) \<open>plain_above s z\<close>] by blast
    have "dirsN s z [n] (0 + 0) y"
      by (rule dirsN_Cons [OF child followsN_file step(4) dirsN_Nil]) (use step(4) in simp)
    then have "dirsN s (fs_root s) (ns @ [n]) 0 y"
      using dirsN_append [OF ns(2)] by fastforce
    then show ?thesis
      using ns pn run by (intro exI [of _ "ns @ [n]"]) simp
  qed
qed

lemma join_leads:
  assumes wf: "wf_fs s" and ns: "dirsN s (fs_root s) ns 0 f" "\<forall>n \<in> set ns. plain n"
  shows "parseFile (if ns = [] then ''/'' else join ns) (- 100) FollowLinks s = Some (Inr f, s)"
proof -
  let ?path = "if ns = [] then ''/'' else join ns"
  have base: "getBaseDir (- 100) s = Inr (fs_cwd s)"
    by (simp add: getBaseDir_def)
  have "resolvesN s (fs_cwd s) ?path (0 + 0) f"
  proof (cases ns rule: rev_cases)
    case Nil
    then have f: "f = fs_root s"
      using ns(1) by (auto elim: dirsN.cases)
    have child: "child_of s f ''.'' = Some f"
      using wf_root(2) [OF wfD(1) [OF wf]] f by (simp add: child_of_def)
    have start: "dirsN s (path_start s (fs_cwd s) ''/'') [] 0 f"
      using dirsN_Nil [of s f] f by (simp add: path_start_def)
    have path: "path_names ''/'' = [] @ [''.'']"
      by (simp add: path_names_def comps_def)
    have fol: "followsN s f f 0 f"
      by (rule followsN_file) (use wf_root(1) [OF wfD(1) [OF wf]] f in simp)
    have "resolvesN s (fs_cwd s) ''/'' (0 + 0) f"
      by (rule resolvesN_path [OF _ path start child fol]) simp
    then show ?thesis
      using Nil by simp
  next
    case (snoc ms n)
    have start: "path_start s (fs_cwd s) (join ns) = fs_root s" "join ns \<noteq> []"
      using join_absolute [of ns] snoc by (auto simp: path_start_def)
    have path: "path_names (join ns) = ms @ [n]"
      using comps_join [OF ns(2)] snoc by (simp add: path_names_def)
    show ?thesis
    proof (rule dirsN_snoc [OF ns(1) [unfolded snoc]])
      fix p c k1 k2
      assume p: "dirsN s (fs_root s) ms k1 p" "child_of s p n = Some c" "followsN s p c k2 f" "0 = k1 + k2"
      have "resolvesN s (fs_cwd s) (join ns) (k1 + k2) f"
        by (rule resolvesN_path [OF start(2) path _ p(2,3)]) (simp add: start(1) p(1))
      then show ?thesis
        using p(4) snoc by simp
    qed
  qed
  then show ?thesis
    using parseFile_gives [OF wf base] by simp
qed

text \<open>
  C22: When the working directory is linked and the names above it are proper file names, \<open>getcwd\<close> stores an absolute
  path that leads back to the working directory and returns its length with the terminator; it needs
  a buffer that is larger than that, and is ERANGE otherwise.
\<close>

theorem getcwd_roundtrip:
  assumes "wf_fs s" "plain_above s (fs_cwd s)"
    and "parent_of s (fs_cwd s) \<noteq> None" "buf \<noteq> 0" "sz \<noteq> 0"
  shows "\<exists>path. parseFile path (- 100) FollowLinks s = Some (Inr (fs_cwd s), s) \<and>
    (length path + 1 < unat sz \<longrightarrow>
      (\<exists>t. syscall_getcwd buf sz s = Some (of_nat (length path + 1), t) \<and>
        mem_read t buf (of_nat (length path + 1)) = chars_to_bytes path @ [0])) \<and>
    (unat sz \<le> length path + 1 \<and> length path + 1 < 2 ^ 32 \<longrightarrow>
      syscall_getcwd buf sz s = Some (neg_errno ERANGE, s))"
proof -
  note wt = wfD(1) [OF assms(1)]
  obtain q where "parent_of s (fs_cwd s) = Some q"
    using assms(3) by blast
  then have up: "(fs_cwd s, fs_root s) \<in> (up s)\<^sup>*"
    using wf_dir(5) [OF wt wf_root(3) [OF wt]] by blast
  obtain ns where ns: "cwd_path (fs_cwd s) [] s = Some (Inr (join ns))" "dirsN s (fs_root s) ns 0 (fs_cwd s)"
    "\<forall>n \<in> set ns. plain n"
    using cwd_path_names [OF wt up wf_root(3) [OF wt] assms(2), where acc = "[]"] by auto
  define path where "path = (if ns = [] then ''/'' else join ns)"
  define len :: u32 where "len = of_nat (length path + 1)"
  have res: "(if join ns = [] then ''/'' else join ns) = path"
    by (cases ns) (simp_all add: path_def)
  have run: "syscall_getcwd buf sz s =
      (if sz \<le> len then fails ERANGE s
       else Some (len, s\<lparr>fs_mem := mem_store buf (chars_to_bytes path @ [0]) (fs_mem s)\<rparr>))"
    using assms(4,5) by (simp only: syscall_getcwd_def ns(1) res len_def Let_def option.case sum.case simp_thms if_False)
  have len: "unat len = length path + 1" if "length path + 1 < 2 ^ 32"
    using that by (simp only: len_def unat_of_nat) simp
  show ?thesis
  proof (intro exI [of _ path] conjI impI)
    show "parseFile path (- 100) FollowLinks s = Some (Inr (fs_cwd s), s)"
      unfolding path_def by (rule join_leads [OF assms(1) ns(2,3)])
  next
    assume fits: "length path + 1 < unat sz"
    then have small: "length path + 1 < 2 ^ 32"
      using unsigned_less [of sz, where ?'a = nat] by simp
    have "mem_read (s\<lparr>fs_mem := mem_store buf (chars_to_bytes path @ [0]) (fs_mem s)\<rparr>) buf len =
        chars_to_bytes path @ [0]"
      using len [OF small] by (intro mem_read_store) (simp add: chars_to_bytes_def)
    moreover have "\<not> sz \<le> len"
      using fits len [OF small] by (simp add: word_le_nat_alt)
    ultimately show "\<exists>t. syscall_getcwd buf sz s = Some (of_nat (length path + 1), t) \<and>
        mem_read t buf (of_nat (length path + 1)) = chars_to_bytes path @ [0]"
      unfolding len_def [symmetric] run by simp
  next
    assume "unat sz \<le> length path + 1 \<and> length path + 1 < 2 ^ 32"
    then have "sz \<le> len"
      using len by (simp add: word_le_nat_alt)
    then show "syscall_getcwd buf sz s = Some (neg_errno ERANGE, s)"
      unfolding run by (simp add: fails_def)
  qed
qed

lemma getcwd_roundtrip_witness:
  "\<exists>path. parseFile path (- 100) FollowLinks (demo_dir\<lparr>fs_cwd := 9\<rparr>) = Some (Inr 9, demo_dir\<lparr>fs_cwd := 9\<rparr>)"
proof -
  let ?s = "demo_dir\<lparr>fs_cwd := 9\<rparr>"
  have wf: "wf_fs ?s"
    by (rule wf_chdir [OF demo_dir_facts(1)]) (simp add: demo_dir_facts)
  note wt = wfD(1) [OF demo_dir_facts(1)]
  have names: "(''a'', 9) \<in> set (entries demo_dir 8)" "(''tmp'', 8) \<in> set (entries demo_dir 3)"
    using insert_new_effect(5) [OF wfD(1) [OF demo_wf] demo_tree(7), of "MemoryDirectory [] []" "''a''" "0x41FF",
        folded demo_dir_def] by (simp_all add: demo_tree)
  have "x \<in> {9, 8, 3}" if "(9, x) \<in> (up demo_dir)\<^sup>*" for x
    using that by induction (auto simp: up_def demo_dir_facts demo_dir_tmp)
  moreover have "plain n" if "(n, x) \<in> set (entries demo_dir d)" "x \<in> {9, 8, 3}" for n x d
  proof -
    have "d = 8 \<and> x = 9 \<or> d = 3 \<and> x = 8"
      using wf_entry(2,3) [OF wt that(1)] that(2) by (auto simp: demo_dir_facts demo_dir_tmp demo_dir_b)
    then have "n = ''a'' \<or> n = ''tmp''"
      using entry_name_unique [OF wf_containers(1) [OF wt]] names that(1) by blast
    then show ?thesis by (auto simp: plain_def)
  qed
  ultimately have "plain_above ?s (fs_cwd ?s)"
    unfolding plain_above_def up_def by (simp add: up_def)
  then show ?thesis
    using getcwd_roundtrip [OF wf, of 64 64] by (auto simp: demo_dir_facts)
qed

section \<open>Reading a directory\<close>

definition dirent_at :: "nat \<times> dirent \<Rightarrow> dirent_record" where
  "dirent_at = (\<lambda>(i, e). \<lparr>d_ino = de_ino e, d_off = i + 1, d_reclen = 280,
     d_type = d_type_of (de_kind e), d_name = de_name e\<rparr>)"

lemma getdents_loop_take:
  "b \<le> count \<Longrightarrow> getdents_loop es i b count =
     map dirent_at (enumerate i (take ((count - b) div 280) es))"
proof (induction es i b count rule: getdents_loop.induct)
  case (2 e es i b count)
  show ?case
  proof (cases "b + 280 \<le> count")
    case True
    then have "(count - b) div 280 = Suc ((count - (b + 280)) div 280)"
      using True le_div_geq [of 280 "count - b"] by simp
    then show ?thesis
      using True 2 by (simp add: dirent_at_def)
  next
    case False
    then have "(count - b) div 280 = 0"
      by simp
    then show ?thesis using False by simp
  qed
qed simp

text \<open>A descriptor that reads a directory, with the snapshot of its entries taken at opening.\<close>

definition open_dir :: "fs \<Rightarrow> u32 \<Rightarrow> ofid \<Rightarrow> dirent list \<Rightarrow> bool" where
  "open_dir s fd oid es \<longleftrightarrow> getEntry fd s = Some oid \<and> is_dir s (file_of s oid) \<and>
     parent_of s (file_of s oid) \<noteq> None \<and> of_dirents (fs_ofiles s oid) = es \<and> length es < 2 ^ 31"

lemma getdents_page:
  assumes "open_dir s fd oid es" "280 \<le> unat count" "of_position (fs_ofiles s oid) = of_nat p" "p \<le> length es"
  defines "n \<equiv> min (unat count div 280) (length es - p)"
  shows "syscall_getdents64 fd count s =
    ((of_nat (n * 280), map dirent_at (enumerate p (take n (drop p es)))), setPosition oid (of_nat (p + n)) s)"
    "open_dir (setPosition oid (of_nat (p + n)) s) fd oid es"
proof -
  have small: "p < 2 ^ 31" "p + n < 2 ^ 31"
    using assms(1,4) by (auto simp: open_dir_def n_def)
  have idx: "ucast (of_nat p :: u64) = (of_nat p :: u32)" "unat (of_nat p :: u32) = p"
    using small by (simp_all add: word_unat_eq_iff unat_ucast_u32 unat_of_nat)
  have pos: "scast (of_nat p + of_nat n :: u32) = (of_nat (p + n) :: u64)"
  proof -
    have u: "unat (of_nat (p + n) :: u32) = p + n"
      using small by (simp only: unat_of_nat) simp
    then have "sint (of_nat (p + n) :: u32) = int (p + n)"
      using small sint_below_half [of "of_nat (p + n) :: u32"] by simp
    then have "scast (of_nat (p + n) :: u32) = (of_int (int (p + n)) :: u64)"
      by (simp only: scast_eq)
    then show ?thesis by simp
  qed
  have len: "length (take (unat count div 280) (drop p es)) = n"
    using assms(4) by (simp add: n_def)
  have tk: "take (unat count div 280) (drop p es) = take n (drop p es)"
    by (rule nth_equalityI) (simp_all add: n_def)
  have out: "getdents_loop (drop p es) p 0 (unat count) = map dirent_at (enumerate p (take n (drop p es)))"
    by (simp add: getdents_loop_take tk)
  have "unat count div 280 \<noteq> 0"
    using assms(2) by (simp add: div_eq_0_iff)
  then show "syscall_getdents64 fd count s =
      ((of_nat (n * 280), map dirent_at (enumerate p (take n (drop p es)))), setPosition oid (of_nat (p + n)) s)"
    using assms(1,3) idx out pos len tk
    by (auto simp: syscall_getdents64_def open_dir_def Let_def)
  show "open_dir (setPosition oid (of_nat (p + n)) s) fd oid es"
    using assms(1) by (simp add: open_dir_def getEntry_def setPosition_def upd_ofile_def)
qed

text \<open>Reading until a call delivers nothing, as \<open>readdir\<close> does.\<close>

fun read_dir :: "u32 \<Rightarrow> u32 \<Rightarrow> nat \<Rightarrow> fs \<Rightarrow> dirent_record list" where
  "read_dir fd count 0 s = []"
| "read_dir fd count (Suc m) s =
    (let ((_, out), t) = syscall_getdents64 fd count s in
     if out = [] then [] else out @ read_dir fd count m t)"

lemma read_dir_from:
  assumes "open_dir s fd oid es" "280 \<le> unat count" "of_position (fs_ofiles s oid) = of_nat p" "p \<le> length es"
    and "length es - p \<le> m"
  shows "read_dir fd count (Suc m) s = map dirent_at (enumerate p (drop p es))"
  using assms
proof (induction m arbitrary: s p)
  case 0
  then show ?case
    using getdents_page(1) [OF 0(1-4)] by simp
next
  case (Suc m)
  define n where "n = min (unat count div 280) (length es - p)"
  define t where "t = setPosition oid (of_nat (p + n)) s"
  note page = getdents_page [OF Suc.prems(1-4), folded n_def, folded t_def]
  show ?case
  proof (cases "p = length es")
    case True
    then show ?thesis
      using page by (simp add: n_def)
  next
    case False
    have "1 \<le> unat count div 280"
      using div_le_mono [OF Suc.prems(2), of 280] by simp
    then have n: "0 < n" "n \<le> length es - p"
      using False Suc.prems(4) by (auto simp: n_def)
    have "read_dir fd count (Suc m) t = map dirent_at (enumerate (p + n) (drop (p + n) es))"
      using n Suc.prems by (intro Suc.IH [OF page(2)]) (auto simp: t_def)
    moreover have "enumerate p (drop p es) = enumerate p (take n (drop p es)) @ enumerate (p + n) (drop (p + n) es)"
    proof -
      have "drop p es = take n (drop p es) @ drop (p + n) es"
        by (simp add: add.commute flip: drop_drop)
      moreover have "length (take n (drop p es)) = n"
        using n by simp
      ultimately show ?thesis
        by (metis enumerate_append_eq)
    qed
    moreover have "enumerate p (take n (drop p es)) \<noteq> []"
      using n by (simp flip: length_0_conv)
    ultimately show ?thesis
      using page(1) by (simp add: Let_def)
  qed
qed

text \<open>Opening a directory takes the snapshot: the two dots, then the entries and the mounts.\<close>

lemma open_file_dirents:
  assumes "open_file f flags (\<lambda>s. Some (None, s)) u = Some (fd, t)" "is_dir u f" "parent_of u f = Some p"
  shows "map de_name (of_dirents (fs_ofiles t (fs_ofnext u))) =
    ''.'' # ''..'' # map fst (entries u f) @ map fst (mounts f u)"
proof -
  obtain v where v: "OpenFileState_create f flags u = Some (Inr (fs_ofnext u), v)"
    "of_dirents (fs_ofiles v (fs_ofnext u)) =
      [\<lparr>de_name = ''.'', de_kind = DirectoryKind, de_ino = f\<rparr>,
       \<lparr>de_name = ''..'', de_kind = DirectoryKind, de_ino = p\<rparr>] @ getEntries f u"
    using assms(2,3) by (simp add: OpenFileState_create_def Let_def)
  then have "addEntry (fs_ofnext u) v = (fd, t)"
    using assms(1) by (simp add: open_file_def)
  note keep = addEntry_keeps(4) [OF this]
  show ?thesis
    by (simp add: keep v(2) getEntries_def memdir_getEntries_def split_beta comp_def)
qed

lemma open_directory:
  assumes "wf_fs s" "parseParent path fd s = Some (Inr (d, n), s)" "length n \<le> 255"
    and "child_of s d n = Some f" "is_dir s f" "mode_of s f AND 0x124 \<noteq> 0"
  shows "syscall_openat fd path 0x10000 m s = open_file f 0x10000 (\<lambda>s. Some (None, s)) s"
proof -
  have "open_truncate f 0x10000 k = (\<lambda>s. Some (None, s))" for k
    by (simp add: open_truncate_def fun_eq_iff)
  then show ?thesis
    using assms by (auto simp: syscall_openat_def with_parent_def doOpen_def getChild_child_of [OF wfD(1)]
        open_existing_def Let_def split: node.splits)
qed

text \<open>
  C23: Opening a readable directory and reading it with any buffer that holds at least one record
  delivers every entry exactly once and in order, however many calls it takes: the two dots, the
  names in the directory, then the mounts; and the numbers \<open>d_off\<close> count up from 1.
\<close>

theorem directory_listing:
  assumes "wf_fs s" "parseParent path fd s = Some (Inr (d, n), s)" "length n \<le> 255"
    and "child_of s d n = Some f" "is_dir s f" "mode_of s f AND 0x124 \<noteq> 0"
    and "length (fs_table s) < 2 ^ 32" "length (entries s f) + length (dcache s f) + 2 < 2 ^ 31"
    and "280 \<le> unat count" "length (entries s f) + length (dcache s f) + 2 \<le> m"
  shows "\<exists>fd' t. syscall_openat fd path 0x10000 mode s = Some (fd', t) \<and>
    map d_name (read_dir fd' count (Suc m) t) =
      ''.'' # ''..'' # map fst (entries s f) @ map fst (dcache s f) \<and>
    map d_off (read_dir fd' count (Suc m) t) = [1..<length (entries s f) + length (dcache s f) + 3]"
proof -
  note wt = wfD(1) [OF assms(1)]
  obtain q where q: "parent_of s f = Some q"
    using child_of_linked(1) [OF wt parse_dir [OF assms(1,2)] assms(4)] by blast
  have lt: "f < fs_next s"
    by (rule wf_dir(1) [OF wt assms(5)])
  show ?thesis
  proof (rule open_file_opens [OF assms(1) lt _ assms(7), of "0x10000"])
    show "parent_of s f \<noteq> None"
      using q by simp
    fix fd' t
    assume t: "open_file f 0x10000 (\<lambda>s. Some (None, s)) s = Some (fd', t)"
      "\<And>k. getEntry k t = (if k = fd' then Some (fs_ofnext s) else getEntry k s)"
      "file_of t (fs_ofnext s) = f" "of_position (fs_ofiles t (fs_ofnext s)) = 0" "same_shape s t"
    define es where "es = of_dirents (fs_ofiles t (fs_ofnext s))"
    have names: "map de_name es = ''.'' # ''..'' # map fst (entries s f) @ map fst (dcache s f)"
      using open_file_dirents [OF t(1) assms(5) q] by (simp add: es_def mounts_wf [OF wt])
    have len: "length es = length (entries s f) + length (dcache s f) + 2"
      using arg_cong [OF names, of length] by simp
    have "open_dir t fd' (fs_ofnext s) es"
      using t assms(5,8) q len by (simp add: open_dir_def same_shapeD es_def)
    then have read: "read_dir fd' count (Suc m) t = map dirent_at (enumerate 0 es)"
      using read_dir_from [of t fd' "fs_ofnext s" es count 0 m] t(4) assms(9,10) len by simp
    have "map d_name (map dirent_at (enumerate 0 es)) = map de_name es"
      by (rule nth_equalityI) (simp_all add: dirent_at_def split_beta nth_enumerate_eq)
    then have 1: "map d_name (read_dir fd' count (Suc m) t) =
        ''.'' # ''..'' # map fst (entries s f) @ map fst (dcache s f)"
      by (simp only: read names)
    have "map d_off (map dirent_at (enumerate 0 es)) = map Suc [0..<length es]"
      by (rule nth_equalityI) (simp_all add: dirent_at_def split_beta nth_enumerate_eq)
    moreover have "map Suc [0..<length es] = [1..<length (entries s f) + length (dcache s f) + 3]"
      unfolding map_Suc_upt len by (rule arg_cong2 [of _ _ _ _ upt]) simp_all
    ultimately have 2: "map d_off (read_dir fd' count (Suc m) t) =
        [1..<length (entries s f) + length (dcache s f) + 3]"
      by (simp only: read)
    have "syscall_openat fd path 0x10000 mode s = Some (fd', t)"
      using open_directory [OF assms(1-6)] t(1) by simp
    with 1 2 show ?thesis
      by (intro exI [of _ fd'] exI [of _ t] conjI)
  qed
qed

lemma directory_listing_witness:
  "\<exists>fd t. syscall_openat (- 100) ''/tmp'' 0x10000 0 demo_dir = Some (fd, t) \<and>
    map d_name (read_dir fd 280 4 t) = [''.'', ''..'', ''a'']"
proof -
  have "path_names ''/tmp'' = [] @ [''tmp'']"
    by (simp add: path_names_def comps_def)
  moreover have "dirsN demo_dir (path_start demo_dir 3 ''/tmp'') [] 0 3"
    using dirsN_Nil [of demo_dir 3] by (simp add: path_start_def demo_dir_facts demo_tree)
  ultimately have parse: "parseParent ''/tmp'' (- 100) demo_dir = Some (Inr (3, ''tmp''), demo_dir)"
    using parseParent_gives [OF demo_dir_facts(1), of "- 100" 3 "''/tmp''"]
    by (simp add: getBaseDir_def demo_dir_facts demo_tree)
  have "entries demo_dir 8 = [(''a'', 9)]" "dcache demo_dir 8 = []"
    using insert_new_effect(5,6) [OF wfD(1) [OF demo_wf] demo_tree(7), of "MemoryDirectory [] []" "''a''" "0x41FF",
        folded demo_dir_def] by (simp_all add: demo_tree)
  then show ?thesis
    using directory_listing [OF demo_dir_facts(1) parse _ demo_dir_tmp(1,2), of 280 3 0]
    by (auto simp: demo_dir_b demo_dir_facts demo_tree)
qed

end
