(* ===== verification/Ns_Refine.thy ===== *)
theory Ns_Refine
  imports Dir_Laws
begin

text \<open>
  The file system refines an abstract name space: a partial map from a directory and a name to a
  file, and the kind of every file. Each call of the program is one abstract step, which adds a name
  for a new file, removes a name, moves a name, or changes no name.
\<close>

section \<open>The abstract name space\<close>

type_synonym name_space = "(fid \<times> string \<Rightarrow> fid option) \<times> (fid \<Rightarrow> FileKind option)"

definition abs_ns :: "fs \<Rightarrow> name_space" where
  "abs_ns s = (names s, kinds s)"

definition empty_dir :: "name_space \<Rightarrow> fid \<Rightarrow> bool" where
  "empty_dir N d \<longleftrightarrow> (\<forall>m. fst N (d, m) = None)"

inductive ns_step :: "name_space \<Rightarrow> name_space \<Rightarrow> bool" where
  stay: "K \<subseteq>\<^sub>m K' \<Longrightarrow> ns_step (M, K) (M, K')"
| add: "M (d, n) = None \<Longrightarrow> K d = Some DirectoryKind \<Longrightarrow> K f = None \<Longrightarrow>
    ns_step (M, K) (M((d, n) \<mapsto> f), K(f \<mapsto> k))"
| remove: "M (d, n) = Some f \<Longrightarrow> (K f = Some DirectoryKind \<Longrightarrow> empty_dir (M, K) f) \<Longrightarrow>
    ns_step (M, K) (M((d, n) := None), K)"
| move: "M (d, n) = Some f \<Longrightarrow> K d' = Some DirectoryKind \<Longrightarrow>
    (\<And>g. M (d', n') = Some g \<Longrightarrow> g \<noteq> f \<Longrightarrow>
      (K g = Some DirectoryKind) = (K f = Some DirectoryKind) \<and> empty_dir (M, K) g) \<Longrightarrow>
    ns_step (M, K) (M((d, n) := None, (d', n') \<mapsto> f), K)"

inductive_cases ns_stepE: "ns_step N N'"

lemma ns_shape: "same_shape s t \<Longrightarrow> abs_ns t = abs_ns s"
  by (simp add: abs_ns_def names_shape)

lemma ns_quiet: "quiet s t \<Longrightarrow> abs_ns t = abs_ns s"
  by (simp add: quiet_def ns_shape)

lemma stay_same [simp]: "ns_step N N"
  by (cases N) (auto intro: stay)

lemma stay_eq: "N' = N \<Longrightarrow> ns_step N N'"
  by simp

section \<open>Each kind of step\<close>

lemma ns_step_insert_new:
  assumes "wf_tree s" "is_dir s d" "parent_of s d = Some q" "child_of s d name = None"
    and "entries_of_node n = []" "dcache_of_node n = []"
  shows "ns_step (abs_ns s) (abs_ns (insert_new d name n m s))"
proof -
  have "kinds s d = Some DirectoryKind" "kinds s (fs_next s) = None"
    using wf_dir(1) [OF assms(1,2)] assms(2) by (simp_all add: kinds_def)
  then show ?thesis
    unfolding abs_ns_def names_insert_new(1,2) [OF assms] using names_insert_new(3) [OF assms]
    by (intro add)
qed

lemma ns_step_removeChild:
  assumes wf: "wf_fs s" and d: "is_dir s d" "dcache s d = []"
    and f: "child_of s d name = Some f" "f \<noteq> fs_root s"
    and empty: "is_dir s f \<longrightarrow> entries s f = [] \<and> dcache s f = []"
  shows "ns_step (abs_ns s) (abs_ns (snd (removeChild d name s)))"
proof -
  note wt = wfD(1) [OF wf]
  have N: "names (snd (removeChild d name s)) = (names s)((d, name) := None)"
    "kinds (snd (removeChild d name s)) = kinds s"
    by (rule names_removeChild [OF wt d])+
  show ?thesis
  proof (cases "names s (d, name)")
    case None
    then show ?thesis by (simp add: abs_ns_def N fun_upd_idem)
  next
    case (Some x)
    then have "(name, x) \<in> set (entries s d)"
      using d(2) by (auto simp: names_iff [OF wt])
    then have "x = f"
      using entry_is_child [OF wt d f] empty by auto
    moreover have "empty_dir (names s, kinds s) f" if "kinds s f = Some DirectoryKind"
      using that empty by (auto simp: empty_dir_def names_def kinds_def split: if_splits)
    ultimately show ?thesis
      unfolding abs_ns_def N using Some by (intro remove) auto
  qed
qed

lemma ns_step_move:
  assumes wf: "wf_fs s" and op: "is_dir s op" "mode_of s op AND 0x92 \<noteq> 0"
    and np: "is_dir s np" "mode_of s np AND 0x92 \<noteq> 0" "parent_of s np = Some q"
    and c: "child_of s op on = Some c" "c \<noteq> fs_root s"
    and nf: "child_of s np nn \<noteq> Some c" "child_of s np nn \<noteq> Some (fs_root s)"
    and anc: "meets c np s = Some False"
    and over: "\<And>f. child_of s np nn = Some f \<Longrightarrow> rename_over c f s = None"
    and run: "insertMove np nn c s = Some (r, t)"
  shows "ns_step (abs_ns s) (abs_ns t)"
proof (rule rename_move [OF wf op np c nf anc over])
  fix u
  assume u: "insertMove np nn c s = Some (Inr (), u)" "wf_fs u" "(nn, c) \<in> set (entries u np)"
    "\<And>g n x. x \<noteq> c \<Longrightarrow> g \<noteq> np \<or> n \<noteq> nn \<Longrightarrow>
      (n, x) \<in> set (entries u g) \<longleftrightarrow> (n, x) \<in> set (entries s g)"
    "\<And>g. kind u g = kind s g" "fs_next u = fs_next s" "\<And>g. dcache u g = dcache s g"
    "c \<in> snd ` set (entries s (the (parent_of s c)))"
    "\<And>x. (nn, x) \<in> set (entries s np) \<Longrightarrow> x \<noteq> c \<Longrightarrow> rename_over c x s = None"
    "\<And>n e. (n, e) \<in> set (dcache s (the (parent_of s c))) \<Longrightarrow> dc_file e \<noteq> c"
  note wt = wfD(1) [OF wf]
  obtain p where p: "parent_of s c = Some p"
    using child_of_linked(1) [OF wt op(1) c(1)] by blast
  obtain pn where pn: "(pn, c) \<in> set (entries s p)"
    using u(8) p by auto
  then have old: "names s (p, pn) = Some c"
    by (simp add: names_iff [OF wt])
  have dc: "dcache s np = []"
    by (rule writable_no_mounts [OF wt np(2)])
  have eq: "u = t"
    using u(1) run by simp
  have N: "names u = (names s)((p, pn) := None, (np, nn) \<mapsto> c)"
    using u(10) p by (intro names_move [OF wt wfD(1) [OF u(2)] u(7) dc u(3,4) old]) auto
  have K: "kinds u = kinds s"
    by (simp add: kinds_def u fun_eq_iff)
  have "(kinds s g = Some DirectoryKind) = (kinds s c = Some DirectoryKind) \<and> empty_dir (names s, kinds s) g"
    if "names s (np, nn) = Some g" "g \<noteq> c" for g
  proof -
    have "rename_over c g s = None"
      using that dc by (intro u(9)) (auto simp: names_iff [OF wt])
    then have "is_dir s g = is_dir s c" "entries s g = [] \<and> dcache s g = []"
      using no_entries [OF wt, of g] by (auto simp: rename_over_def split: if_splits)
    moreover have "g < fs_next s" "c < fs_next s"
      using names_parent(2) [OF wt that(1)] names_parent(2) [OF wt old] by simp_all
    ultimately show ?thesis
      by (simp add: kinds_def empty_dir_def names_def)
  qed
  moreover have "kinds s np = Some DirectoryKind"
    using np(1) wf_dir(1) [OF wt np(1)] by (simp add: kinds_def)
  ultimately show ?thesis
    unfolding abs_ns_def eq [symmetric] N K using old by (intro move)
qed

section \<open>The calls on names\<close>

lemma ns_frame [simp]:
  "abs_ns (snd (setEntry k v s)) = abs_ns s" "abs_ns (snd (addEntry oid s)) = abs_ns s"
  "abs_ns (s\<lparr>fs_cwd := f\<rparr>) = abs_ns s" "abs_ns (s\<lparr>fs_mem := m\<rparr>) = abs_ns s"
  "abs_ns (change_mode f md s) = abs_ns s"
proof -
  show "abs_ns (snd (setEntry k v s)) = abs_ns s" for k v
    by (rule ns_shape [OF setEntry_shape])
  then show "abs_ns (snd (addEntry oid s)) = abs_ns s"
    by (simp add: addEntry_def Let_def)
  show "abs_ns (s\<lparr>fs_cwd := f\<rparr>) = abs_ns s" "abs_ns (s\<lparr>fs_mem := m\<rparr>) = abs_ns s"
    by (simp_all add: abs_ns_def names_def kinds_def fun_eq_iff cong: option.case_cong)
  show "abs_ns (change_mode f md s) = abs_ns s"
    by (simp add: abs_ns_def names_def kinds_def change_mode_def setMode_def upd_file_def fun_eq_iff
        cong: option.case_cong)
qed

lemma ns_open_file:
  assumes "open_file f flags k s = Some (r, t)" "\<And>u e v. k u = Some (e, v) \<Longrightarrow> quiet u v"
  shows "abs_ns t = abs_ns s"
proof (cases "OpenFileState_create f flags s")
  case (Some res)
  then obtain x u where x: "OpenFileState_create f flags s = Some (x, u)"
    by (cases res) auto
  show ?thesis
  proof (cases x)
    case (Inl e)
    then have "u = s"
      using x by (auto simp: OpenFileState_create_def Let_def split: if_splits option.splits)
    then show ?thesis using x Inl assms(1) by (simp add: open_file_def)
  next
    case (Inr oid)
    note eff = OpenFileState_create_effect(2) [OF x [unfolded Inr]]
    have add: "abs_ns w = abs_ns v" if "addEntry oid v = (fd, w)" for fd v w
      using ns_frame(2) [of oid v] that by simp
    have "\<exists>e v. k u = Some (e, v) \<and> abs_ns t = abs_ns v"
      using assms(1) x Inr by (auto simp: open_file_def split: option.splits dest: add)
    then obtain e v where v: "k u = Some (e, v)" "abs_ns t = abs_ns v"
      by blast
    then show ?thesis
      using ns_shape [OF eff] ns_quiet [OF assms(2) [OF v(1)]] by simp
  qed
qed (use assms in \<open>simp add: open_file_def\<close>)

lemma truncate_quiet: "open_truncate child flags m s = Some (e, t) \<Longrightarrow> quiet s t"
  using open_truncate_total [of child flags m s] by auto

lemma ns_open_existing: "open_existing c flags s = Some (r, t) \<Longrightarrow> abs_ns t = abs_ns s"
  by (auto simp: open_existing_def Let_def fails_def split: if_splits intro: ns_open_file truncate_quiet)

lemma ns_open_create:
  assumes wf: "wf_fs s" and d: "is_dir s d" "child_of s d name = None"
    and run: "open_create d name flags mode None rm s = Some (r, t)"
  shows "ns_step (abs_ns s) (abs_ns t)"
proof (cases "parent_of s d")
  case None
  then show ?thesis using run by (auto simp: open_create_def fails_def split: if_splits)
next
  case (Some q)
  define u where "u = insert_new d name (MemoryDataFile []) ((mode AND S_IALLUGO) OR S_IFREG) s"
  have "ns_step (abs_ns s) (abs_ns u)"
    unfolding u_def by (rule ns_step_insert_new [OF wfD(1) [OF wf] d(1) Some d(2)]) simp_all
  moreover have "t = s \<or> t = u \<or> open_file (fs_next s) flags (\<lambda>s. Some (None, s)) u = Some (r, t)"
    using run Some by (auto simp: open_create_def inserts_new Let_def fails_def simp flip: u_def split: if_splits)
  ultimately show ?thesis
    using ns_open_file [of "fs_next s" flags "\<lambda>s. Some (None, s)" u r t] by auto
qed

lemma ns_doOpen:
  assumes wf: "wf_fs s" and dir: "\<And>p n. parsed = Inr (p, n) \<Longrightarrow> is_dir s p"
    and run: "doOpen parsed flags mode None rm s = Some (r, t)"
  shows "ns_step (abs_ns s) (abs_ns t)"
proof (cases parsed)
  case (Inl e)
  then show ?thesis using run by (auto simp: doOpen_def Let_def fails_def split: if_splits)
next
  case (Inr pn)
  obtain p n where pn: "pn = (p, n)" by (rule prod.exhaust)
  then have p: "is_dir s p" using dir Inr by blast
  note wt = wfD(1) [OF wf]
  have pure: "getFileFrom p tgt s = Some (x, v) \<Longrightarrow> v = s" for tgt x v
    using getFileFrom_wf [OF wt, of p tgt] by (metis option.inject prod.inject)
  show ?thesis
  proof (cases "child_of s p n")
    case None
    then show ?thesis
      using run Inr pn ns_open_create [OF wf p None]
      by (auto simp: doOpen_def Let_def fails_def getChild_child_of [OF wt] split: if_splits)
  next
    case (Some c)
    then have "t = s \<or> (\<exists>x. open_existing x flags s = Some (r, t))"
      using run Inr pn
      by (auto simp: doOpen_def Let_def fails_def getChild_child_of [OF wt]
          split: if_splits node.splits option.splits sum.splits dest!: pure)
    then show ?thesis using ns_open_existing by (auto intro: stay_eq)
  qed
qed

lemma ns_doMkdir:
  assumes wf: "wf_fs s" and dir: "\<And>p n. parsed = Inr (p, n) \<Longrightarrow> is_dir s p"
    and run: "doMkdir parsed mode None s = Some (r, t)"
  shows "ns_step (abs_ns s) (abs_ns t)"
proof (cases "\<exists>p n. parsed = Inr (p, n) \<and> child_of s p n = None \<and> parent_of s p \<noteq> None")
  case True
  then obtain p n q where p: "parsed = Inr (p, n)" "child_of s p n = None" "parent_of s p = Some q"
    by blast
  have "ns_step (abs_ns s) (abs_ns (insert_new p n (MemoryDirectory [] []) m s))" for m
    using ns_step_insert_new [OF wfD(1) [OF wf] dir [OF p(1)] p(3,2)] by simp
  then show ?thesis
    using run p
    by (auto simp: doMkdir_def Let_def fails_def getChild_child_of [OF wfD(1) [OF wf]] inserts_new split: if_splits)
next
  case False
  then show ?thesis
    using run
    by (auto simp: doMkdir_def Let_def fails_def getChild_child_of [OF wfD(1) [OF wf]]
        insertDirectory_def split: sum.splits option.splits prod.splits if_splits)
qed

lemma ns_symlink_checked:
  assumes wf: "wf_fs s" and p: "is_dir s p" and run: "symlink_checked p n tgt s = Some (r, t)"
  shows "ns_step (abs_ns s) (abs_ns t)"
proof (cases "child_of s p n = None \<and> parent_of s p \<noteq> None")
  case True
  then obtain q where q: "child_of s p n = None" "parent_of s p = Some q"
    by blast
  have "ns_step (abs_ns s) (abs_ns (insert_new p n (MemorySymlink tgt) m s))" for m
    using ns_step_insert_new [OF wfD(1) [OF wf] p q(2,1)] by simp
  then show ?thesis
    using run q
    by (auto simp: symlink_checked_def fails_def getChild_child_of [OF wfD(1) [OF wf]] inserts_new split: if_splits)
next
  case False
  then show ?thesis
    using run
    by (auto simp: symlink_checked_def fails_def getChild_child_of [OF wfD(1) [OF wf]]
        insertSymlink_def split: option.splits if_splits)
qed

lemma ns_unlink_checked:
  assumes wf: "wf_fs s" and d: "is_dir s d" and run: "unlink_checked d name flags s = Some (r, t)"
  shows "ns_step (abs_ns s) (abs_ns t)"
proof (cases "t = s")
  case False
  note wt = wfD(1) [OF wf]
  obtain f where f: "child_of s d name = Some f" "f \<noteq> fs_root s" "is_dir s f \<longrightarrow> getNumEntries f s = 0"
    "mode_of s d AND 0x92 \<noteq> 0" "finish_remove d name s = Some (r, t)"
    using run False
    by (cases "child_of s d name") (auto simp: unlink_checked_def fails_def getChild_child_of [OF wt] split: if_splits)
  have "\<exists>e. removeChild d name s = (e, t)"
    using f(5) by (auto simp: finish_remove_def fails_def split: prod.splits sum.splits)
  then have "t = snd (removeChild d name s)"
    by auto
  then show ?thesis
    using ns_step_removeChild [OF wf d writable_no_mounts [OF wt f(4)] f(1,2)] f(3) no_entries [OF wt]
    by simp
qed simp

lemma ns_rename_checked:
  assumes wf: "wf_fs s" and op: "is_dir s op" and np: "is_dir s np"
    and run: "rename_checked op on np nn s = Some (r, t)"
  shows "ns_step (abs_ns s) (abs_ns t)"
proof (cases "t = s \<or> parent_of s np = None")
  case True
  then show ?thesis
    using rename_into_unlinked [OF wf op _ run] by auto
next
  case False
  note wt = wfD(1) [OF wf]
  obtain q where q: "parent_of s np = Some q" "t \<noteq> s"
    using False by auto
  obtain c where c: "child_of s op on = Some c"
    using run q(2) by (cases "child_of s op on") (auto simp: rename_checked_def getChild_child_of [OF wt] fails_def)
  have conds: "c \<noteq> fs_root s" "child_of s np nn \<noteq> Some (fs_root s)" "child_of s np nn \<noteq> Some c"
    "mode_of s op AND 0x92 \<noteq> 0" "mode_of s np AND 0x92 \<noteq> 0" "meets c np s = Some False"
    "\<And>f. child_of s np nn = Some f \<Longrightarrow> rename_over c f s = None"
    "\<exists>e. insertMove np nn c s = Some (e, t)"
    using run c q(2)
    by (auto simp: rename_checked_def getChild_child_of [OF wt] fails_def
        split: if_splits option.splits sum.splits bool.splits)
  obtain e where e: "insertMove np nn c s = Some (e, t)"
    using conds(8) by blast
  show ?thesis
    by (rule ns_step_move [OF wf op conds(4) np conds(5) q(1) c conds(1,3,2,6,7) e])
qed

text \<open>A call that parses a parent first steps when its continuation does.\<close>

lemma ns_with_parent:
  assumes wf: "wf_fs s" and run: "with_parent path fd k s = Some (r, t)"
    and k: "\<And>parsed. (\<And>p n. parsed = Inr (p, n) \<Longrightarrow> is_dir s p) \<Longrightarrow> k parsed s = Some (r, t) \<Longrightarrow>
      ns_step (abs_ns s) (abs_ns t)"
  shows "ns_step (abs_ns s) (abs_ns t)"
proof (rule parseParent_wf [OF wfD(1) [OF wf], of path fd])
  fix e
  assume "parseParent path fd s = Some (Inl e, s)"
  then show ?thesis using run k [of "Inl e"] by (simp add: with_parent_def)
next
  fix p n
  assume "parseParent path fd s = Some (Inr (p, n), s)" "is_dir s p"
  then show ?thesis using run k [of "Inr (p, n)"] by (simp add: with_parent_def)
qed

lemma ns_openat: "wf_fs s \<Longrightarrow> syscall_openat d p f m s = Some (r, t) \<Longrightarrow> ns_step (abs_ns s) (abs_ns t)"
  unfolding syscall_openat_def by (rule ns_with_parent, assumption+) (rule ns_doOpen)

lemma ns_openat2: "wf_fs s \<Longrightarrow> syscall_openat2 d p df f m s = Some (r, t) \<Longrightarrow> ns_step (abs_ns s) (abs_ns t)"
  unfolding syscall_openat2_def by (rule ns_with_parent, assumption+) (rule ns_doOpen)

lemma ns_mkdirat: "wf_fs s \<Longrightarrow> syscall_mkdirat d p m s = Some (r, t) \<Longrightarrow> ns_step (abs_ns s) (abs_ns t)"
  unfolding syscall_mkdirat_def by (rule ns_with_parent, assumption+) (rule ns_doMkdir)

lemma ns_mknodat:
  assumes "wf_fs s" "syscall_mknodat d p m dv s = Some (r, t)"
  shows "ns_step (abs_ns s) (abs_ns t)"
proof -
  have "t = s \<or> with_parent p d (\<lambda>parsed. doOpen parsed (O_CREAT OR O_EXCL) m None ReturnNothing) s = Some (r, t)"
    using assms(2) by (auto simp: syscall_mknodat_def fails_def split: if_splits)
  then show ?thesis
    by (auto elim!: ns_with_parent [OF assms(1)] intro: ns_doOpen [OF assms(1)])
qed

lemma ns_symlinkat: "wf_fs s \<Longrightarrow> syscall_symlinkat tgt d p s = Some (r, t) \<Longrightarrow> ns_step (abs_ns s) (abs_ns t)"
  unfolding syscall_symlinkat_def
  by (rule ns_with_parent, assumption+)
    (auto simp: fails_def split: sum.splits prod.splits intro: ns_symlink_checked)

lemma ns_unlinkat:
  assumes wf: "wf_fs s" and run: "syscall_unlinkat d p f s = Some (r, t)"
  shows "ns_step (abs_ns s) (abs_ns t)"
proof (cases "t = s")
  case False
  then have "with_parent p d (\<lambda>parsed. case parsed of Inl e \<Rightarrow> fails e
      | Inr (parent, childName) \<Rightarrow> unlink_checked parent childName f) s = Some (r, t)"
    using run by (auto simp: syscall_unlinkat_def fails_def split: if_splits)
  then show ?thesis
    by (rule ns_with_parent [OF wf])
      (auto simp: fails_def split: sum.splits prod.splits intro: ns_unlink_checked [OF wf])
qed simp

lemma ns_renameat:
  assumes wf: "wf_fs s" and run: "syscall_renameat d p d' p' s = Some (r, t)"
  shows "ns_step (abs_ns s) (abs_ns t)"
  using run unfolding syscall_renameat_def
proof (rule ns_with_parent [OF wf])
  fix old
  assume old: "\<And>op on. old = Inr (op, on) \<Longrightarrow> is_dir s op"
    and k: "(case old of Inl e \<Rightarrow> fails e | Inr (oldParent, oldFileName) \<Rightarrow>
        with_parent p' d' (\<lambda>parsedNew. case parsedNew of Inl e \<Rightarrow> fails e
          | Inr (newParent, newFileName) \<Rightarrow>
              if WASMFS_NAME_MAX < length newFileName then fails ENAMETOOLONG
              else rename_checked oldParent oldFileName newParent newFileName)) s = Some (r, t)"
  then show "ns_step (abs_ns s) (abs_ns t)"
  proof (cases old)
    case (Inr pn)
    obtain op on where pn: "pn = (op, on)" by (rule prod.exhaust)
    have op: "is_dir s op" by (rule old) (simp add: Inr pn)
    show ?thesis
      using k [unfolded Inr pn sum.case prod.case]
    proof (rule ns_with_parent [OF wf])
      fix new
      assume "\<And>p n. new = Inr (p, n) \<Longrightarrow> is_dir s p"
        and "(case new of Inl e \<Rightarrow> fails e | Inr (newParent, newFileName) \<Rightarrow>
              if WASMFS_NAME_MAX < length newFileName then fails ENAMETOOLONG
              else rename_checked op on newParent newFileName) s = Some (r, t)"
      then show "ns_step (abs_ns s) (abs_ns t)"
        using ns_rename_checked [OF wf op] by (auto simp: fails_def split: sum.splits if_splits)
    qed
  qed (simp add: fails_def)
qed

section \<open>The calls that change no name\<close>

text \<open>New files that no directory names only add to the kinds.\<close>

lemma ns_new_file:
  assumes wf: "wf_fs s" and n: "kind_of n \<noteq> DirectoryKind" and f: "new_file n m b sk s = (c, t)"
  shows "names t = names s" "kinds s \<subseteq>\<^sub>m kinds t"
proof -
  note eff = new_file_effect [OF f]
  have c: "\<not> is_dir s (fs_next s)"
    using wf_dir(1) [OF wfD(1) [OF wf]] by (metis less_irrefl)
  have "entries t g = entries s g" "dcache t g = dcache s g" for g
    using c n by (simp_all add: eff)
  then show "names t = names s"
    by (simp add: names_def cong: option.case_cong)
  show "kinds s \<subseteq>\<^sub>m kinds t"
    by (auto simp: map_le_def kinds_def eff split: if_splits)
qed

lemma ns_create: "OpenFileState_create f flags s = Some (Inr oid, t) \<Longrightarrow> abs_ns t = abs_ns s"
  by (rule ns_shape [OF OpenFileState_create_effect(2)])

lemma ns_addEntry: "addEntry oid s = (fd, t) \<Longrightarrow> abs_ns t = abs_ns s"
  using ns_frame(2) [of oid s] by simp

lemma ns_pipe:
  assumes wf: "wf_fs s" and run: "syscall_pipe s = Some (r, t)"
  shows "ns_step (abs_ns s) (abs_ns t)"
proof -
  define s1 where "s1 = s\<lparr>fs_pipes := (fs_pipes s)(fs_pnext s := []), fs_pnext := Suc (fs_pnext s)\<rparr>"
  have q: "quiet s s1"
    by (simp add: s1_def quiet_def same_shape_def)
  obtain f s2 where f: "new_file (PipeFile (fs_pnext s)) (S_IRUGO OR S_IFREG) None False s1 = (f, s2)"
    by (rule prod.exhaust)
  obtain g s3 where g: "new_file (PipeFile (fs_pnext s)) (S_IWUGO OR S_IFREG) None False s2 = (g, s3)"
    by (rule prod.exhaust)
  have wf1: "wf_fs s1"
    by (rule wf_quiet [OF wf q])
  have wf2: "wf_fs s2"
    by (rule wf_new_file [OF wf1 _ f]) simp
  have "abs_ns t = abs_ns s3"
    using run f g unfolding s1_def
    by (auto simp: syscall_pipe_def Let_def split: option.splits sum.splits prod.splits
        dest!: ns_create ns_addEntry)
  moreover have "names s3 = names s" "kinds s \<subseteq>\<^sub>m kinds s3"
    using ns_new_file [OF wf1 _ f] ns_new_file [OF wf2 _ g] ns_quiet [OF q]
    by (auto simp: abs_ns_def intro: map_le_trans)
  ultimately show ?thesis
    by (simp add: abs_ns_def stay)
qed

lemma ns_metadata:
  assumes "wf_fs s"
  shows "syscall_fchmodat2 d p m f s = Some (r, t) \<Longrightarrow> abs_ns t = abs_ns s"
    "syscall_fchmod fd m s = Some (r, t) \<Longrightarrow> abs_ns t = abs_ns s"
    "syscall_utimensat d p tms f s = Some (r, t) \<Longrightarrow> abs_ns t = abs_ns s"
proof -
  have pure: "getFileAt d p fl s = Some (x, u) \<Longrightarrow> u = s" for fl x u
    using getFileAt_pure [OF wfD(1) [OF assms], of d p fl] by auto
  show "syscall_fchmodat2 d p m f s = Some (r, t) \<Longrightarrow> abs_ns t = abs_ns s"
    by (auto simp: syscall_fchmodat2_def fails_def split: if_splits sum.splits option.splits dest!: pure)
  show "syscall_fchmod fd m s = Some (r, t) \<Longrightarrow> abs_ns t = abs_ns s"
    by (auto simp: syscall_fchmod_def fails_def split: option.splits)
  have clock: "quiet s (s\<lparr>fs_calls := c\<rparr>)" for c by (rule quiet_setter)
  show "syscall_utimensat d p tms f s = Some (r, t) \<Longrightarrow> abs_ns t = abs_ns s"
    using set_both_quiet clock
    by (auto simp: syscall_utimensat_def fails_def timespec_to_ms_def date_now_def Let_def
        split: if_splits sum.splits option.splits timespec.splits prod.splits dest!: pure
        intro!: ns_quiet intro: quiet_trans [OF clock set_both_quiet])
qed

lemma ns_links:
  assumes "wf_fs s"
  shows "syscall_chdir p s = Some (r, t) \<Longrightarrow> abs_ns t = abs_ns s"
    "syscall_fchdir fd s = Some (r, t) \<Longrightarrow> abs_ns t = abs_ns s"
    "syscall_getcwd b n s = Some (r, t) \<Longrightarrow> abs_ns t = abs_ns s"
    "syscall_readlinkat d p b n s = Some (r, t) \<Longrightarrow> abs_ns t = abs_ns s"
    "syscall_truncate64 p sz s = Some (r, t) \<Longrightarrow> abs_ns t = abs_ns s"
proof -
  have pure: "parseFile q fd l s = Some (x, u) \<Longrightarrow> u = s" for q fd l x u
    using parseFile_pure [OF wfD(1) [OF assms], of q fd l] by auto
  show "syscall_chdir p s = Some (r, t) \<Longrightarrow> abs_ns t = abs_ns s"
    by (auto simp: syscall_chdir_def doChdir_def fails_def split: option.splits sum.splits if_splits dest!: pure)
  show "syscall_fchdir fd s = Some (r, t) \<Longrightarrow> abs_ns t = abs_ns s"
    by (auto simp: syscall_fchdir_def doChdir_def fails_def split: option.splits if_splits)
  show "syscall_getcwd b n s = Some (r, t) \<Longrightarrow> abs_ns t = abs_ns s"
    by (auto simp: syscall_getcwd_def Let_def fails_def split: option.splits sum.splits if_splits)
  show "syscall_readlinkat d p b n s = Some (r, t) \<Longrightarrow> abs_ns t = abs_ns s"
    by (auto simp: syscall_readlinkat_def Let_def fails_def split: option.splits sum.splits if_splits node.splits
        dest!: pure)
  show "syscall_truncate64 p sz s = Some (r, t) \<Longrightarrow> abs_ns t = abs_ns s"
    by (auto simp: syscall_truncate64_def fails_def split: option.splits sum.splits
        dest!: pure doTruncate_quiet ns_quiet)
qed

lemma ns_data_calls:
  "wasi_fd_read fd iovs s = Some (r, t) \<Longrightarrow> abs_ns t = abs_ns s"
  "wasi_fd_write fd iovs s = Some (r, t) \<Longrightarrow> abs_ns t = abs_ns s"
  "wasi_fd_pread fd iovs off s = Some (r, t) \<Longrightarrow> abs_ns t = abs_ns s"
  "wasi_fd_pwrite fd iovs off s = Some (r, t) \<Longrightarrow> abs_ns t = abs_ns s"
  "wasi_fd_seek fd soff wh nw s = Some (q, t) \<Longrightarrow> abs_ns t = abs_ns s"
  "abs_ns (snd (wasi_fd_sync fd s)) = abs_ns s"
  "abs_ns (snd (syscall_getdents64 fd n s)) = abs_ns s"
  unfolding wasi_fd_read_def wasi_fd_write_def wasi_fd_pread_def wasi_fd_pwrite_def
  by (blast intro: ns_quiet readAtOffset_quiet writeAtOffset_quiet seek_quiet sync_quiet getdents_quiet)+

lemma ns_descriptors:
  "abs_ns (snd (wasi_fd_close fd s)) = abs_ns s"
  "syscall_dup fd s = Some (r, t) \<Longrightarrow> abs_ns t = abs_ns s"
  "syscall_dup3 fd k f s = Some (r, t) \<Longrightarrow> abs_ns t = abs_ns s"
  "syscall_fcntl64 fd cmd s = Some (r, t) \<Longrightarrow> abs_ns t = abs_ns s"
  "syscall_ftruncate64 fd sz s = Some (r, t) \<Longrightarrow> abs_ns t = abs_ns s"
  "syscall_fallocate fd m off len s = Some (r, t) \<Longrightarrow> abs_ns t = abs_ns s"
  "mmap_js al ml pr fl fd moff s = Some (mr, t) \<Longrightarrow> abs_ns t = abs_ns s"
  "msync_js a ml pr fl fd moff s = Some (r, t) \<Longrightarrow> abs_ns t = abs_ns s"
proof -
  have set: "setEntry k v s = (x, u) \<Longrightarrow> abs_ns u = abs_ns s" for k v x u
    using ns_frame(1) [of k v s] by simp
  show "abs_ns (snd (wasi_fd_close fd s)) = abs_ns s"
    by (auto simp: wasi_fd_close_def split: option.splits prod.splits dest!: set)
  show "syscall_dup fd s = Some (r, t) \<Longrightarrow> abs_ns t = abs_ns s"
    "syscall_dup3 fd k f s = Some (r, t) \<Longrightarrow> abs_ns t = abs_ns s"
    by (auto simp: syscall_dup_def syscall_dup3_def fails_def split: option.splits if_splits dest!: ns_addEntry)
  show "syscall_fcntl64 fd cmd s = Some (r, t) \<Longrightarrow> abs_ns t = abs_ns s"
    using ns_quiet [OF quiet_ofile(2)]
    by (auto simp: syscall_fcntl64_def fails_def Let_def split: option.splits fcntl_cmd.splits if_splits)
  show "syscall_ftruncate64 fd sz s = Some (r, t) \<Longrightarrow> abs_ns t = abs_ns s"
    by (auto simp: syscall_ftruncate64_def fails_def split: option.splits dest!: doTruncate_quiet ns_quiet)
  show "syscall_fallocate fd m off len s = Some (r, t) \<Longrightarrow> abs_ns t = abs_ns s"
    by (auto simp: syscall_fallocate_def fails_def Let_def split: option.splits if_splits dest!: quiet_df(3) ns_quiet)
  show "mmap_js al ml pr fl fd moff s = Some (mr, t) \<Longrightarrow> abs_ns t = abs_ns s"
    by (auto simp: mmap_js_def Let_def split: option.splits if_splits dest!: quiet_df(2) intro!: ns_quiet)
  show "msync_js a ml pr fl fd moff s = Some (r, t) \<Longrightarrow> abs_ns t = abs_ns s"
    by (auto simp: msync_js_def wasi_fd_pwrite_def split: option.splits if_splits
        dest!: writeAtOffset_quiet ns_quiet)
qed

lemmas ns_same = ns_data_calls ns_descriptors
lemmas ns_resolving = ns_links ns_metadata

section \<open>Refinement\<close>



end
