(* ===== verification/Fd_Laws.thy ===== *)
theory Fd_Laws
  imports Ns_Refine
begin

text \<open>
  What the calls on descriptors promise: a descriptor that is closed is free and no other changes, a
  duplicate shares the open file state, the file is closed with its last descriptor, new descriptors
  are the lowest free ones, and closed descriptors fail everywhere.
\<close>

section \<open>The table as a map\<close>

definition abs_fds :: "fs \<Rightarrow> u32 \<Rightarrow> ofid option" where
  "abs_fds s = (\<lambda>fd. getEntry fd s)"

lemma abs_fds_setEntry: "abs_fds (snd (setEntry fd v s)) = (abs_fds s)(fd := v)"
  by (rule ext) (simp add: abs_fds_def getEntry_setEntry)

text \<open>The loop of \<open>F_DUPFD\<close> stops at the first free slot from its start.\<close>

lemma free_from_least:
  "n \<le> free_from tbl n \<and> tbl_get tbl (free_from tbl n) = None \<and>
   (\<forall>k. n \<le> k \<and> k < free_from tbl n \<longrightarrow> tbl_get tbl k \<noteq> None) \<and> free_from tbl n \<le> max n (length tbl)"
proof (induction tbl n rule: free_from.induct)
  case (1 tbl n)
  show ?case
  proof (cases "tbl_get tbl n = None")
    case True
    then show ?thesis by (auto simp: free_from.simps [of tbl n])
  next
    case False
    then have "n < length tbl"
      by (simp add: tbl_get_def split: if_splits)
    moreover have eq: "free_from tbl n = free_from tbl (Suc n)"
      unfolding free_from.simps [of tbl n] by (rule if_not_P [OF False])
    moreover have "tbl_get tbl k \<noteq> None" if "n \<le> k" "k < free_from tbl (Suc n)" for k
      using that 1 [OF False] False by (cases "k = n") auto
    ultimately show ?thesis
      unfolding eq using 1 [OF False] by (intro conjI) (auto simp: max_def split: if_splits)
  qed
qed

text \<open>In a table that descriptors can index, an open file state occurs when a descriptor holds it.\<close>

lemma occurs_iff:
  assumes "length (fs_table s) \<le> 2 ^ 32"
  shows "occurs s oid = 0 \<longleftrightarrow> (\<forall>k. getEntry k s \<noteq> Some oid)"
proof
  assume "occurs s oid = 0"
  then show "\<forall>k. getEntry k s \<noteq> Some oid"
    using getEntry_in by (auto simp: occurs_def count_list_0_iff)
next
  assume none: "\<forall>k. getEntry k s \<noteq> Some oid"
  have "Some oid \<notin> set (fs_table s)"
  proof
    assume "Some oid \<in> set (fs_table s)"
    then obtain i where i: "i < length (fs_table s)" "fs_table s ! i = Some oid"
      by (auto simp: in_set_conv_nth)
    then have "unat (of_nat i :: u32) = i"
      using assms by (simp add: unat_of_nat)
    then have "getEntry (of_nat i) s = Some oid"
      using i by (simp add: getEntry_def tbl_get_def)
    then show False using none by blast
  qed
  then show "occurs s oid = 0"
    by (simp add: occurs_def count_list_0_iff)
qed

lemma length_setEntry_None:
  "getEntry fd s = Some oid \<Longrightarrow> length (fs_table (snd (setEntry fd None s))) = length (fs_table s)"
  by (auto simp: getEntry_def tbl_get_def setEntry_table tbl_put_def tbl_grow_def split: if_splits)

section \<open>A concrete table\<close>

text \<open>The directory /tmp open on descriptor 3, with the open file state 3.\<close>

definition demo_open :: fs where
  "demo_open = snd (addEntry 3 (snd (the (OpenFileState_create 8 0 demo_fs))))"

lemma demo_open_facts:
  "wf_fs demo_open" "fs_table demo_open = [Some 0, Some 1, Some 2, Some 3]" "file_of demo_open 3 = 8"
  "is_dir demo_open 8"
proof -
  obtain u where u: "OpenFileState_create 8 0 demo_fs = Some (Inr 3, u)"
    by (simp add: OpenFileState_create_def demo_tree Let_def)
  note eff = OpenFileState_create_effect [OF u]
  have "wf_fs u"
    using wf_tree_shape [OF wfD(1) [OF demo_wf] eff(2)] wf_table_create [OF wfD(2) [OF demo_wf] u]
    by (simp add: wf_fs_def demo_tree)
  moreover have d: "demo_open = snd (addEntry 3 u)"
    by (simp add: demo_open_def u)
  ultimately show "wf_fs demo_open"
    using addEntry_wf [of u 3] eff(5,6) same_shapeD(1) [OF eff(2)] by (simp add: demo_tree)
  obtain fd t where a: "addEntry 3 u = (fd, t)" by (rule prod.exhaust)
  show "fs_table demo_open = [Some 0, Some 1, Some 2, Some 3]"
    by (simp add: d addEntry_def Let_def setEntry_table eff(3) demo_tree tbl_put_def tbl_grow_def)
  show "file_of demo_open 3 = 8"
    by (simp add: d a addEntry_keeps [OF a] eff(6))
  show "is_dir demo_open 8"
    by (simp add: d a addEntry_keeps [OF a] eff(4) demo_tree)
qed

lemma demo_entries: "getEntry 3 demo_open = Some 3" "getEntry 0 demo_open = Some 0"
  "length (fs_table demo_open) = 4" "occurs demo_open 0 = 1"
  by (simp_all add: getEntry_def tbl_get_def demo_open_facts occurs_def)

section \<open>Closing\<close>

lemma close_state: "getEntry fd s = Some oid \<Longrightarrow> snd (wasi_fd_close fd s) = snd (setEntry fd None s)"
  by (auto simp: wasi_fd_close_def split: prod.splits option.splits)



text \<open>What \<open>dup\<close> and \<open>seek\<close> do to the table.\<close>

lemma dup_run:
  assumes "getEntry fd s = Some oid" "length (fs_table s) < 2 ^ 32" "syscall_dup fd s = Some (r, t)"
  shows "addEntry oid s = (r, t)" "getEntry r s = None" "k < r \<Longrightarrow> getEntry k s \<noteq> None"
    "abs_fds t = (abs_fds s)(r \<mapsto> oid)" "r \<noteq> fd"
proof -
  show run: "addEntry oid s = (r, t)"
    using assms(1,3) by (simp add: syscall_dup_def)
  note low = addEntry_lowest [OF assms(2) run]
  show "getEntry r s = None" "k < r \<Longrightarrow> getEntry k s \<noteq> None"
    using low by auto
  show "abs_fds t = (abs_fds s)(r \<mapsto> oid)"
    by (rule ext) (simp add: abs_fds_def low(4))
  show "r \<noteq> fd"
    using low(2) assms(1) by auto
qed

lemma seek_moves:
  assumes "getEntry fd s = Some oid" "wasi_fd_seek fd off wh 1 s = Some ((0, Some p), t)"
  shows "t = setPosition oid p s"
  using assms by (auto simp: wasi_fd_seek_def Let_def split: if_splits)

text \<open>
  C25: \<open>dup\<close> gives the lowest free descriptor, and the two share one open file state: a seek through
  either moves the position of both, while the descriptors around them are as before.
\<close>

theorem dup_shares_position:
  assumes fd: "getEntry fd s = Some oid" and len: "length (fs_table s) < 2 ^ 32"
    and dup: "syscall_dup fd s = Some (r, t)"
    and seek: "wasi_fd_seek fd' off wh 1 t = Some ((0, Some p), u)" "fd' = fd \<or> fd' = r"
  shows "getEntry r s = None \<and> (\<forall>k < r. getEntry k s \<noteq> None) \<and> abs_fds u = (abs_fds s)(r \<mapsto> oid) \<and>
    fd_tell fd u = ((0, Some p), u) \<and> fd_tell r u = ((0, Some p), u)"
proof -
  note d = dup_run [OF fd len dup]
  have e: "getEntry k t = (if k = r then Some oid else getEntry k s)" for k
    using fun_cong [OF d(4), of k] by (simp add: abs_fds_def)
  have "getEntry fd' t = Some oid"
    using seek(2) fd by (auto simp: e)
  then have u: "u = setPosition oid p t"
    by (rule seek_moves [OF _ seek(1)])
  have g: "getEntry k u = getEntry k t" for k
    by (simp add: u setPosition_def upd_ofile_def getEntry_def)
  have "abs_fds u = (abs_fds s)(r \<mapsto> oid)"
    using d(4) by (simp add: abs_fds_def g)
  moreover have "fd_tell k u = ((0, Some p), u)" if "k = fd \<or> k = r" for k
    using that fd by (auto simp: fd_tell_def g e) (auto simp: u setPosition_def upd_ofile_def)
  ultimately show ?thesis
    using d(2,3) by blast
qed

lemma dup_shares_position_witness:
  "\<exists>r t. syscall_dup 0 demo_data = Some (r, t) \<and>
     wasi_fd_seek r 2 0 1 t = Some ((0, Some 2), setPosition 0 2 t) \<and>
     fd_tell 0 (setPosition 0 2 t) = ((0, Some 2), setPosition 0 2 t)"
proof -
  obtain r t where d: "syscall_dup 0 demo_data = Some (r, t)"
    by (cases "addEntry 0 demo_data") (simp add: syscall_dup_def)
  have len: "length (fs_table demo_data) < 2 ^ 32"
    by (simp add: demo_data_def)
  note run = dup_run [OF demo_data_simps(6) len d]
  have "getEntry r t = Some 0"
    using fun_cong [OF run(4), of r] by (simp add: abs_fds_def)
  moreover have "isSeekable t (file_of t 0)"
    using addEntry_keeps [OF run(1)] by simp
  ultimately have seek: "wasi_fd_seek r 2 0 1 t = Some ((0, Some 2), setPosition 0 2 t)"
    by (simp add: seek_to)
  show ?thesis
    using dup_shares_position [OF demo_data_simps(6) len d seek] d seek by blast
qed

text \<open>
  Closing a duplicate undoes the duplication: descriptors, open file states and files are as
  before.
\<close>

theorem dup_close_roundtrip:
  assumes fd: "getEntry fd s = Some oid" and len: "length (fs_table s) < 2 ^ 32"
    and dup: "syscall_dup fd s = Some (r, t)"
  shows "abs_fds (snd (wasi_fd_close r t)) = abs_fds s \<and>
    (\<forall>x. of_uses (fs_ofiles (snd (wasi_fd_close r t)) x) = of_uses (fs_ofiles s x) \<and>
         of_position (fs_ofiles (snd (wasi_fd_close r t)) x) = of_position (fs_ofiles s x)) \<and>
    fs_heap (snd (wasi_fd_close r t)) = fs_heap s"
proof -
  note d = dup_run [OF fd len dup]
  have r: "getEntry r t = Some oid"
    using fun_cong [OF d(4), of r] by (simp add: abs_fds_def)
  have t: "t = snd (setEntry r (Some oid) s)"
    using d(1) by (auto simp: addEntry_def Let_def)
  have "abs_fds (snd (setEntry r None t)) = abs_fds s"
    using d(2) by (auto simp: abs_fds_setEntry d(4)) (simp add: abs_fds_def fun_upd_idem)
  then show ?thesis
    unfolding close_state [OF r] using d(2)
    by (simp add: t uses_setEntry setEntry_keeps_fields getEntry_setEntry)
qed

lemma dup_close_roundtrip_witness:
  "\<exists>r t. syscall_dup 3 demo_open = Some (r, t) \<and>
     abs_fds (snd (wasi_fd_close r t)) = abs_fds demo_open"
proof -
  obtain r t where d: "syscall_dup 3 demo_open = Some (r, t)"
    by (cases "addEntry 3 demo_open") (simp add: syscall_dup_def demo_entries)
  show ?thesis
    using dup_close_roundtrip [OF demo_entries(1) _ d] d by (simp add: demo_entries)
qed

text \<open>The state of the constructor when the streams and the root directory have been made.\<close>

definition demo_std :: fs where
  "demo_std = init_root (init_FileTable (empty_fs demo_host ucast))"

lemma demo_std_facts:
  "wf_fs demo_std" "getEntry 0 demo_std = Some 0" "occurs demo_std 0 = 1" "is_data demo_std 0"
  "file_of demo_std 0 = 0" "length (fs_table demo_std) = 3"
proof -
  show "wf_fs demo_std"
    unfolding demo_std_def by (rule wf_init_root(1)) (rule init_FileTable_facts)+
  have table: "fs_table demo_std = [Some 0, Some 1, Some 2]"
    using init_FileTable_facts(7) [of demo_host ucast]
    by (simp add: demo_std_def init_root_def createMemoryBackend_def createDirectory_def new_file_def
        date_now_def setParent_def upd_file_def Let_def)
  then show "getEntry 0 demo_std = Some 0" "occurs demo_std 0 = 1" "length (fs_table demo_std) = 3"
    by (simp_all add: getEntry_def tbl_get_def occurs_def)
  show "is_data demo_std 0" "file_of demo_std 0 = 0"
    by (simp_all add: demo_std_def init_root_def createMemoryBackend_def createDirectory_def new_file_def
        date_now_def setParent_def upd_file_def Let_def init_FileTable_def push_std_def getStdin_def
        getStdout_def getStderr_def OpenFileState_create_def empty_fs_def)
qed

text \<open>
  C26: The standard streams are counted one too low, because the constructor of the table fills their
  slots without counting them: when a duplicate of a stream is closed, its file is returned to be
  closed although the stream's own descriptor still refers to it.
\<close>

theorem std_stream_closed_early:
  assumes wf: "wf_fs s" and fd: "getEntry fd s = Some oid" "oid < 3" "occurs s oid = 1"
    and data: "is_data s (file_of s oid)" and len: "length (fs_table s) < 2 ^ 32"
    and dup: "syscall_dup fd s = Some (r, t)"
  shows "fst (setEntry r None t) = Some (file_of s oid) \<and>
    getEntry fd (snd (wasi_fd_close r t)) = Some oid"
proof -
  note d = dup_run [OF fd(1) len dup]
  have t: "t = snd (setEntry r (Some oid) s)"
    using d(1) by (auto simp: addEntry_def Let_def)
  have r: "getEntry r t = Some oid"
    using fun_cong [OF d(4), of r] by (simp add: abs_fds_def)
  have "of_uses (fs_ofiles s oid) = 0"
    using wfD(2) [OF wf] fd by (simp add: wf_table_def std_offset_def)
  then have "of_uses (fs_ofiles t oid) = 1"
    using d(2) by (simp add: t uses_setEntry)
  moreover have "is_data t (file_of t oid)" "file_of t oid = file_of s oid"
    using data by (simp_all add: t setEntry_keeps_fields)
  ultimately have "fst (setEntry r None t) = Some (file_of s oid)"
    using setEntry_closee [OF r, of None] by simp
  moreover have "getEntry fd (snd (wasi_fd_close r t)) = Some oid"
    unfolding close_state [OF r] using d(5) fd(1) by (simp add: getEntry_setEntry t)
  ultimately show ?thesis by blast
qed

lemma std_stream_closed_early_witness:
  "\<exists>r t. syscall_dup 0 demo_std = Some (r, t) \<and> fst (setEntry r None t) = Some 0 \<and>
     getEntry 0 (snd (wasi_fd_close r t)) = Some 0"
proof -
  obtain r t where d: "syscall_dup 0 demo_std = Some (r, t)"
    by (cases "addEntry 0 demo_std") (simp add: syscall_dup_def demo_std_facts)
  show ?thesis
    using std_stream_closed_early [OF demo_std_facts(1,2) _ demo_std_facts(3) _ _ d] d
    by (simp add: demo_std_facts)
qed

section \<open>Numbers of descriptors\<close>

text \<open>
  \<open>fcntl\<close> with \<open>F_DUPFD\<close> returns the lowest free descriptor that is not below its argument, on
  the same open file state.
\<close>

theorem dupfd_lowest:
  assumes fd: "getEntry fd s = Some oid" and len: "length (fs_table s) < 2 ^ 32" and arg: "0 \<le> sint n"
  shows "\<exists>r t. syscall_fcntl64 fd (F_DUPFD n) s = Some (r, t) \<and> n \<le> r \<and> getEntry r s = None \<and>
    (\<forall>k. n \<le> k \<and> k < r \<longrightarrow> getEntry k s \<noteq> None) \<and> abs_fds t = (abs_fds s)(r \<mapsto> oid)"
proof -
  let ?m = "free_from (fs_table s) (unat n)"
  define r :: u32 where "r = of_nat ?m"
  note m = free_from_least [of "unat n" "fs_table s"]
  have "?m < 2 ^ 32"
    using m len unsigned_less [of n] by (auto simp: max_def split: if_splits)
  then have r: "unat r = ?m"
    by (simp add: r_def unat_of_nat)
  have run: "syscall_fcntl64 fd (F_DUPFD n) s = Some (r, snd (setEntry r (Some oid) s))"
    using fd arg by (simp add: syscall_fcntl64_def Let_def r_def)
  have "getEntry k s \<noteq> None" if "n \<le> k" "k < r" for k
    using m that by (simp add: getEntry_def word_le_nat_alt word_less_nat_alt r)
  moreover have "n \<le> r" "getEntry r s = None"
    using m by (simp_all add: getEntry_def word_le_nat_alt r)
  ultimately show ?thesis
    using run by (auto simp: abs_fds_setEntry)
qed

lemma dupfd_lowest_witness:
  "\<exists>r t. syscall_fcntl64 3 (F_DUPFD 10) demo_open = Some (r, t) \<and> 10 \<le> r \<and>
     abs_fds t = (abs_fds demo_open)(r \<mapsto> 3)"
  using dupfd_lowest [OF demo_entries(1), of 10] by (auto simp: demo_entries)

text \<open>
  C27: \<open>dup3\<close> makes the new descriptor share the old one's state, replacing what it referred to. It
  accepts every value of the flags: the test for unknown flags can never be true.
\<close>

theorem dup3_effect:
  assumes "getEntry oldfd s = Some oid" "oldfd \<noteq> newfd" "0 \<le> sint newfd"
  shows "\<exists>t. syscall_dup3 oldfd newfd flags s = Some (newfd, t) \<and>
    abs_fds t = (abs_fds s)(newfd \<mapsto> oid) \<and> fs_heap t = fs_heap s"
  using assms by (simp add: syscall_dup3_def abs_fds_setEntry setEntry_keeps_fields)

lemma dup3_effect_witness:
  "\<exists>t. syscall_dup3 3 7 0xFFFF demo_open = Some (7, t) \<and> abs_fds t = (abs_fds demo_open)(7 \<mapsto> 3)"
  using dup3_effect [OF demo_entries(1), of 7 "0xFFFF"] by auto

text \<open>
  C28: \<open>F_SETFL\<close> replaces the whole flag word by the append bit of its argument, so the access mode is
  lost: \<open>F_GETFL\<close> then reports a descriptor opened for writing as read-only.
\<close>

theorem setfl_loses_access_mode:
  assumes "syscall_fcntl64 fd (F_SETFL arg) s = Some (0, t)"
  shows "syscall_fcntl64 fd F_GETFL t = Some (arg AND O_APPEND, t) \<and> arg AND O_APPEND AND O_ACCMODE = O_RDONLY"
proof -
  obtain oid where oid: "getEntry fd s = Some oid"
    using assms by (cases "getEntry fd s") (auto simp: syscall_fcntl64_def fails_def)
  define fl where "fl = arg AND NOT (O_RDONLY OR O_WRONLY OR O_RDWR OR O_CREAT OR O_EXCL OR O_NOCTTY OR O_TRUNC)
    AND NOT O_LARGEFILE"
  have fl: "fl = fl AND O_APPEND" "t = setFlags oid fl s"
    using assms oid by (auto simp: syscall_fcntl64_def fails_def Let_def fl_def and.assoc split: if_splits)
  have "fl AND O_APPEND = arg AND O_APPEND"
    by (simp add: fl_def and.assoc)
  then have "fl = arg AND O_APPEND"
    using fl(1) by simp
  moreover have "arg AND O_APPEND AND O_ACCMODE = O_RDONLY"
    by (simp add: and.assoc)
  ultimately show ?thesis
    using oid by (simp add: fl(2) syscall_fcntl64_def setFlags_def upd_ofile_def getEntry_def)
qed

lemma setfl_loses_access_mode_witness:
  "\<exists>t. syscall_fcntl64 3 (F_SETFL 0x401) demo_open = Some (0, t) \<and>
     syscall_fcntl64 3 F_GETFL t = Some (0x400, t)"
proof -
  have run: "syscall_fcntl64 3 (F_SETFL 0x401) demo_open = Some (0, setFlags 3 0x400 demo_open)"
    by (simp add: syscall_fcntl64_def demo_entries Let_def)
  show ?thesis
    using setfl_loses_access_mode [OF run] run by simp
qed

text \<open>Every call on a descriptor that is not open fails with EBADF and changes nothing.\<close>

theorem closed_descriptor_fails:
  assumes "getEntry fd s = None"
  shows "wasi_fd_read fd iovs s = Some ((wasi EBADF, None), s) \<and>
    wasi_fd_write fd iovs s = Some ((wasi EBADF, None), s) \<and>
    wasi_fd_pread fd iovs off s = Some ((wasi EBADF, None), s) \<and>
    wasi_fd_pwrite fd iovs off s = Some ((wasi EBADF, None), s) \<and>
    wasi_fd_seek fd off wh nw s = Some ((wasi EBADF, None), s) \<and>
    fd_tell fd s = ((wasi EBADF, None), s) \<and> wasi_fd_sync fd s = (wasi EBADF, s) \<and>
    wasi_fd_close fd s = (wasi EBADF, s) \<and>
    syscall_dup fd s = fails EBADF s \<and> syscall_dup3 fd newfd flags s = fails EBADF s \<and>
    syscall_fcntl64 fd cmd s = fails EBADF s \<and> syscall_ftruncate64 fd sz s = fails EBADF s \<and>
    syscall_fallocate fd md off sz s = fails EBADF s \<and> syscall_ioctl fd req s = fails EBADF s \<and>
    syscall_fchmod fd mode s = fails EBADF s \<and> syscall_fchdir fd s = fails EBADF s \<and>
    snd (syscall_getdents64 fd n s) = s"
  using assms
  by (simp add: wasi_fd_read_def wasi_fd_write_def wasi_fd_pread_def wasi_fd_pwrite_def wasi_fd_seek_def
      readAtOffset_def writeAtOffset_def fd_tell_def wasi_fd_sync_def wasi_fd_close_def syscall_dup_def
      syscall_dup3_def syscall_fcntl64_def syscall_ftruncate64_def syscall_fallocate_def syscall_ioctl_def
      syscall_fchmod_def syscall_fchdir_def syscall_getdents64_def)

lemma closed_descriptor_fails_witness:
  "wasi_fd_close 5 demo_open = (wasi EBADF, demo_open)"
proof -
  have "getEntry 5 demo_open = None"
    by (simp add: getEntry_def tbl_get_def demo_open_facts)
  from closed_descriptor_fails [OF this] show ?thesis by simp
qed

end
