(* ===== verification/JsApi.thy ===== *)
theory JsApi
  imports Fd_Laws "HOL-Library.Signed_Division"
begin

text \<open>
  The functions for JavaScript callers (js_api.cpp) and \<open>getPath\<close> (emscripten.cpp). Most forward to a
  system call with the working directory as base. The functions of libc they call are arguments,
  collected in a record, and so is the allocator; what the laws rely on is \<open>libc_wraps\<close>.
\<close>

section \<open>Libc\<close>

record libc =
  lc_stat :: "string \<Rightarrow> fs \<Rightarrow> ((u32 \<times> stat option) \<times> fs) option"
  lc_open :: "string \<Rightarrow> u32 \<Rightarrow> syscall"
  lc_pread :: "u32 \<Rightarrow> u32 \<Rightarrow> u32 \<Rightarrow> u64 \<Rightarrow> syscall"
  lc_close :: "u32 \<Rightarrow> syscall"

text \<open>A libc function returns -1 for every error of its system call.\<close>

definition libc_result :: "u32 \<Rightarrow> u32" where
  "libc_result r = (if sint r < 0 then - 1 else r)"

definition libc_wraps :: "libc \<Rightarrow> bool" where
  "libc_wraps lc \<longleftrightarrow>
    (\<forall>path s. lc_stat lc path s =
      map_option (\<lambda>((r, st), t). ((libc_result r, st), t)) (syscall_stat64 path s)) \<and>
    (\<forall>path flags s. lc_open lc path flags s =
      map_option (\<lambda>(r, t). (libc_result r, t)) (syscall_openat AT_FDCWD path flags 0 s)) \<and>
    (\<forall>fd buf len off s. lc_pread lc fd buf len off s =
      map_option (\<lambda>((e, n), t). (if e \<noteq> 0 then - 1 else (case n of None \<Rightarrow> 0 | Some n \<Rightarrow> n), t))
        (wasi_fd_pread fd [\<lparr>iov_buf = buf, iov_len = len\<rparr>] off s)) \<and>
    (\<forall>fd s. lc_close lc fd s =
      Some (case wasi_fd_close fd s of (e, t) \<Rightarrow> (if e \<noteq> 0 then - 1 else 0, t)))"

section \<open>Whole files\<close>

text \<open>A 64-bit integer in memory, little end first.\<close>

definition bytes_of_u64 :: "u64 \<Rightarrow> byte list" where
  "bytes_of_u64 w = map (\<lambda>i. ucast (drop_bit (8 * i) w)) [0..<8]"

text \<open>\<open>realloc\<close> gives the address of the buffer for a number of bytes; \<open>None\<close> is \<open>abort\<close>.\<close>

definition wasmfs_read_file :: "libc \<Rightarrow> (u32 \<Rightarrow> u32) \<Rightarrow> string \<Rightarrow> syscall" where
  "wasmfs_read_file lc realloc path s =
    (case lc_stat lc path s of
       Some ((err, Some st), s) \<Rightarrow>
         if sint err < 0 then None
         else
           let size = st_size st;
               result = realloc (ucast size + 8);
               s = s\<lparr>fs_mem := mem_store result (bytes_of_u64 size) (fs_mem s)\<rparr> in
           (case lc_open lc path O_RDONLY s of
              None \<Rightarrow> None
            | Some (fd, s) \<Rightarrow>
                if sint fd < 0 then None
                else
                  (case lc_pread lc fd (result + 8) (ucast size) 0 s of
                     None \<Rightarrow> None
                   | Some (numRead, s) \<Rightarrow>
                       (case lc_close lc fd s of
                          None \<Rightarrow> None
                        | Some (err, s) \<Rightarrow> if sint err < 0 then None else Some (result, s))))
     | _ \<Rightarrow> None)"

text \<open>
  \<open>_wasmfs_write_file\<close>: the test after the write is \<open>result != __WASI_ERRNO_SUCCESS\<close>, on a number
  of bytes.
\<close>

definition append_file :: "fid \<Rightarrow> u32 \<Rightarrow> u32 \<Rightarrow> syscall" where
  "append_file child data data_size s =
    (if \<not> is_data s child then Some (0, s)
     else if sint (df_open (node_of s child) O_WRONLY) < 0 then None
     else
       (case df_write child (mem_read s data data_size) (getSize child s) s of
          None \<Rightarrow> None
        | Some (result, s) \<Rightarrow>
            if result \<noteq> 0 then Some (0, s)
            else if sint (df_close (node_of s child)) < 0 then None
            else Some (data_size, s)))"

definition wasmfs_write_file :: "string \<Rightarrow> u32 \<Rightarrow> u32 \<Rightarrow> syscall" where
  "wasmfs_write_file pathname data data_size s =
    (case parseParent pathname AT_FDCWD s of
       None \<Rightarrow> None
     | Some (Inl e, s) \<Rightarrow> Some (0, s)
     | Some (Inr (parent, childName), s) \<Rightarrow>
         (case getChild parent childName s of
            (Some child, s) \<Rightarrow> append_file child data data_size s
          | (None, s) \<Rightarrow>
              (case insertDataFile parent childName 0x1FF s of
                 (None, s) \<Rightarrow> Some (0, s)
               | (Some child, s) \<Rightarrow> append_file child data data_size s)))"

section \<open>Forwarding functions\<close>

definition js_mkdir :: "string \<Rightarrow> u32 \<Rightarrow> syscall" where
  "js_mkdir path mode = syscall_mkdirat AT_FDCWD path mode"

definition js_rmdir :: "string \<Rightarrow> syscall" where
  "js_rmdir path = syscall_unlinkat AT_FDCWD path AT_REMOVEDIR"

definition js_open :: "string \<Rightarrow> u32 \<Rightarrow> u32 \<Rightarrow> syscall" where
  "js_open path flags mode = syscall_openat AT_FDCWD path flags mode"

definition js_allocate :: "u32 \<Rightarrow> u64 \<Rightarrow> u64 \<Rightarrow> syscall" where
  "js_allocate fd offset len = syscall_fallocate fd 0 offset len"

definition js_mknod :: "string \<Rightarrow> u32 \<Rightarrow> u32 \<Rightarrow> syscall" where
  "js_mknod path mode dev = syscall_mknodat AT_FDCWD path mode dev"

definition js_unlink :: "string \<Rightarrow> syscall" where
  "js_unlink path = syscall_unlinkat AT_FDCWD path 0"

definition js_chdir :: "string \<Rightarrow> syscall" where
  "js_chdir path = syscall_chdir path"

definition js_symlink :: "string \<Rightarrow> string \<Rightarrow> syscall" where
  "js_symlink old_path new_path = syscall_symlink old_path new_path"

definition js_chmod :: "string \<Rightarrow> u32 \<Rightarrow> syscall" where
  "js_chmod path mode = syscall_chmod path mode"

definition js_fchmod :: "u32 \<Rightarrow> u32 \<Rightarrow> syscall" where
  "js_fchmod fd mode = syscall_fchmod fd mode"

definition js_lchmod :: "string \<Rightarrow> u32 \<Rightarrow> syscall" where
  "js_lchmod path mode = syscall_fchmodat2 AT_FDCWD path mode AT_SYMLINK_NOFOLLOW"

definition js_rename :: "string \<Rightarrow> string \<Rightarrow> syscall" where
  "js_rename oldpath newpath = syscall_renameat AT_FDCWD oldpath AT_FDCWD newpath"

definition js_truncate :: "string \<Rightarrow> u64 \<Rightarrow> syscall" where
  "js_truncate path len = syscall_truncate64 path len"

definition js_ftruncate :: "u32 \<Rightarrow> u64 \<Rightarrow> syscall" where
  "js_ftruncate fd len = syscall_ftruncate64 fd len"

definition js_close :: "u32 \<Rightarrow> syscall" where
  "js_close fd s = (case wasi_fd_close fd s of (e, s) \<Rightarrow> Some (ucast e, s))"

definition js_stat :: "string \<Rightarrow> fs \<Rightarrow> ((u32 \<times> stat option) \<times> fs) option" where
  "js_stat path = syscall_stat64 path"

definition js_lstat :: "string \<Rightarrow> fs \<Rightarrow> ((u32 \<times> stat option) \<times> fs) option" where
  "js_lstat path = syscall_lstat64 path"

text \<open>The length of a path buffer of libc is an argument.\<close>

definition js_readlink :: "(u32 \<Rightarrow> u32) \<Rightarrow> u32 \<Rightarrow> string \<Rightarrow> syscall" where
  "js_readlink realloc path_max path s =
    (let readBuf = realloc path_max in
     (case syscall_readlinkat AT_FDCWD path readBuf path_max s of
        None \<Rightarrow> None
      | Some (bytes, s) \<Rightarrow>
          if sint bytes < 0 then Some (bytes, s)
          else Some (readBuf, s\<lparr>fs_mem := (fs_mem s)(readBuf + bytes := 0)\<rparr>)))"

section \<open>Reading and writing\<close>

text \<open>A call with one buffer returns the number of bytes or a negative WASI code.\<close>

definition js_count :: "((u16 \<times> u32 option) \<times> fs) option \<Rightarrow> (u32 \<times> fs) option" where
  "js_count res =
    (case res of
       None \<Rightarrow> None
     | Some ((err, numBytes), s) \<Rightarrow>
         if err \<noteq> 0 then Some (- ucast err, s)
         else (case numBytes of None \<Rightarrow> None | Some n \<Rightarrow> Some (n, s)))"

definition js_write :: "u32 \<Rightarrow> u32 \<Rightarrow> u32 \<Rightarrow> syscall" where
  "js_write fd buf count s = js_count (wasi_fd_write fd [\<lparr>iov_buf = buf, iov_len = count\<rparr>] s)"

definition js_pwrite :: "u32 \<Rightarrow> u32 \<Rightarrow> u32 \<Rightarrow> u64 \<Rightarrow> syscall" where
  "js_pwrite fd buf count offset s =
    js_count (wasi_fd_pwrite fd [\<lparr>iov_buf = buf, iov_len = count\<rparr>] offset s)"

definition js_read :: "u32 \<Rightarrow> u32 \<Rightarrow> u32 \<Rightarrow> syscall" where
  "js_read fd buf count s = js_count (wasi_fd_read fd [\<lparr>iov_buf = buf, iov_len = count\<rparr>] s)"

definition js_pread :: "u32 \<Rightarrow> u32 \<Rightarrow> u32 \<Rightarrow> u64 \<Rightarrow> syscall" where
  "js_pread fd buf count offset s =
    js_count (wasi_fd_pread fd [\<lparr>iov_buf = buf, iov_len = count\<rparr>] offset s)"

text \<open>The new position is a 64-bit number returned as an \<open>int\<close>.\<close>

definition js_llseek :: "u32 \<Rightarrow> u64 \<Rightarrow> u32 \<Rightarrow> syscall" where
  "js_llseek fd offset whence s =
    (case wasi_fd_seek fd offset (ucast whence) 1 s of
       None \<Rightarrow> None
     | Some ((err, newOffset), s) \<Rightarrow>
         if err \<noteq> 0 then Some (- ucast err, s)
         else (case newOffset of None \<Rightarrow> None | Some p \<Rightarrow> Some (ucast p, s)))"

section \<open>Times, mounts, kinds of path\<close>

text \<open>Division and remainder of C on a number of milliseconds, towards zero.\<close>

definition js_time :: "u32 \<Rightarrow> timespec" where
  "js_time ms = Timespec (sint ms sdiv 1000) ((sint ms smod 1000) * 1000000)"

definition js_utime :: "string \<Rightarrow> u32 \<Rightarrow> u32 \<Rightarrow> syscall" where
  "js_utime path atime_ms mtime_ms =
    syscall_utimensat AT_FDCWD path (Some (js_time atime_ms, js_time mtime_ms)) 0"

definition js_mount :: "string \<Rightarrow> backend_t option \<Rightarrow> syscall" where
  "js_mount path created_backend s =
    (case syscall_rmdir path s of
       None \<Rightarrow> None
     | Some (err, s) \<Rightarrow>
         if err \<noteq> 0 \<and> err \<noteq> neg_errno ENOENT then Some (err, s)
         else wasmfs_create_directory path 0x1FF created_backend s)"

definition js_unmount :: "string \<Rightarrow> syscall" where
  "js_unmount path = wasmfs_unmount path"

definition js_identify :: "libc \<Rightarrow> string \<Rightarrow> fs \<Rightarrow> (errno \<times> fs) option" where
  "js_identify lc path s =
    (case lc_stat lc path s of
       None \<Rightarrow> None
     | Some ((err, st), s) \<Rightarrow>
         if sint err < 0 then Some (ENOENT, s)
         else (case st of
                 None \<Rightarrow> None
               | Some st \<Rightarrow> Some (if st_mode st AND S_IFMT = S_IFDIR then EISDIR else EEXIST, s)))"

section \<open>The iterator of \<open>readdir\<close>\<close>

record readdir_state =
  rd_i :: nat
  rd_entries :: "string list"

text \<open>\<open>scandir\<close> is libc's: the sorted names of a directory, or \<open>None\<close>.\<close>

definition readdir_start :: "(string \<Rightarrow> string list option) \<Rightarrow> string \<Rightarrow> readdir_state option" where
  "readdir_start scandir path = map_option (\<lambda>es. \<lparr>rd_i = 0, rd_entries = es\<rparr>) (scandir path)"

definition readdir_get :: "readdir_state \<Rightarrow> string option \<times> readdir_state" where
  "readdir_get st =
    (if rd_i st < length (rd_entries st)
     then (Some (rd_entries st ! rd_i st), st\<lparr>rd_i := Suc (rd_i st)\<rparr>) else (None, st))"

section \<open>Calls that pass through libc\<close>

text \<open>
  \<open>getcwd\<close> and the three mapping calls are libc's (\<open>__syscall_mmap2\<close> and the others are defined there,
  over the functions of the theory Descriptors): arguments.
\<close>

definition js_get_cwd :: "(u32 \<Rightarrow> u32 \<Rightarrow> syscall) \<Rightarrow> (u32 \<Rightarrow> u32) \<Rightarrow> syscall" where
  "js_get_cwd getcwd realloc = getcwd (realloc 4096) 4096"

definition js_mmap ::
    "(u32 \<Rightarrow> u32 \<Rightarrow> u32 \<Rightarrow> u32 \<Rightarrow> u32 \<Rightarrow> u64 \<Rightarrow> syscall) \<Rightarrow> u32 \<Rightarrow> u32 \<Rightarrow> u32 \<Rightarrow> u32 \<Rightarrow> u64 \<Rightarrow> syscall" where
  "js_mmap mmap2 len prot flags fd offset = mmap2 0 len prot flags fd offset"

definition js_msync :: "(u32 \<Rightarrow> u32 \<Rightarrow> u32 \<Rightarrow> syscall) \<Rightarrow> u32 \<Rightarrow> u32 \<Rightarrow> u32 \<Rightarrow> syscall" where
  "js_msync msync addr len flags = msync addr len flags"

definition js_munmap :: "(u32 \<Rightarrow> u32 \<Rightarrow> syscall) \<Rightarrow> u32 \<Rightarrow> u32 \<Rightarrow> syscall" where
  "js_munmap munmap addr len = munmap addr len"

section \<open>The path of a descriptor\<close>

text \<open>
  \<open>getPath\<close> of emscripten.cpp. Its loop goes on with the parent as a directory; the loop returns
  when the file is linked, and \<open>None\<close> would be a loop that does not end.
\<close>

partial_function (option) getPath_loop :: "fid \<Rightarrow> string \<Rightarrow> fs \<Rightarrow> string option" where
  "getPath_loop cur result s =
    (if cur = fs_root s then Some result
     else
       (case parent_of s cur of
          None \<Rightarrow> Some (''?/'' @ result)
        | Some p \<Rightarrow> getPath_loop p (CHR ''/'' # getName p cur s @ result) s))"

definition getPath :: "u32 \<Rightarrow> fs \<Rightarrow> string option" where
  "getPath fd s =
    (case getEntry fd s of
       None \<Rightarrow> Some ''!''
     | Some openFile \<Rightarrow> getPath_loop (file_of s openFile) [] s)"

end
