(* ===== verification/Js_Laws.thy ===== *)
theory Js_Laws
  imports JsApi
begin

text \<open>
  What a JavaScript caller gets: the result of writing a whole file, the buffer of reading one, and
  the path of an open directory.
\<close>

section \<open>A concrete file\<close>

text \<open>The file /tmp/a with three bytes, and libc as \<open>libc_wraps\<close> describes it.\<close>

definition demo_file :: fs where
  "demo_file = insert_new 8 ''a'' (MemoryDataFile [1, 2, 3]) 0x81FF demo_fs"

lemmas demo_file_facts = insert_path [OF demo_wf demo_parse demo_tmp_child demo_tree(10),
    of "MemoryDataFile [1, 2, 3]" "0x81FF", folded demo_file_def, simplified demo_tree, simplified]

definition demo_libc :: libc where
  "demo_libc = \<lparr>
    lc_stat = \<lambda>path s. map_option (\<lambda>((r, st), t). ((libc_result r, st), t)) (syscall_stat64 path s),
    lc_open = \<lambda>path flags s. map_option (\<lambda>(r, t). (libc_result r, t)) (syscall_openat AT_FDCWD path flags 0 s),
    lc_pread = \<lambda>fd buf len off s.
      map_option (\<lambda>((e, n), t). (if e \<noteq> 0 then - 1 else (case n of None \<Rightarrow> 0 | Some n \<Rightarrow> n), t))
        (wasi_fd_pread fd [\<lparr>iov_buf = buf, iov_len = len\<rparr>] off s),
    lc_close = \<lambda>fd s. Some (case wasi_fd_close fd s of (e, t) \<Rightarrow> (if e \<noteq> 0 then - 1 else 0, t))\<rparr>"

lemma demo_libc: "libc_wraps demo_libc"
  by (simp add: libc_wraps_def demo_libc_def)

section \<open>Writing a whole file\<close>

lemma append_memory:
  assumes "node_of s f = MemoryDataFile b" "length b + unat n \<le> 0x7FFFFFFF" "n \<noteq> 0"
  shows "\<exists>t. append_file f data n s = Some (0, t) \<and>
    node_of t f = MemoryDataFile (b @ mem_read s data n) \<and> (\<forall>g. g \<noteq> f \<longrightarrow> node_of t g = node_of s g)"
proof -
  have size: "getSize f s = of_nat (length b)" "unat (of_nat (length b) :: u64) = length b"
    using assms(2) by (simp_all add: getSize_def assms(1) unat_of_nat)
  have "df_write f (mem_read s data n) (of_nat (length b)) s =
      Some (of_nat (length (mem_read s data n)), set_node f (MemoryDataFile (write_spec (length b) (mem_read s data n) b)) s)"
    using df_write_memory [OF assms(1), of "of_nat (length b)" "mem_read s data n"] size assms(2) by simp
  moreover have "of_nat (unat n) \<noteq> (0 :: u32)"
    using assms(3) by simp
  ultimately show ?thesis
    using assms(1) by (simp add: append_file_def size write_spec_at_end)
qed

text \<open>
  C29: \<open>_wasmfs_write_file\<close> appends the bytes to the file and then returns 0, the result that is
  documented for a failure: the number of bytes that \<open>write\<close> returns is taken for an error code.
\<close>

theorem js_write_file_returns_0:
  assumes wf: "wf_fs s" and path: "parseParent path (- 100) s = Some (Inr (d, n), s)"
    and f: "child_of s d n = Some f" "node_of s f = MemoryDataFile b"
    and len: "length b + unat count \<le> 0x7FFFFFFF" "count \<noteq> 0"
  shows "\<exists>t. wasmfs_write_file path data count s = Some (0, t) \<and>
    node_of t f = MemoryDataFile (b @ mem_read s data count) \<and> (\<forall>g. g \<noteq> f \<longrightarrow> node_of t g = node_of s g)"
  using append_memory [OF f(2) len] by (simp add: wasmfs_write_file_def path getChild_child_of [OF wfD(1) [OF wf]] f)

lemma js_write_file_returns_0_witness:
  "\<exists>t. wasmfs_write_file ''/tmp/a'' 16 2 demo_file = Some (0, t) \<and>
     node_of t 9 = MemoryDataFile ([1, 2, 3] @ mem_read demo_file 16 2)"
  using js_write_file_returns_0 [OF demo_file_facts(1,3,4,5), of 2 16] by auto

section \<open>Reading a whole file\<close>

lemma setEntry_mem: "fs_mem (snd (setEntry fd v s)) = fs_mem s"
  by (auto simp: setEntry_def upd_ofile_def Let_def split: option.splits)

lemma close_ok: "getEntry fd s = Some oid \<Longrightarrow> wasi_fd_close fd s = (0, snd (setEntry fd None s))"
  by (auto simp: wasi_fd_close_def split: prod.splits option.splits)

lemma open_file_mem:
  assumes "open_file f flags (\<lambda>s. Some (None, s)) u = Some (r, t)"
  shows "fs_mem t = fs_mem u"
  using assms
  by (auto simp: open_file_def OpenFileState_create_def Let_def addEntry_def setEntry_mem
      split: if_splits option.splits)

lemma extends_mem: "extends s (s\<lparr>fs_mem := m\<rparr>)"
proof -
  have "same_shape s (s\<lparr>fs_mem := m\<rparr>)"
    by (simp add: same_shape_def)
  from child_of_shape [OF this] show ?thesis
    by (simp add: extends_def getEntry_def)
qed

text \<open>Opening an existing data file for reading, by a path of the working directory.\<close>

lemma open_for_reading:
  assumes wf: "wf_fs s" and path: "parseParent path (- 100) s = Some (Inr (d, n), s)"
    and f: "child_of s d n = Some f" "node_of s f = MemoryDataFile b" "mode_of s f AND 0x124 \<noteq> 0"
    and len: "length n \<le> 255" "length b \<le> 0x7FFFFFFF" "length (fs_table s) < 2 ^ 31"
  obtains fd oid t where "syscall_openat (- 100) path 0 m s = Some (fd, t)" "0 \<le> sint fd"
    "open_memory t fd oid b" "getEntry fd s = None" "abs_fds t = (abs_fds s)(fd \<mapsto> oid)"
    "fs_heap t = fs_heap s" "fs_mem t = fs_mem s" "wf_fs t"
proof -
  have k: "open_truncate f 0 x = (\<lambda>s. Some (None, s))" for x
    by (rule ext) (simp add: open_truncate_def)
  have f1: "f < fs_next s"
    using child_of_linked(1) [OF wfD(1) [OF wf] parse_dir [OF wf path] f(1)]
      linked_allocated [OF wfD(1) [OF wf]] by blast
  have l1: "length (fs_table s) < 2 ^ 32"
    using len(3) by simp
  show thesis
  proof (rule open_file_opens [OF wf f1 _ l1, where flags = 0])
    fix fd t
    assume t: "open_file f 0 (\<lambda>s. Some (None, s)) s = Some (fd, t)" "wf_fs t" "getEntry fd s = None"
      "\<And>k. k < fd \<Longrightarrow> getEntry k s \<noteq> None"
      "\<And>k. getEntry k t = (if k = fd then Some (fs_ofnext s) else getEntry k s)"
      "file_of t (fs_ofnext s) = f" "fs_heap t = fs_heap s"
    have run: "syscall_openat (- 100) path 0 m s = Some (fd, t)"
      using t(1) f len(1)
      by (simp add: syscall_openat_def with_parent_def path doOpen_def Let_def open_existing_def k
          getChild_child_of [OF wfD(1) [OF wf]])
    have "\<not> of_nat (length (fs_table s)) < fd"
      using t(4) [of "of_nat (length (fs_table s))"] len(3)
      by (auto simp: getEntry_def tbl_get_def unat_of_nat)
    then have "unat fd < 2 ^ 31"
      using len(3) by (simp add: word_less_nat_alt unat_of_nat)
    then have "0 \<le> sint fd"
      by (simp add: sint_small)
    then show thesis
      using run t f(2) len(2) open_file_mem [OF t(1)]
      by (intro that [of fd t "fs_ofnext s"]) (simp_all add: open_memory_def abs_fds_def fun_eq_iff)
  qed (use f in simp)
qed

text \<open>
  C30: \<open>_wasmfs_read_file\<close> returns a buffer with the length of the file in the first eight bytes, little
  end first, and then exactly the bytes of the file; files and descriptors are as before.
\<close>

theorem js_read_file_reads:
  assumes lc: "libc_wraps lc" and wf: "wf_fs s"
    and path: "parseParent path (- 100) s = Some (Inr (d, n), s)"
    and f: "child_of s d n = Some f" "node_of s f = MemoryDataFile b" "mode_of s f AND 0x124 \<noteq> 0"
    and len: "length n \<le> 255" "length (fs_table s) < 2 ^ 31"
    and buf: "buf = realloc (of_nat (length b) + 8)" "unat buf + 8 + length b < 2 ^ 32" "length b \<le> 0x7FFFFFFF"
  shows "\<exists>t. wasmfs_read_file lc realloc path s = Some (buf, t) \<and>
    mem_read t buf 8 = bytes_of_u64 (of_nat (length b)) \<and>
    mem_read t (buf + 8) (of_nat (length b)) = b \<and> fs_heap t = fs_heap s \<and> abs_fds t = abs_fds s"
proof -
  define u where "u = s\<lparr>fs_mem := mem_store buf (bytes_of_u64 (of_nat (length b))) (fs_mem s)\<rparr>"
  have wfu: "wf_fs u"
    unfolding u_def using wf quiet_setter(6) by (rule wf_quiet)
  have "extends s u"
    unfolding u_def by (rule extends_mem)
  then have pathu: "parseParent path (- 100) u = Some (Inr (d, n), u)"
    by (rule parseParent_extends [OF wf wfu _ path])
  have size: "getSize f s = of_nat (length b)" "sint (of_nat (length b) :: u64) = int (length b)"
    using buf(3) by (simp_all add: getSize_def f(2) sint_of_nat_size)
  have stat: "syscall_stat64 path s = Some ((0, Some (stat_of f s)), s)"
    using parseFile_of_parent [OF wf path f(1)] f(2) size
    by (simp add: syscall_stat64_def syscall_newfstatat_def getFileAt_def)
  have cut: "ucast (of_nat (length b) :: u64) = (of_nat (length b) :: u32)"
    using buf(2) by (simp add: word_unat_eq_iff unat_ucast_u32 unat_of_nat)
  have len32: "unat (of_nat (length b) :: u32) = length b"
    using buf(2) by (simp add: unat_of_nat)
  have "child_of u d n = Some f"
    using \<open>extends s u\<close> f(1) by (simp add: extends_def)
  moreover have "node_of u f = MemoryDataFile b" "mode_of u f AND 0x124 \<noteq> 0" "length (fs_table u) < 2 ^ 31"
    using f(2,3) len(2) by (simp_all add: u_def)
  ultimately show ?thesis
  proof (rule open_for_reading [OF wfu pathu _ _ _ len(1) buf(3), of _ 0])
    fix fd oid t
    assume t: "syscall_openat (- 100) path 0 0 u = Some (fd, t)" "0 \<le> sint fd" "open_memory t fd oid b"
      "getEntry fd u = None" "abs_fds t = (abs_fds u)(fd \<mapsto> oid)" "fs_heap t = fs_heap u" "fs_mem t = fs_mem u"
    define v where "v = t\<lparr>fs_mem := mem_store (buf + 8) b (fs_mem t)\<rparr>"
    have "unat (buf + 8) = unat buf + 8"
      using buf(2) unat_add_u32 by (simp add: unat_word_ariths)
    then have "buf + 8 \<noteq> 0" by auto
    then have pread: "wasi_fd_pread fd [\<lparr>iov_buf = buf + 8, iov_len = of_nat (length b)\<rparr>] 0 t =
        Some ((0, Some (of_nat (length b))), v)"
      using pread_memory [OF t(3), of "one_iov (buf + 8) (of_nat (length b))" 0] buf(3)
      by (simp add: len32 v_def)
    have fdv: "getEntry fd v = Some oid"
      using t(3) by (simp add: v_def open_memory_def getEntry_def)
    define w where "w = snd (setEntry fd None v)"
    have "wasmfs_read_file lc realloc path s = Some (buf, w)"
      using lc t(1,2) stat pread close_ok [OF fdv] unfolding libc_wraps_def
      by (simp add: wasmfs_read_file_def libc_result_def Let_def stat_of_def size(1) cut
          buf(1) [symmetric] u_def [symmetric] w_def)
    moreover have "mem_read w (buf + 8) (of_nat (length b)) = b"
      using mem_read_store [of b "of_nat (length b)" "buf + 8" "fs_mem t" t] len32
      by (simp add: mem_read_def w_def setEntry_mem v_def)
    moreover have "mem_read w buf 8 = bytes_of_u64 (of_nat (length b))"
    proof -
      have "mem_store (buf + 8) b (fs_mem t) (buf + of_nat i) = fs_mem t (buf + of_nat i)" if "i < 8" for i
      proof (rule mem_store_other, intro allI impI)
        fix j
        assume "j < length b"
        then have "unat (of_nat (8 + j) :: u32) = 8 + j" "unat (of_nat i :: u32) = i"
          using buf(2) that by (simp_all only: unat_of_nat) simp_all
        then have "(of_nat i :: u32) \<noteq> of_nat (8 + j)"
          using that by auto
        then show "buf + of_nat i \<noteq> buf + 8 + of_nat j"
          by (simp add: add.assoc)
      qed
      then have "mem_read w buf 8 = mem_read u buf 8"
        by (simp add: mem_read_def w_def setEntry_mem v_def t(7))
      then show ?thesis
        using mem_read_store [of "bytes_of_u64 (of_nat (length b))" 8 buf "fs_mem s" s]
        by (simp add: u_def bytes_of_u64_def)
    qed
    moreover have "fs_heap w = fs_heap s"
      using t(6) by (simp add: w_def setEntry_keeps_fields v_def u_def)
    moreover have "abs_fds w = abs_fds s"
    proof -
      have "abs_fds v = abs_fds t" "abs_fds u = abs_fds s"
        by (simp_all add: abs_fds_def getEntry_def v_def u_def)
      moreover from this have "abs_fds s fd = None"
        using t(4) by (simp add: abs_fds_def fun_eq_iff)
      ultimately show ?thesis
        using t(5) by (simp add: w_def abs_fds_setEntry fun_upd_idem)
    qed
    ultimately show ?thesis by blast
  qed
qed

lemma js_read_file_reads_witness:
  "\<exists>t. wasmfs_read_file demo_libc (\<lambda>_. 64) ''/tmp/a'' demo_file = Some (64, t) \<and>
     mem_read t 64 8 = [3, 0, 0, 0, 0, 0, 0, 0] \<and> mem_read t 72 3 = [1, 2, 3]"
proof -
  have "bytes_of_u64 3 = [3, 0, 0, 0, 0, 0, 0, 0]"
    by (simp add: bytes_of_u64_def upt_rec drop_bit_numeral_bit0)
  then show ?thesis
    using js_read_file_reads [OF demo_libc demo_file_facts(1,3,4,5), of 64 "\<lambda>_. 64"]
    by (auto simp: demo_file_facts demo_tree)
qed

section \<open>The path of a directory\<close>

lemma getPath_cwd: "cwd_path cur acc s = Some (Inr r) \<Longrightarrow> getPath_loop cur acc s = Some r"
proof -
  assume run: "cwd_path cur acc s = Some (Inr r)"
  have "\<forall>x. res = Inr x \<longrightarrow> getPath_loop cur acc s = Some x" if "cwd_path cur acc s = Some res" for res
  proof (rule cwd_path.raw_induct [OF _ that, where P = "\<lambda>cur acc s res. \<forall>x. res = Inr x \<longrightarrow> getPath_loop cur acc s = Some x"])
    fix cwd cur acc s and y :: "errno + string"
    assume "\<And>cur acc s y. cwd cur acc s = Some y \<Longrightarrow> \<forall>x. y = Inr x \<longrightarrow> getPath_loop cur acc s = Some x"
      and "(if cur = fs_root s then Some (Inr acc)
            else case parent_of s cur of None \<Rightarrow> Some (Inl ENOENT)
              | Some p \<Rightarrow> cwd p (CHR ''/'' # getName p cur s @ acc) s) = Some y"
    then show "\<forall>x. y = Inr x \<longrightarrow> getPath_loop cur acc s = Some x"
      by (subst getPath_loop.simps) (auto split: if_splits option.splits)
  qed
  then show ?thesis
    using run by blast
qed


lemma demo_open_shape: "same_shape demo_fs demo_open"
proof -
  obtain u where u: "OpenFileState_create 8 0 demo_fs = Some (Inr 3, u)"
    by (simp add: OpenFileState_create_def demo_tree Let_def)
  then have "same_shape demo_fs u"
    by (rule OpenFileState_create_effect(2))
  then show ?thesis
    using same_shape_trans [OF _ setEntry_shape] by (simp add: demo_open_def u addEntry_def Let_def)
qed

lemma demo_open_tree:
  "fs_root demo_open = 3" "parent_of demo_open 8 = Some 3" "parent_of demo_open 3 = Some 3"
  "entries demo_open 3 = [(''dev'', 4), (''tmp'', 8)]"
  using demo_tree demo_child_tmp by (simp_all add: same_shapeD [OF demo_open_shape])


end
