(* ===== verification/NodeBackend.thy ===== *)
theory NodeBackend
  imports Js_Laws
begin

text \<open>
  The backend on the file system of Node (node_backend.cpp). The functions of library_wasmfs_node.js
  are not part of the repository: they are a record of functions on a host of type \<open>'h\<close>, an argument
  of every operation. \<open>None\<close> is \<open>WASMFS_UNREACHABLE\<close> or \<open>abort\<close>.
\<close>

section \<open>The calls into JavaScript\<close>

text \<open>
  An error code or 0 comes first, then what is written through an out parameter; \<open>nc_open\<close> gives a
  descriptor or a negative number.
\<close>

record 'h node_calls =
  nc_open :: "string \<Rightarrow> string \<Rightarrow> 'h \<Rightarrow> u32 \<times> 'h"
  nc_close :: "u32 \<Rightarrow> 'h \<Rightarrow> u32 \<times> 'h"
  nc_stat_size :: "string \<Rightarrow> 'h \<Rightarrow> (u32 \<times> u32) \<times> 'h"
  nc_fstat_size :: "u32 \<Rightarrow> 'h \<Rightarrow> (u32 \<times> u32) \<times> 'h"
  nc_read :: "u32 \<Rightarrow> u32 \<Rightarrow> u32 \<Rightarrow> 'h \<Rightarrow> (u32 \<times> byte list) \<times> 'h"
  nc_write :: "u32 \<Rightarrow> byte list \<Rightarrow> u32 \<Rightarrow> 'h \<Rightarrow> (u32 \<times> u32) \<times> 'h"
  nc_get_mode :: "string \<Rightarrow> 'h \<Rightarrow> (u32 \<times> u32) \<times> 'h"
  nc_unlink :: "string \<Rightarrow> 'h \<Rightarrow> u32 \<times> 'h"
  nc_rmdir :: "string \<Rightarrow> 'h \<Rightarrow> u32 \<times> 'h"
  nc_insert_file :: "string \<Rightarrow> u32 \<Rightarrow> 'h \<Rightarrow> u32 \<times> 'h"
  nc_insert_directory :: "string \<Rightarrow> u32 \<Rightarrow> 'h \<Rightarrow> u32 \<times> 'h"
  nc_readdir :: "string \<Rightarrow> 'h \<Rightarrow> (u32 \<times> (string \<times> FileKind) list) \<times> 'h"

section \<open>The open state of a file\<close>

record NodeState =
  no_openCount :: u32
  no_openFlags :: u32
  no_fd :: u32
  no_path :: string

definition NodeState_init :: "string \<Rightarrow> NodeState" where
  "NodeState_init path = \<lparr>no_openCount = 0, no_openFlags = 0, no_fd = - 1, no_path = path\<rparr>"

definition NodeState_isOpen :: "NodeState \<Rightarrow> bool" where
  "NodeState_isOpen st \<longleftrightarrow> 0 < no_openCount st"

text \<open>The mode string for a fresh descriptor.\<close>

definition node_mode :: "u32 \<Rightarrow> string option" where
  "node_mode flags =
    (if flags = O_RDONLY then Some ''r'' else if flags = O_WRONLY then Some ''w''
     else if flags = O_RDWR then Some ''r+'' else None)"

text \<open>The new descriptor and flags, and one more open.\<close>

definition NodeState_update :: "u32 \<Rightarrow> u32 \<Rightarrow> NodeState \<Rightarrow> NodeState" where
  "NodeState_update result flags st =
    st\<lparr>no_fd := result, no_openFlags := flags, no_openCount := no_openCount st + 1\<rparr>"

definition NodeState_open ::
    "'h node_calls \<Rightarrow> u32 \<Rightarrow> NodeState \<Rightarrow> 'h \<Rightarrow> (u32 \<times> NodeState \<times> 'h) option" where
  "NodeState_open nc flags st h =
    (if no_openCount st = 0 then
       (case node_mode flags of
          None \<Rightarrow> None
        | Some m \<Rightarrow>
            let (result, h) = nc_open nc (no_path st) m h in
            Some (if sint result < 0 then (result, st, h) else (0, NodeState_update result flags st, h)))
     else if no_openFlags st = O_RDONLY \<and> (flags = O_WRONLY \<or> flags = O_RDWR) \<or>
         no_openFlags st = O_WRONLY \<and> (flags = O_RDONLY \<or> flags = O_RDWR) then
       let (result, h) = nc_open nc (no_path st) ''r+'' h in
       if sint result < 0 then Some (result, st, h)
       else let (_, h) = nc_close nc (no_fd st) h in Some (0, NodeState_update result flags st, h)
     else Some (0, st\<lparr>no_openCount := no_openCount st + 1\<rparr>, h))"

definition NodeState_close :: "'h node_calls \<Rightarrow> NodeState \<Rightarrow> 'h \<Rightarrow> u32 \<times> NodeState \<times> 'h" where
  "NodeState_close nc st h =
    (let count = no_openCount st - 1 in
     if count = 0 then let (ret, h) = nc_close nc (no_fd st) h in (ret, NodeState_init (no_path st), h)
     else (0, st\<lparr>no_openCount := count\<rparr>, h))"

section \<open>Files\<close>

definition NodeFile_getSize :: "'h node_calls \<Rightarrow> NodeState \<Rightarrow> 'h \<Rightarrow> u64 \<times> 'h" where
  "NodeFile_getSize nc st h =
    (let ((err, size), h) =
       (if NodeState_isOpen st then nc_fstat_size nc (no_fd st) h else nc_stat_size nc (no_path st) h) in
     (if err \<noteq> 0 then 0 else ucast size, h))"

text \<open>The offset is passed as a 32-bit number.\<close>

definition NodeFile_read ::
    "'h node_calls \<Rightarrow> NodeState \<Rightarrow> u32 \<Rightarrow> u64 \<Rightarrow> 'h \<Rightarrow> (u32 \<times> byte list) \<times> 'h" where
  "NodeFile_read nc st len offset h =
    (let ((err, bs), h) = nc_read nc (no_fd st) len (ucast offset) h in
     (if err \<noteq> 0 then (- err, bs) else (of_nat (length bs), bs), h))"

definition NodeFile_write :: "'h node_calls \<Rightarrow> NodeState \<Rightarrow> byte list \<Rightarrow> u64 \<Rightarrow> 'h \<Rightarrow> u32 \<times> 'h" where
  "NodeFile_write nc st data offset h =
    (let ((err, nwritten), h) = nc_write nc (no_fd st) data (ucast offset) h in
     (if err \<noteq> 0 then - err else nwritten, h))"

section \<open>Directories\<close>

text \<open>A child is a new object: its kind, mode and path.\<close>

record node_child =
  ch_kind :: FileKind
  ch_mode :: u32
  ch_state :: NodeState

definition getChildPath :: "NodeState \<Rightarrow> string \<Rightarrow> string" where
  "getChildPath st name = no_path st @ CHR ''/'' # name"

definition NodeDirectory_getChild ::
    "'h node_calls \<Rightarrow> NodeState \<Rightarrow> string \<Rightarrow> 'h \<Rightarrow> node_child option \<times> 'h" where
  "NodeDirectory_getChild nc st name h =
    (let childPath = getChildPath st name;
         ((err, mode), h) = nc_get_mode nc childPath h;
         child = (\<lambda>k. Some \<lparr>ch_kind = k, ch_mode = mode, ch_state = NodeState_init childPath\<rparr>) in
     (if err \<noteq> 0 then None
      else if mode AND S_IFMT = S_IFREG then child DataFileKind
      else if mode AND S_IFMT = S_IFDIR then child DirectoryKind
      else None, h))"

definition NodeDirectory_removeChild :: "'h node_calls \<Rightarrow> NodeState \<Rightarrow> string \<Rightarrow> 'h \<Rightarrow> u32 \<times> 'h" where
  "NodeDirectory_removeChild nc st name h =
    (let childPath = getChildPath st name; (err, h) = nc_unlink nc childPath h in
     if err = 0 then (0, h)
     else
       let (err, h) = (if err = of_nat (errno_num EISDIR) then nc_rmdir nc childPath h else (err, h)) in
       (- err, h))"

definition NodeDirectory_insertDataFile ::
    "'h node_calls \<Rightarrow> NodeState \<Rightarrow> string \<Rightarrow> u32 \<Rightarrow> 'h \<Rightarrow> node_child option \<times> 'h" where
  "NodeDirectory_insertDataFile nc st name mode h =
    (let childPath = getChildPath st name; (err, h) = nc_insert_file nc childPath mode h in
     (if err \<noteq> 0 then None
      else Some \<lparr>ch_kind = DataFileKind, ch_mode = mode, ch_state = NodeState_init childPath\<rparr>, h))"

definition NodeDirectory_insertDirectory ::
    "'h node_calls \<Rightarrow> NodeState \<Rightarrow> string \<Rightarrow> u32 \<Rightarrow> 'h \<Rightarrow> node_child option \<times> 'h" where
  "NodeDirectory_insertDirectory nc st name mode h =
    (let childPath = getChildPath st name; (err, h) = nc_insert_directory nc childPath mode h in
     (if err \<noteq> 0 then None
      else Some \<lparr>ch_kind = DirectoryKind, ch_mode = mode, ch_state = NodeState_init childPath\<rparr>, h))"

text \<open>The entries have no inode number; an error is its negative code.\<close>

definition node_record_dirent :: "dirent list \<Rightarrow> string \<times> FileKind \<Rightarrow> dirent list" where
  "node_record_dirent es e = es @ [\<lparr>de_name = fst e, de_kind = snd e, de_ino = 0\<rparr>]"

definition NodeDirectory_getEntries ::
    "'h node_calls \<Rightarrow> NodeState \<Rightarrow> 'h \<Rightarrow> (u32 + dirent list) \<times> 'h" where
  "NodeDirectory_getEntries nc st h =
    (let ((err, names), h) = nc_readdir nc (no_path st) h in
     (if err \<noteq> 0 then Inl (- err) else Inr (foldl node_record_dirent [] names), h))"

definition NodeDirectory_getNumEntries :: "'h node_calls \<Rightarrow> NodeState \<Rightarrow> 'h \<Rightarrow> u32 \<times> 'h" where
  "NodeDirectory_getNumEntries nc st h =
    (let (res, h) = NodeDirectory_getEntries nc st h in
     (case res of Inl err \<Rightarrow> err | Inr es \<Rightarrow> of_nat (length es), h))"

definition NodeBackend_createFile :: "string \<Rightarrow> u32 \<Rightarrow> node_child" where
  "NodeBackend_createFile mountPath mode =
    \<lparr>ch_kind = DataFileKind, ch_mode = mode, ch_state = NodeState_init mountPath\<rparr>"

definition NodeBackend_createDirectory :: "string \<Rightarrow> u32 \<Rightarrow> node_child" where
  "NodeBackend_createDirectory mountPath mode =
    \<lparr>ch_kind = DirectoryKind, ch_mode = mode, ch_state = NodeState_init mountPath\<rparr>"

section \<open>Opens and closes of one file\<close>

text \<open>
  What Node documents for opening and closing: \<open>opened h\<close> are the descriptors that are open, with
  path and mode. A successful open gives a descriptor that was not open.
\<close>

definition node_opens :: "('h \<Rightarrow> u32 \<Rightarrow> (string \<times> string) option) \<Rightarrow> 'h node_calls \<Rightarrow> bool" where
  "node_opens opened nc \<longleftrightarrow>
    (\<forall>path m h. case nc_open nc path m h of (r, h') \<Rightarrow>
       if sint r < 0 then opened h' = opened h
       else opened h r = None \<and> opened h' = (opened h)(r \<mapsto> (path, m))) \<and>
    (\<forall>fd h. opened (snd (nc_close nc fd h)) = (opened h)(fd := None))"

definition mode_allows :: "string \<Rightarrow> u32 \<Rightarrow> bool" where
  "mode_allows m flags \<longleftrightarrow>
    m = ''r'' \<and> flags = O_RDONLY \<or> m = ''w'' \<and> flags = O_WRONLY \<or>
    m = ''r+'' \<and> (flags = O_RDONLY \<or> flags = O_WRONLY \<or> flags = O_RDWR)"

text \<open>
  The states one file goes through, with the access modes of the opens that are not closed yet. The
  callers check the access mode first (\<open>doOpen\<close>), and fewer than $2^{32}$ opens are outstanding.
\<close>

inductive node_run ::
    "'h node_calls \<Rightarrow> string \<Rightarrow> 'h \<Rightarrow> u32 list \<Rightarrow> NodeState \<Rightarrow> 'h \<Rightarrow> bool" for nc path h0 where
  start: "node_run nc path h0 [] (NodeState_init path) h0"
| opens: "node_run nc path h0 fs st h \<Longrightarrow> f = O_RDONLY \<or> f = O_WRONLY \<or> f = O_RDWR \<Longrightarrow>
    length fs < 2 ^ 32 - 1 \<Longrightarrow> NodeState_open nc f st h = Some (r, st', h') \<Longrightarrow>
    node_run nc path h0 (if r = 0 then f # fs else fs) st' h'"
| closes: "node_run nc path h0 (fs @ f # gs) st h \<Longrightarrow> NodeState_close nc st h = (r, st', h') \<Longrightarrow>
    node_run nc path h0 (fs @ gs) st' h'"

text \<open>The invariant: the count is the number of opens, and one descriptor serves them all.\<close>

definition node_inv :: "('h \<Rightarrow> u32 \<Rightarrow> (string \<times> string) option) \<Rightarrow> string \<Rightarrow> 'h \<Rightarrow> u32 list \<Rightarrow> NodeState \<Rightarrow> 'h \<Rightarrow> bool" where
  "node_inv opened path h0 fs st h \<longleftrightarrow>
    length fs < 2 ^ 32 \<and> no_openCount st = of_nat (length fs) \<and> no_path st = path \<and>
    (if fs = [] then opened h = opened h0
     else opened h0 (no_fd st) = None \<and>
       (\<exists>m. opened h = (opened h0)(no_fd st \<mapsto> (path, m)) \<and> (\<forall>f \<in> set fs. mode_allows m f) \<and>
         mode_allows m (no_openFlags st) \<and> (no_openFlags st = O_RDWR \<longrightarrow> m = ''r+'')))"

lemma node_invI:
  assumes "fs \<noteq> []" "length fs < 2 ^ 32" "no_openCount st = of_nat (length fs)" "no_path st = path"
    "opened h0 (no_fd st) = None" "opened h = (opened h0)(no_fd st \<mapsto> (path, m))"
    "\<And>f. f \<in> set fs \<Longrightarrow> mode_allows m f" "mode_allows m (no_openFlags st)"
    "no_openFlags st = O_RDWR \<Longrightarrow> m = ''r+''"
  shows "node_inv opened path h0 fs st h"
  unfolding node_inv_def if_not_P [OF assms(1)] using assms(2-) by (intro conjI exI [of _ m]) simp_all

lemma node_invE:
  assumes "node_inv opened path h0 fs st h" "fs \<noteq> []"
  obtains m where "opened h0 (no_fd st) = None" "opened h = (opened h0)(no_fd st \<mapsto> (path, m))"
    "\<forall>f \<in> set fs. mode_allows m f" "mode_allows m (no_openFlags st)" "no_openFlags st = O_RDWR \<longrightarrow> m = ''r+''"
  using assms(1) unfolding node_inv_def if_not_P [OF assms(2)] by blast

lemma of_nat_zero_u32: "n < 2 ^ 32 \<Longrightarrow> of_nat n = (0 :: u32) \<longleftrightarrow> n = 0"
  by (simp add: word_unat_eq_iff unat_of_nat)

lemma node_open_step:
  assumes host: "node_opens opened nc" and inv: "node_inv opened path h0 fs st h"
    and f: "f = O_RDONLY \<or> f = O_WRONLY \<or> f = O_RDWR" "length fs < 2 ^ 32 - 1"
    and run: "NodeState_open nc f st h = Some (r, st', h')"
  shows "node_inv opened path h0 (if r = 0 then f # fs else fs) st' h'"
proof -
  have count: "no_openCount st = of_nat (length fs)" "no_path st = path"
    and zero: "of_nat (length fs) = (0 :: u32) \<longleftrightarrow> fs = []"
    using inv f(2) by (auto simp: node_inv_def word_unat_eq_iff unat_of_nat)
  have open_law: "if sint x < 0 then opened k = opened h else opened h x = None \<and> opened k = (opened h)(x \<mapsto> (path, m))"
    if "nc_open nc path m h = (x, k)" for m x k
    using host that unfolding node_opens_def by (metis (mono_tags, lifting) prod.case)
  have close_law: "opened k = (opened g)(d := None)" if "nc_close nc d g = (x, k)" for d g x k
    using host that unfolding node_opens_def by (metis snd_conv)
  have neg: "r \<noteq> 0" if "sint r < 0" for r :: u32
    using that by auto
  consider (fresh) "fs = []" | (widen) "fs \<noteq> []" "no_openFlags st = O_RDONLY \<and> (f = O_WRONLY \<or> f = O_RDWR) \<or>
      no_openFlags st = O_WRONLY \<and> (f = O_RDONLY \<or> f = O_RDWR)"
    | (reuse) "fs \<noteq> []" "\<not> (no_openFlags st = O_RDONLY \<and> (f = O_WRONLY \<or> f = O_RDWR) \<or>
      no_openFlags st = O_WRONLY \<and> (f = O_RDONLY \<or> f = O_RDWR))"
    by blast
  then show ?thesis
  proof cases
    case fresh
    obtain m where m: "node_mode f = Some m" "mode_allows m f" "f = O_RDWR \<longrightarrow> m = ''r+''"
      using f(1) by (auto simp: node_mode_def mode_allows_def)
    obtain x k where x: "nc_open nc path m h = (x, k)" by (rule prod.exhaust)
    show ?thesis
      using run fresh inv m x open_law [OF x] count neg [of x]
      by (auto simp: NodeState_open_def NodeState_update_def node_inv_def split: if_splits)
  next
    case widen
    obtain x k where x: "nc_open nc path ''r+'' h = (x, k)" by (rule prod.exhaust)
    obtain y l where y: "nc_close nc (no_fd st) k = (y, l)" by (rule prod.exhaust)
    note cond = NodeState_open_def count zero widen x y Let_def
    show ?thesis
    proof (cases "sint x < 0")
      case True
      then have "r = x" "st' = st" "opened h' = opened h"
        using run open_law [OF x] by (auto simp: cond)
      then show ?thesis
        using inv neg [OF True] by (simp add: node_inv_def)
    next
      case False
      then have eq: "r = 0" "st' = NodeState_update x f st" "h' = l"
        using run by (auto simp: cond)
      obtain m where m: "opened h = (opened h0)(no_fd st \<mapsto> (path, m))" "opened h0 (no_fd st) = None"
        "\<forall>g \<in> set fs. mode_allows m g"
        using inv widen(1) by (auto simp: node_inv_def)
      have law: "opened h x = None" "opened k = (opened h)(x \<mapsto> (path, ''r+''))"
        using open_law [OF x] False by simp_all
      have "x \<noteq> no_fd st" "opened h0 x = None"
        using law(1) m(1) by (auto split: if_splits)
      then have "opened l = (opened h0)(x \<mapsto> (path, ''r+''))"
        using close_law [OF y] law(2) m(1,2) by (simp add: fun_upd_twist fun_upd_idem)
      moreover have "mode_allows ''r+'' g" if "g \<in> set fs" for g
        using m(3) that by (auto simp: mode_allows_def)
      ultimately show ?thesis
        using \<open>opened h0 x = None\<close> count f
        unfolding eq if_P [OF refl]
        by (intro node_invI [where m = "''r+''"]) (auto simp: NodeState_update_def mode_allows_def)
    qed
  next
    case reuse
    then have eq: "r = 0" "st' = st\<lparr>no_openCount := no_openCount st + 1\<rparr>" "h' = h"
      using run count zero by (auto simp: NodeState_open_def)
    obtain m where m: "opened h0 (no_fd st) = None" "opened h = (opened h0)(no_fd st \<mapsto> (path, m))"
      "\<forall>g \<in> set fs. mode_allows m g" "mode_allows m (no_openFlags st)" "no_openFlags st = O_RDWR \<longrightarrow> m = ''r+''"
      by (rule node_invE [OF inv reuse(1)])
    then have "mode_allows m f"
      using reuse(2) f(1) by (auto simp: mode_allows_def)
    then show ?thesis
      unfolding eq if_P [OF refl] using m count f(2) by (intro node_invI [where m = m]) auto
  qed
qed

lemma node_close_step:
  assumes host: "node_opens opened nc" and inv: "node_inv opened path h0 (fs @ f # gs) st h"
    and run: "NodeState_close nc st h = (r, st', h')"
  shows "node_inv opened path h0 (fs @ gs) st' h'"
proof -
  obtain m where m: "opened h0 (no_fd st) = None" "opened h = (opened h0)(no_fd st \<mapsto> (path, m))"
    "\<forall>g \<in> set fs \<union> set gs. mode_allows m g" "mode_allows m (no_openFlags st)"
    "no_openFlags st = O_RDWR \<longrightarrow> m = ''r+''"
    and st: "no_path st = path" "no_openCount st = of_nat (Suc (length (fs @ gs)))" "Suc (length (fs @ gs)) < 2 ^ 32"
    using inv by (auto simp: node_inv_def)
  have count: "no_openCount st - 1 = of_nat (length (fs @ gs))"
    by (simp add: st(2))
  have zero: "of_nat (length (fs @ gs)) = (0 :: u32) \<longleftrightarrow> fs @ gs = []"
    using st(3) of_nat_zero_u32 [of "length (fs @ gs)"] by simp
  show ?thesis
  proof (cases "fs @ gs = []")
    case True
    obtain x k where x: "nc_close nc (no_fd st) h = (x, k)" by (rule prod.exhaust)
    have "opened k = (opened h)(no_fd st := None)"
      using host x unfolding node_opens_def by (metis snd_conv)
    then have "opened k = opened h0"
      using m(1,2) by (simp add: fun_upd_idem)
    moreover have "st' = NodeState_init path" "h' = k"
      using run count zero True st(1) x by (auto simp: NodeState_close_def Let_def)
    ultimately show ?thesis
      using True by (simp add: node_inv_def NodeState_init_def)
  next
    case False
    then have "st' = st\<lparr>no_openCount := no_openCount st - 1\<rparr>" "h' = h"
      using run count zero by (auto simp: NodeState_close_def Let_def)
    then show ?thesis
      using m st count False by (auto simp: node_inv_def)
  qed
qed

lemma node_run_inv:
  assumes "node_opens opened nc" "node_run nc path h0 fs st h"
  shows "node_inv opened path h0 fs st h"
  using assms(2)
proof induction
  case start
  then show ?case by (simp add: node_inv_def NodeState_init_def)
next
  case (opens fs st h f r st' h')
  show ?case by (rule node_open_step [OF assms(1) opens.IH opens.hyps(2-4)])
next
  case (closes fs f gs st h r st' h')
  show ?case by (rule node_close_step [OF assms(1) closes.IH closes.hyps(2)])
qed

text \<open>
  C32: However one Node file is opened and closed, it holds one Node descriptor while any open is
  outstanding, in a mode that allows every access asked for, and none when all opens are closed: the
  host is then as it was at the start, with no descriptor leaked or closed twice.
\<close>

theorem node_one_descriptor:
  assumes "node_opens opened nc" "node_run nc path h0 fs st h"
  shows "no_openCount st = of_nat (length fs) \<and> (fs = [] \<longrightarrow> opened h = opened h0) \<and>
    (fs \<noteq> [] \<longrightarrow> opened h0 (no_fd st) = None \<and>
      (\<exists>m. opened h = (opened h0)(no_fd st \<mapsto> (path, m)) \<and> (\<forall>f \<in> set fs. mode_allows m f)))"
proof -
  have inv: "node_inv opened path h0 fs st h"
    by (rule node_run_inv [OF assms])
  have count: "no_openCount st = of_nat (length fs)"
    using inv by (simp add: node_inv_def)
  show ?thesis
  proof (cases "fs = []")
    case True
    then show ?thesis using inv count by (simp add: node_inv_def)
  next
    case False
    show ?thesis
      by (rule node_invE [OF inv False]) (use count False in blast)
  qed
qed

text \<open>A host with a table of descriptors and the contents of files, for the witnesses.\<close>

type_synonym table_host = "(u32 \<times> (string \<times> string)) list"

definition table_free :: "table_host \<Rightarrow> u32" where
  "table_free h = (if map_of h 3 = None then 3 else if map_of h 4 = None then 4 else - 1)"

definition table_calls :: "table_host node_calls" where
  "table_calls = \<lparr>nc_open = \<lambda>path m h. (table_free h, if table_free h = - 1 then h else (table_free h, path, m) # h),
     nc_close = \<lambda>fd h. (0, filter (\<lambda>(k, _). k \<noteq> fd) h),
     nc_stat_size = \<lambda>_ h. ((0, 0), h), nc_fstat_size = \<lambda>_ h. ((0, 0), h),
     nc_read = \<lambda>_ _ _ h. ((0, []), h), nc_write = \<lambda>_ data _ h. ((0, of_nat (length data)), h),
     nc_get_mode = \<lambda>_ h. ((44, 0), h), nc_unlink = \<lambda>_ h. (0, h), nc_rmdir = \<lambda>_ h. (0, h),
     nc_insert_file = \<lambda>_ _ h. (0, h), nc_insert_directory = \<lambda>_ _ h. (0, h),
     nc_readdir = \<lambda>_ h. ((0, []), h)\<rparr>"

lemma table_opens: "node_opens map_of table_calls"
proof -
  have "map_of (filter (\<lambda>(k, _). k \<noteq> fd) h) = (map_of h)(fd := None)" for fd :: u32 and h :: table_host
    by (induction h) (auto simp: fun_eq_iff)
  then show ?thesis
    by (simp add: node_opens_def table_calls_def table_free_def)
qed

lemma node_one_descriptor_witness:
  "\<exists>st h. node_run table_calls ''f'' [] [O_RDWR, O_RDONLY] st h \<and> no_openCount st = 2 \<and>
     (\<exists>m. map_of h = [no_fd st \<mapsto> (''f'', m)] \<and> mode_allows m O_RDWR)"
proof -
  let ?a = "NodeState_update 3 O_RDONLY (NodeState_init ''f'')"
  let ?b = "NodeState_update 4 O_RDWR ?a"
  have 1: "NodeState_open table_calls O_RDONLY (NodeState_init ''f'') [] = Some (0, ?a, [(3, ''f'', ''r'')])"
    by (simp add: NodeState_open_def NodeState_init_def node_mode_def table_calls_def table_free_def)
  have 2: "NodeState_open table_calls O_RDWR ?a [(3, ''f'', ''r'')] = Some (0, ?b, [(4, ''f'', ''r+'')])"
    by (simp add: NodeState_open_def NodeState_update_def NodeState_init_def table_calls_def table_free_def)
  have "node_run table_calls ''f'' [] [O_RDONLY] ?a [(3, ''f'', ''r'')]"
    using node_run.opens [OF node_run.start _ _ 1] by simp
  then have run: "node_run table_calls ''f'' [] [O_RDWR, O_RDONLY] ?b [(4, ''f'', ''r+'')]"
    using node_run.opens [OF _ _ _ 2] by fastforce
  then show ?thesis
    using node_one_descriptor [OF table_opens run]
    by (intro exI [of _ ?b] exI [of _ "[(4, ''f'', ''r+'')]"]) auto
qed

end
