(* ===== verification/IgnoreCase.thy ===== *)
theory IgnoreCase
  imports NodeBackend
begin

text \<open>
  The case-insensitive backend (ignore_case_backend.cpp) and the virtual files it is made of
  (virtual.h). A virtual file wraps a real file of the memory backend; a virtual directory keeps a
  map from lower-case names to the names it was given and the virtual children.
\<close>

section \<open>Names\<close>

text \<open>\<open>std::tolower\<close> in the C locale, on a character as an \<open>unsigned char\<close>.\<close>

definition tolower :: "char \<Rightarrow> char" where
  "tolower c = (let k = of_char c :: nat in if 65 \<le> k \<and> k \<le> 90 then char_of (k + 32) else c)"

definition normalize :: "string \<Rightarrow> string" where
  "normalize name = map tolower name"

lemma tolower_idem [simp]: "tolower (tolower c) = tolower c"
  by (auto simp: tolower_def Let_def)

lemma normalize_idem [simp]: "normalize (normalize name) = normalize name"
  by (simp add: normalize_def)

lemma length_normalize [simp]: "length (normalize name) = length name"
  by (simp add: normalize_def)

section \<open>Virtual files\<close>

text \<open>
  The parent of a virtual file is a virtual directory, or, for a mounted root, a directory outside.
\<close>

type_synonym vid = nat

datatype vref = Outer fid | Virt vid

record vobj =
  v_kind :: FileKind
  v_mode :: u32
  v_atime :: double
  v_mtime :: double
  v_ctime :: double
  v_parent :: "vref option"
  v_real :: fid
  v_children :: "(string \<times> (string \<times> vid)) list"

record icfs =
  ic_fs :: fs
  ic_heap :: "vid \<Rightarrow> vobj"
  ic_next :: vid

text \<open>\<open>children[k] = v\<close> on a \<open>std::map\<close>.\<close>

definition omap_set :: "'k::linorder \<Rightarrow> 'v \<Rightarrow> ('k \<times> 'v) list \<Rightarrow> ('k \<times> 'v) list" where
  "omap_set k v ps = omap_insert k v (omap_erase k ps)"

lemma map_of_omap_set: "sorted_wrt (<) (map fst ps) \<Longrightarrow> map_of (omap_set k v ps) = (map_of ps)(k \<mapsto> v)"
  by (auto simp: omap_set_def map_of_omap_insert sorted_omap_erase set_omap_erase map_of_omap_erase)

lemma sorted_omap_set: "sorted_wrt (<) (map fst ps) \<Longrightarrow> sorted_wrt (<) (map fst (omap_set k v ps))"
  by (simp add: omap_set_def sorted_omap_insert sorted_omap_erase)

text \<open>A new virtual file on a real file; the constructor of \<open>File\<close> reads the clock.\<close>

definition virtualize :: "fid \<Rightarrow> icfs \<Rightarrow> vid \<times> icfs" where
  "virtualize rf s =
    (let (t, x) = date_now (ic_fs s);
         c = ic_next s;
         m = (if is_link x rf then S_IFLNK else mode_of x rf) in
     (c, s\<lparr>ic_fs := x, ic_next := Suc c,
           ic_heap := (ic_heap s)(c := \<lparr>v_kind = kind x rf, v_mode = m, v_atime = t, v_mtime = t,
             v_ctime = t, v_parent = None, v_real = rf, v_children = []\<rparr>)\<rparr>))"

definition devirtualize :: "icfs \<Rightarrow> vid \<Rightarrow> fid" where
  "devirtualize s c = v_real (ic_heap s c)"

definition upd_vobj :: "vid \<Rightarrow> (vobj \<Rightarrow> vobj) \<Rightarrow> icfs \<Rightarrow> icfs" where
  "upd_vobj d g s = s\<lparr>ic_heap := (ic_heap s)(d := g (ic_heap s d))\<rparr>"

definition put_child :: "vid \<Rightarrow> string \<Rightarrow> string \<Rightarrow> vid \<Rightarrow> icfs \<Rightarrow> icfs" where
  "put_child d k name c = upd_vobj d (v_children_update (omap_set k (name, c)))"

text \<open>The forwarding methods of a virtual data file.\<close>

definition vdata_lift :: "(fid \<Rightarrow> fs \<Rightarrow> (u32 \<times> fs) option) \<Rightarrow> vid \<Rightarrow> icfs \<Rightarrow> (u32 \<times> icfs) option" where
  "vdata_lift op c s = map_option (\<lambda>(r, x). (r, s\<lparr>ic_fs := x\<rparr>)) (op (devirtualize s c) (ic_fs s))"

definition vdata_getSize :: "vid \<Rightarrow> icfs \<Rightarrow> u64" where
  "vdata_getSize c s = getSize (devirtualize s c) (ic_fs s)"

definition vdata_read :: "vid \<Rightarrow> u32 \<Rightarrow> u32 \<Rightarrow> u64 \<Rightarrow> icfs \<Rightarrow> (u32 \<times> icfs) option" where
  "vdata_read c buf len offset = vdata_lift (\<lambda>f. df_read f buf len offset) c"

definition vdata_write :: "vid \<Rightarrow> byte list \<Rightarrow> u64 \<Rightarrow> icfs \<Rightarrow> (u32 \<times> icfs) option" where
  "vdata_write c data offset = vdata_lift (\<lambda>f. df_write f data offset) c"

definition vdata_setSize :: "vid \<Rightarrow> u64 \<Rightarrow> icfs \<Rightarrow> (u32 \<times> icfs) option" where
  "vdata_setSize c sz = vdata_lift (\<lambda>f. df_setSize f sz) c"

definition vdata_flush :: "vid \<Rightarrow> icfs \<Rightarrow> (u32 \<times> icfs) option" where
  "vdata_flush = vdata_lift (\<lambda>f s. Some (df_flush f s))"

definition vdata_open :: "vid \<Rightarrow> u32 \<Rightarrow> icfs \<Rightarrow> u32" where
  "vdata_open c flags s = df_open (node_of (ic_fs s) (devirtualize s c)) flags"

definition vdata_close :: "vid \<Rightarrow> icfs \<Rightarrow> u32" where
  "vdata_close c s = df_close (node_of (ic_fs s) (devirtualize s c))"

definition vlink_getTarget :: "vid \<Rightarrow> icfs \<Rightarrow> string" where
  "vlink_getTarget c s = (case node_of (ic_fs s) (devirtualize s c) of MemorySymlink tgt \<Rightarrow> tgt | _ \<Rightarrow> [])"

section \<open>Directories\<close>

definition ic_getChild :: "vid \<Rightarrow> string \<Rightarrow> icfs \<Rightarrow> vid option \<times> icfs" where
  "ic_getChild d name s =
    (let normalized = normalize name in
     (case map_of (v_children (ic_heap s d)) normalized of
        Some (_, c) \<Rightarrow> (Some c, s)
      | None \<Rightarrow>
          (case getChild (devirtualize s d) normalized (ic_fs s) of
             (None, x) \<Rightarrow> (None, s\<lparr>ic_fs := x\<rparr>)
           | (Some f, x) \<Rightarrow>
               let (c, s) = virtualize f (s\<lparr>ic_fs := x\<rparr>) in
               (Some c, put_child d normalized name c s))))"

text \<open>What the three insertions share: the result of the insertion into the real directory.\<close>

definition ic_inserted :: "vid \<Rightarrow> string \<Rightarrow> fid option \<times> fs \<Rightarrow> icfs \<Rightarrow> vid option \<times> icfs" where
  "ic_inserted d name made s =
    (case made of
       (None, x) \<Rightarrow> (None, s\<lparr>ic_fs := x\<rparr>)
     | (Some f, x) \<Rightarrow>
         let (c, s) = virtualize f (s\<lparr>ic_fs := x\<rparr>) in
         (Some c, put_child d (normalize name) name c s))"

definition ic_insertDataFile :: "vid \<Rightarrow> string \<Rightarrow> u32 \<Rightarrow> icfs \<Rightarrow> vid option \<times> icfs" where
  "ic_insertDataFile d name mode s =
    ic_inserted d name (insertDataFile (devirtualize s d) (normalize name) mode (ic_fs s)) s"

definition ic_insertDirectory :: "vid \<Rightarrow> string \<Rightarrow> u32 \<Rightarrow> icfs \<Rightarrow> vid option \<times> icfs" where
  "ic_insertDirectory d name mode s =
    ic_inserted d name (insertDirectory (devirtualize s d) (normalize name) mode (ic_fs s)) s"

definition ic_insertSymlink :: "vid \<Rightarrow> string \<Rightarrow> string \<Rightarrow> icfs \<Rightarrow> vid option \<times> icfs" where
  "ic_insertSymlink d name tgt s =
    ic_inserted d name (insertSymlink (devirtualize s d) (normalize name) tgt (ic_fs s)) s"

text \<open>
  \<open>insertMove\<close>: the old parent of a moved file is dereferenced. The entry there is the first whose
  child is the file.
\<close>

definition ic_insertMove :: "vid \<Rightarrow> string \<Rightarrow> vid \<Rightarrow> icfs \<Rightarrow> ((errno + unit) \<times> icfs) option" where
  "ic_insertMove d name moved s =
    (let normalized = normalize name in
     (case insertMove (devirtualize s d) normalized (devirtualize s moved) (ic_fs s) of
        None \<Rightarrow> None
      | Some (Inl e, x) \<Rightarrow> Some (Inl e, s\<lparr>ic_fs := x\<rparr>)
      | Some (Inr _, x) \<Rightarrow>
          (case v_parent (ic_heap s moved) of
             None \<Rightarrow> None
           | Some (Outer _) \<Rightarrow> None
           | Some (Virt oldParent) \<Rightarrow>
               let s = upd_vobj oldParent
                     (v_children_update (erase_first (\<lambda>p. snd (snd p) = moved))) (s\<lparr>ic_fs := x\<rparr>);
                   s = (case map_of (v_children (ic_heap s d)) normalized of
                          None \<Rightarrow> s
                        | Some (_, old) \<Rightarrow> upd_vobj old (v_parent_update (\<lambda>_. None)) s) in
               Some (Inr (), put_child d normalized name moved s))))"

text \<open>\<open>removeChild\<close>: the child has been looked up, so it is in the map; else it is undefined.\<close>

definition ic_removeChild :: "vid \<Rightarrow> string \<Rightarrow> icfs \<Rightarrow> ((errno + unit) \<times> icfs) option" where
  "ic_removeChild d name s =
    (let normalized = normalize name in
     (case removeChild (devirtualize s d) normalized (ic_fs s) of
        (Inl e, x) \<Rightarrow> Some (Inl e, s\<lparr>ic_fs := x\<rparr>)
      | (Inr _, x) \<Rightarrow>
          (case map_of (v_children (ic_heap s d)) normalized of
             None \<Rightarrow> None
           | Some (_, c) \<Rightarrow>
               let s = upd_vobj c (v_parent_update (\<lambda>_. None)) (s\<lparr>ic_fs := x\<rparr>) in
               Some (Inr (), upd_vobj d (v_children_update (omap_erase normalized)) s))))"

definition ic_getNumEntries :: "vid \<Rightarrow> icfs \<Rightarrow> nat" where
  "ic_getNumEntries d s = getNumEntries (devirtualize s d) (ic_fs s)"

definition ic_getEntries :: "vid \<Rightarrow> icfs \<Rightarrow> dirent list" where
  "ic_getEntries d s =
    map (\<lambda>e. case map_of (v_children (ic_heap s d)) (de_name e) of
           None \<Rightarrow> e | Some (originalName, _) \<Rightarrow> e\<lparr>de_name := originalName\<rparr>)
      (getEntries (devirtualize s d) (ic_fs s))"

definition ic_getName :: "vid \<Rightarrow> vid \<Rightarrow> icfs \<Rightarrow> string" where
  "ic_getName d c s =
    (case find (\<lambda>p. snd (snd p) = c) (v_children (ic_heap s d)) of None \<Rightarrow> [] | Some p \<Rightarrow> fst (snd p))"

section \<open>The handle of a virtual directory\<close>

text \<open>
  \<open>Directory::Handle\<close> on a virtual directory. It tracks the identity of its files itself, so the
  directory cache holds mounts only; here nothing is mounted below a virtual directory.
\<close>

definition v_setParent :: "vid \<Rightarrow> vref option \<Rightarrow> icfs \<Rightarrow> icfs" where
  "v_setParent c p = upd_vobj c (v_parent_update (\<lambda>_. p))"

definition v_updateMTime :: "vid \<Rightarrow> icfs \<Rightarrow> icfs" where
  "v_updateMTime d s =
    (let (t, x) = date_now (ic_fs s) in upd_vobj d (v_mtime_update (\<lambda>_. t)) (s\<lparr>ic_fs := x\<rparr>))"

definition vh_getChild :: "vid \<Rightarrow> string \<Rightarrow> icfs \<Rightarrow> vref option \<times> icfs" where
  "vh_getChild d name s =
    (case v_parent (ic_heap s d) of
       None \<Rightarrow> (None, s)
     | Some p \<Rightarrow>
         if name = ''.'' then (Some (Virt d), s)
         else if name = ''..'' then (Some p, s)
         else (case ic_getChild d name s of
                 (None, s) \<Rightarrow> (None, s)
               | (Some c, s) \<Rightarrow> (Some (Virt c), v_setParent c (Some (Virt d)) s)))"

text \<open>What the three insertions share.\<close>

definition vh_inserted :: "vid \<Rightarrow> (icfs \<Rightarrow> vid option \<times> icfs) \<Rightarrow> icfs \<Rightarrow> vid option \<times> icfs" where
  "vh_inserted d insert_in s =
    (case v_parent (ic_heap s d) of
       None \<Rightarrow> (None, s)
     | Some _ \<Rightarrow>
         (case insert_in s of
            (None, s) \<Rightarrow> (None, s)
          | (Some c, s) \<Rightarrow> (Some c, v_updateMTime d (v_setParent c (Some (Virt d)) s))))"

definition vh_insertDataFile :: "vid \<Rightarrow> string \<Rightarrow> u32 \<Rightarrow> icfs \<Rightarrow> vid option \<times> icfs" where
  "vh_insertDataFile d name mode = vh_inserted d (ic_insertDataFile d name mode)"

definition vh_insertDirectory :: "vid \<Rightarrow> string \<Rightarrow> u32 \<Rightarrow> icfs \<Rightarrow> vid option \<times> icfs" where
  "vh_insertDirectory d name mode = vh_inserted d (ic_insertDirectory d name mode)"

definition vh_insertSymlink :: "vid \<Rightarrow> string \<Rightarrow> string \<Rightarrow> icfs \<Rightarrow> vid option \<times> icfs" where
  "vh_insertSymlink d name tgt = vh_inserted d (ic_insertSymlink d name tgt)"

text \<open>The old parent's cache is dereferenced before the move, then the parents are updated.\<close>

definition vh_insertMove :: "vid \<Rightarrow> string \<Rightarrow> vid \<Rightarrow> icfs \<Rightarrow> ((errno + unit) \<times> icfs) option" where
  "vh_insertMove d name moved s =
    (case v_parent (ic_heap s d) of
       None \<Rightarrow> Some (Inl EPERM, s)
     | Some _ \<Rightarrow>
         (case v_parent (ic_heap s moved) of
            Some (Virt oldParent) \<Rightarrow>
              (case ic_insertMove d name moved s of
                 None \<Rightarrow> None
               | Some (Inl e, s) \<Rightarrow> Some (Inl e, s)
               | Some (Inr _, s) \<Rightarrow>
                   Some (Inr (), v_updateMTime d (v_updateMTime oldParent
                     (v_setParent moved (Some (Virt d)) s))))
          | _ \<Rightarrow> None))"

definition vh_removeChild :: "vid \<Rightarrow> string \<Rightarrow> icfs \<Rightarrow> ((errno + unit) \<times> icfs) option" where
  "vh_removeChild d name s =
    (case ic_removeChild d name s of
       None \<Rightarrow> None
     | Some (Inl e, s) \<Rightarrow> Some (Inl e, s)
     | Some (Inr _, s) \<Rightarrow> Some (Inr (), v_updateMTime d s))"

section \<open>The backend\<close>

definition ic_createFile :: "u32 \<Rightarrow> backend_t option \<Rightarrow> icfs \<Rightarrow> vid \<times> icfs" where
  "ic_createFile mode backend s =
    (let (rf, x) = createFile mode backend (ic_fs s) in virtualize rf (s\<lparr>ic_fs := x\<rparr>))"

text \<open>A real directory is its own parent, so that it appears linked.\<close>

definition ic_createDirectory :: "u32 \<Rightarrow> backend_t option \<Rightarrow> icfs \<Rightarrow> vid \<times> icfs" where
  "ic_createDirectory mode backend s =
    (let (rf, x) = createDirectory mode backend (ic_fs s) in
     virtualize rf (s\<lparr>ic_fs := setParent rf (Some rf) x\<rparr>))"

definition ic_createSymlink :: "string \<Rightarrow> backend_t option \<Rightarrow> icfs \<Rightarrow> vid \<times> icfs" where
  "ic_createSymlink tgt backend s =
    (let (rf, x) = createSymlink tgt backend (ic_fs s) in virtualize rf (s\<lparr>ic_fs := x\<rparr>))"

end
