(* ===== verification/Icase_Laws.thy ===== *)
theory Icase_Laws
  imports IgnoreCase
begin

text \<open>
  What the case-insensitive backend promises: names that differ only in case are one child, with
  one identity, found exactly when the real directory has the lower-case name; a new file keeps the
  name it was given; a removed one is gone under every spelling.
\<close>

section \<open>The invariant of a virtual directory\<close>

text \<open>
  The real directory below has distinct names and children that point back to it; the map of the
  virtual directory is ordered, its keys are lower-case, and each of its children wraps the real
  child of that name.
\<close>

definition plain_name :: "string \<Rightarrow> bool" where
  "plain_name name \<longleftrightarrow> name \<noteq> ''.'' \<and> name \<noteq> ''..''"

definition rdir :: "fs \<Rightarrow> fid \<Rightarrow> bool" where
  "rdir x r \<longleftrightarrow> is_dir x r \<and> r < fs_next x \<and> parent_of x r \<noteq> None \<and> dcache x r = [] \<and>
     good_entries (entries x r) \<and>
     (\<forall>(n, c) \<in> set (entries x r). plain_name n \<and> c < fs_next x \<and> c \<noteq> r \<and> parent_of x c = Some r)"

definition wraps :: "icfs \<Rightarrow> vid \<Rightarrow> string \<times> string \<times> vid \<Rightarrow> bool" where
  "wraps s d = (\<lambda>(k, n, c). normalize n = k \<and> c < ic_next s \<and> c \<noteq> d \<and>
     v_parent (ic_heap s c) = Some (Virt d) \<and>
     (k, v_real (ic_heap s c)) \<in> set (entries (ic_fs s) (v_real (ic_heap s d))))"

definition vdir :: "icfs \<Rightarrow> vid \<Rightarrow> bool" where
  "vdir s d \<longleftrightarrow> d < ic_next s \<and> v_parent (ic_heap s d) \<noteq> None \<and>
     rdir (ic_fs s) (v_real (ic_heap s d)) \<and>
     sorted_wrt (<) (map fst (v_children (ic_heap s d))) \<and>
     distinct (map (snd \<circ> snd) (v_children (ic_heap s d))) \<and>
     (\<forall>e \<in> set (v_children (ic_heap s d)). wraps s d e)"

lemma normalize_plain [simp]: "plain_name (normalize name) \<longleftrightarrow> plain_name name"
proof -
  have *: "tolower c = CHR ''.'' \<longleftrightarrow> c = CHR ''.''" for c
  proof
    assume "tolower c = CHR ''.''"
    then have "of_char (tolower c) = (46 :: nat)" by simp
    then have "of_char c = (46 :: nat)"
      by (auto simp: tolower_def Let_def split: if_splits)
    then have "of_char c = (of_char (CHR ''.'') :: nat)" by simp
    then show "c = CHR ''.''" by (simp only: of_char_eq_iff)
  qed (simp add: tolower_def)
  show ?thesis
    by (auto simp: plain_name_def normalize_def * map_eq_Cons_conv)
qed

lemma plain_respelled: "normalize name' = normalize name \<Longrightarrow> plain_name name \<Longrightarrow> plain_name name'"
  by (metis normalize_plain)

lemma rdir_shape: "same_shape x y \<Longrightarrow> rdir y r = rdir x r"
  by (simp only: rdir_def same_shapeD)

lemma vdirD:
  assumes "vdir s d"
  shows "d < ic_next s" "v_parent (ic_heap s d) \<noteq> None" "rdir (ic_fs s) (v_real (ic_heap s d))"
    "sorted_wrt (<) (map fst (v_children (ic_heap s d)))"
    "distinct (map (snd \<circ> snd) (v_children (ic_heap s d)))"
    "e \<in> set (v_children (ic_heap s d)) \<Longrightarrow> wraps s d e"
  using assms by (simp_all add: vdir_def)

lemma getChild_rdir:
  assumes "rdir x r" "plain_name name"
  shows "getChild r name x = (child_of x r name, x)" "child_of x r name = map_of (entries x r) name"
proof -
  show m: "child_of x r name = map_of (entries x r) name"
    using assms by (auto simp: rdir_def child_of_def plain_name_def)
  have "cacheChild r name c DCNormal x = x" if "map_of (entries x r) name = Some c" for c
    using assms map_of_SomeD [OF that]
    by (auto simp: rdir_def cacheChild_def kind_of_dir_iff)
  then show "getChild r name x = (child_of x r name, x)"
    unfolding m using assms
    by (auto simp: getChild_def rdir_def plain_name_def memdir_getChild_def lookup_entry_map_of
        split: option.splits)
qed

text \<open>Two states that differ in clock readings and times only.\<close>

definition vsame :: "icfs \<Rightarrow> icfs \<Rightarrow> bool" where
  "vsame s t \<longleftrightarrow> same_shape (ic_fs s) (ic_fs t) \<and> ic_next t = ic_next s \<and>
     (\<forall>g. v_parent (ic_heap t g) = v_parent (ic_heap s g) \<and> v_real (ic_heap t g) = v_real (ic_heap s g) \<and>
          v_children (ic_heap t g) = v_children (ic_heap s g))"

lemma vdir_vsame: "vsame s t \<Longrightarrow> vdir t d = vdir s d"
  by (auto simp: vsame_def vdir_def wraps_def rdir_shape same_shapeD)

lemma date_now_shape: "date_now x = (t, y) \<Longrightarrow> same_shape x y"
  by (auto simp: date_now_def same_shape_def)

lemma v_updateMTime_same: "vsame s (v_updateMTime d s)"
  by (auto simp: vsame_def v_updateMTime_def upd_vobj_def split: prod.splits dest: date_now_shape)

section \<open>Adopting a real child\<close>

text \<open>The virtual file made for a real child, in the map and with its parent.\<close>

definition adopt :: "vid \<Rightarrow> string \<Rightarrow> fid \<Rightarrow> icfs \<Rightarrow> icfs" where
  "adopt d name f s =
    v_setParent (ic_next s) (Some (Virt d))
      (put_child d (normalize name) name (ic_next s) (snd (virtualize f s)))"

lemma fst_virtualize: "fst (virtualize f s) = ic_next s"
  by (simp add: virtualize_def Let_def split_beta)

lemma adopt_effect:
  assumes "d \<noteq> ic_next s"
  shows "ic_next (adopt d name f s) = Suc (ic_next s)"
    "same_shape (ic_fs s) (ic_fs (adopt d name f s))"
    "v_real (ic_heap (adopt d name f s) g) = (if g = ic_next s then f else v_real (ic_heap s g))"
    "v_parent (ic_heap (adopt d name f s) g) =
      (if g = ic_next s then Some (Virt d) else v_parent (ic_heap s g))"
    "v_children (ic_heap (adopt d name f s) g) =
      (if g = ic_next s then []
       else if g = d then omap_set (normalize name) (name, ic_next s) (v_children (ic_heap s d))
       else v_children (ic_heap s g))"
  using assms
  by (auto simp: adopt_def virtualize_def v_setParent_def put_child_def upd_vobj_def Let_def
      split: prod.splits dest: date_now_shape)

lemma omap_set_fresh:
  assumes "k \<notin> fst ` set ps"
  shows "omap_set k v ps = omap_insert k v ps" "set (omap_insert k v ps) = insert (k, v) (set ps)"
proof -
  have e: "omap_erase k ps = ps"
    using assms unfolding omap_erase_def by (intro filter_True) force
  show "omap_set k v ps = omap_insert k v ps"
    by (simp add: omap_set_def e)
  show "set (omap_insert k v ps) = insert (k, v) (set ps)"
    using assms by (induction ps) auto
qed

lemma distinct_omap_insert:
  assumes "k \<notin> fst ` set ps" "distinct (map g ps)" "g (k, v) \<notin> g ` set ps"
  shows "distinct (map g (omap_insert k v ps))"
  using assms by (induction ps) (auto simp: omap_set_fresh(2))

lemma wraps_frame:
  assumes "wraps s d e" "ic_next s \<le> ic_next t"
    and "\<And>g. g < ic_next s \<Longrightarrow> v_parent (ic_heap t g) = v_parent (ic_heap s g)"
    and "\<And>g. g < ic_next s \<Longrightarrow> v_real (ic_heap t g) = v_real (ic_heap s g)" "d < ic_next s"
    and "set (entries (ic_fs s) (v_real (ic_heap s d))) \<subseteq> set (entries (ic_fs t) (v_real (ic_heap s d)))"
  shows "wraps t d e"
  using assms by (auto simp: wraps_def split: prod.splits)

lemma vdir_adopt:
  assumes v: "vdir s d" and f: "(normalize name, f) \<in> set (entries (ic_fs s) (v_real (ic_heap s d)))"
    and new: "normalize name \<notin> fst ` set (v_children (ic_heap s d))"
  shows "vdir (adopt d name f s) d"
    "map_of (v_children (ic_heap (adopt d name f s) d)) =
      (map_of (v_children (ic_heap s d)))(normalize name \<mapsto> (name, ic_next s))"
proof -
  let ?t = "adopt d name f s" and ?k = "normalize name"
  note vd = vdirD [OF v]
  have d: "d \<noteq> ic_next s" using vd(1) by simp
  note eff = adopt_effect [OF d, of name f]
  note shape = same_shapeD [OF eff(2)]
  have cs: "v_children (ic_heap ?t d) = omap_insert ?k (name, ic_next s) (v_children (ic_heap s d))"
    using d by (simp add: eff omap_set_fresh(1) [OF new])
  have "ic_next s \<notin> (snd \<circ> snd) ` set (v_children (ic_heap s d))"
    using vd(6) by (force simp: wraps_def)
  then have "distinct (map (snd \<circ> snd) (v_children (ic_heap ?t d)))"
    unfolding cs by (intro distinct_omap_insert [OF new vd(5)]) simp
  moreover have "wraps ?t d (?k, name, ic_next s)"
    using f d by (simp add: wraps_def eff shape)
  moreover have "wraps ?t d e" if "e \<in> set (v_children (ic_heap s d))" for e
    by (rule wraps_frame [OF vd(6) [OF that] _ _ _ vd(1)]) (simp_all add: eff shape)
  moreover have "sorted_wrt (<) (map fst (v_children (ic_heap ?t d)))"
    unfolding cs by (rule sorted_omap_insert [OF vd(4)])
  moreover have "\<forall>e \<in> set (v_children (ic_heap ?t d)). wraps ?t d e"
    unfolding cs omap_set_fresh(2) [OF new] using calculation by blast
  moreover have "d < ic_next ?t" "v_parent (ic_heap ?t d) \<noteq> None"
      "rdir (ic_fs ?t) (v_real (ic_heap ?t d))"
    using vd(1-3) d rdir_shape [OF eff(2)] by (simp_all add: eff(1,3,4))
  ultimately show "vdir ?t d"
    unfolding vdir_def by (intro conjI)
  show "map_of (v_children (ic_heap ?t d)) = (map_of (v_children (ic_heap s d)))(?k \<mapsto> (name, ic_next s))"
    using d by (simp add: eff map_of_omap_set [OF vd(4)])
qed

section \<open>Looking up\<close>

text \<open>The two ways a lookup can find a child, and the one in which it finds none.\<close>

lemma v_setParent_id: "v_parent (ic_heap s c) = p \<Longrightarrow> v_setParent c p s = s"
  by (auto simp: v_setParent_def upd_vobj_def intro!: icfs.equality)

lemma vh_getChild_known:
  assumes v: "vdir s d" and name: "plain_name name"
    and m: "map_of (v_children (ic_heap s d)) (normalize name) = Some (n, c)"
  shows "vh_getChild d name s = (Some (Virt c), s)"
    "child_of (ic_fs s) (v_real (ic_heap s d)) (normalize name) = Some (v_real (ic_heap s c))"
proof -
  have w: "wraps s d (normalize name, n, c)"
    by (rule vdirD(6) [OF v map_of_SomeD [OF m]])
  have "distinct (map fst (entries (ic_fs s) (v_real (ic_heap s d))))"
    using vdirD(3) [OF v] by (simp add: rdir_def good_entries_def)
  then show "child_of (ic_fs s) (v_real (ic_heap s d)) (normalize name) = Some (v_real (ic_heap s c))"
    using w name by (simp add: getChild_rdir(2) [OF vdirD(3) [OF v]] wraps_def)
  show "vh_getChild d name s = (Some (Virt c), s)"
    using vdirD(2) [OF v] name w m
    by (auto simp: vh_getChild_def ic_getChild_def plain_name_def wraps_def v_setParent_id)
qed

lemma vh_getChild_fresh:
  assumes v: "vdir s d" and name: "plain_name name"
    and m: "map_of (v_children (ic_heap s d)) (normalize name) = None"
    and f: "child_of (ic_fs s) (v_real (ic_heap s d)) (normalize name) = Some f"
  shows "vh_getChild d name s = (Some (Virt (ic_next s)), adopt d name f s)"
    "vdir (adopt d name f s) d"
    "map_of (v_children (ic_heap (adopt d name f s) d)) (normalize name) = Some (name, ic_next s)"
proof -
  note real = getChild_rdir [OF vdirD(3) [OF v], of "normalize name"]
  have e: "map_of (entries (ic_fs s) (v_real (ic_heap s d))) (normalize name) = Some f"
    using real(2) name f by simp
  have "getChild (v_real (ic_heap s d)) (normalize name) (ic_fs s) = (Some f, ic_fs s)"
    using real(1) name f by simp
  then show "vh_getChild d name s = (Some (Virt (ic_next s)), adopt d name f s)"
    using vdirD(2) [OF v] name m
    by (auto simp: vh_getChild_def ic_getChild_def plain_name_def devirtualize_def adopt_def
        split_beta Let_def fst_virtualize)
  have k: "normalize name \<notin> fst ` set (v_children (ic_heap s d))"
    using m by (simp add: map_of_eq_None_iff)
  show "vdir (adopt d name f s) d"
    "map_of (v_children (ic_heap (adopt d name f s) d)) (normalize name) = Some (name, ic_next s)"
    using vdir_adopt [OF v map_of_SomeD [OF e] k] by simp_all
qed

lemma vh_getChild_none:
  assumes v: "vdir s d" and name: "plain_name name"
    and f: "child_of (ic_fs s) (v_real (ic_heap s d)) (normalize name) = None"
  shows "vh_getChild d name s = (None, s)"
proof -
  note real = getChild_rdir [OF vdirD(3) [OF v], of "normalize name"]
  have "map_of (v_children (ic_heap s d)) (normalize name) = None"
    using vh_getChild_known(2) [OF v name] f
    by (cases "map_of (v_children (ic_heap s d)) (normalize name)") auto
  moreover have "getChild (v_real (ic_heap s d)) (normalize name) (ic_fs s) = (None, ic_fs s)"
    using real(1) name f by simp
  ultimately show ?thesis
    using vdirD(2) [OF v] name
    by (auto simp: vh_getChild_def ic_getChild_def plain_name_def devirtualize_def)
qed

lemma vh_getChild_respelled:
  assumes "vdir s d" "plain_name name" "normalize name' = normalize name"
    and m: "map_of (v_children (ic_heap s d)) (normalize name) = Some (n, c)"
  shows "vh_getChild d name' s = (Some (Virt c), s)"
  by (rule vh_getChild_known(1) [OF assms(1) plain_respelled [OF assms(3,2)]]) (simp only: assms(3) m)

definition icase_lookup_spec :: "icfs \<Rightarrow> vid \<Rightarrow> string \<Rightarrow> bool" where
  "icase_lookup_spec s d name =
    (let (r, t) = vh_getChild d name s in
     vdir t d \<and> same_shape (ic_fs s) (ic_fs t) \<and>
     (case child_of (ic_fs s) (v_real (ic_heap s d)) (normalize name) of
        None \<Rightarrow> r = None
      | Some f \<Rightarrow> \<exists>c. r = Some (Virt c) \<and> devirtualize t c = f) \<and>
     (\<forall>name'. normalize name' = normalize name \<longrightarrow> vh_getChild d name' t = (r, t)))"

text \<open>
  C33: a lookup in a case-insensitive directory finds exactly what the real directory has under the
  lower-case name; it changes no file; and every other spelling of the name then finds the very
  same virtual file.
\<close>

theorem icase_lookup:
  assumes v: "vdir s d" and name: "name \<noteq> ''.''" "name \<noteq> ''..''"
  shows "icase_lookup_spec s d name"
proof (cases "child_of (ic_fs s) (v_real (ic_heap s d)) (normalize name)")
  case None
  have p: "plain_name name" using name by (simp add: plain_name_def)
  have "vh_getChild d name' s = (None, s)" if "normalize name' = normalize name" for name'
    by (rule vh_getChild_none [OF v plain_respelled [OF that p]]) (simp only: that None)
  then show ?thesis
    using v None by (simp add: icase_lookup_spec_def)
next
  case (Some f)
  have p: "plain_name name" using name by (simp add: plain_name_def)
  show ?thesis
  proof (cases "map_of (v_children (ic_heap s d)) (normalize name)")
    case None
    note fresh = vh_getChild_fresh [OF v p None Some]
    have d: "d \<noteq> ic_next s" using vdirD(1) [OF v] by simp
    show ?thesis
      using fresh Some vh_getChild_respelled [OF fresh(2) p _ fresh(3)]
      by (simp add: icase_lookup_spec_def devirtualize_def adopt_effect [OF d])
  next
    case (Some e)
    then obtain n c where m: "map_of (v_children (ic_heap s d)) (normalize name) = Some (n, c)"
      by (cases e) auto
    show ?thesis
      using v vh_getChild_known [OF v p m] vh_getChild_respelled [OF v p _ m]
      by (simp add: icase_lookup_spec_def devirtualize_def)
  qed
qed

section \<open>Inserting\<close>

text \<open>The new child of a real directory; its entry comes last.\<close>

lemma rdir_insert_new:
  fixes m :: u32
  assumes r: "rdir x r" and name: "plain_name k" "child_of x r k = None"
    and n: "entries_of_node n = []" "dcache_of_node n = []"
  defines "y \<equiv> insert_new r k n m x"
  shows "rdir y r" "entries y r = entries x r @ [(k, fs_next x)]"
proof -
  obtain c u where u: "new_file n m (backend_of x r) True x = (c, u)"
    by (rule prod.exhaust)
  note eff = new_file_effect [OF u]
  have d: "r \<noteq> fs_next x" using r by (simp add: rdir_def)
  have y: "y = updateMTime r (setParent c (Some r) (set_entries r (push_entry k c (entries u r)) u))"
    using r d by (simp add: y_def insert_new_def u cacheChild_def memdir_insertChild_def eff rdir_def)
  have k: "k \<notin> fst ` set (entries x r)"
    using name(2) by (simp add: getChild_rdir(2) [OF r name(1)] map_of_eq_None_iff)
  have dir: "is_dir u r" using r d by (simp add: eff rdir_def)
  show e: "entries y r = entries x r @ [(k, fs_next x)]"
    using d dir by (simp add: y eff push_entry_def)
  have "fs_next x \<notin> snd ` set (entries x r)"
    using r by (force simp: rdir_def)
  then have "good_entries (entries y r)"
    using r k by (simp add: e good_entries_def rdir_def)
  moreover have "fs_next y = Suc (fs_next x)" "is_dir y r" "dcache y r = []"
      "parent_of y g = (if g = fs_next x then Some r else parent_of x g)" for g
    using r d dir by (simp_all add: y eff rdir_def)
  ultimately show "rdir y r"
    using r d name(1) by (auto simp: rdir_def e)
qed

text \<open>The state after the real insertion, before the child is adopted.\<close>

lemma vdir_insert_new:
  assumes v: "vdir s d" and name: "plain_name k"
    "child_of (ic_fs s) (v_real (ic_heap s d)) k = None"
    and n: "entries_of_node n = []" "dcache_of_node n = []"
  shows "vdir (s\<lparr>ic_fs := insert_new (v_real (ic_heap s d)) k n m (ic_fs s)\<rparr>) d"
    "k \<notin> fst ` set (v_children (ic_heap s d))"
proof -
  note vd = vdirD [OF v] and new = rdir_insert_new [OF vdirD(3) [OF v] name n, of m]
  show k: "k \<notin> fst ` set (v_children (ic_heap s d))"
    using vd(6) name(2) vd(3) unfolding getChild_rdir(2) [OF vd(3) name(1)] map_of_eq_None_iff
    by (force simp: wraps_def)
  have "wraps (s\<lparr>ic_fs := insert_new (v_real (ic_heap s d)) k n m (ic_fs s)\<rparr>) d e"
    if "e \<in> set (v_children (ic_heap s d))" for e
    by (rule wraps_frame [OF vd(6) [OF that] _ _ _ vd(1)]) (use new(2) in auto)
  then show "vdir (s\<lparr>ic_fs := insert_new (v_real (ic_heap s d)) k n m (ic_fs s)\<rparr>) d"
    using vd(1-5) new(1) by (simp add: vdir_def)
qed

definition icase_insert_spec :: "icfs \<Rightarrow> vid \<Rightarrow> string \<Rightarrow> vid option \<times> icfs \<Rightarrow> bool" where
  "icase_insert_spec s d name res =
    (case res of
       (None, t) \<Rightarrow> False
     | (Some c, t) \<Rightarrow>
         vdir t d \<and> ic_getName d c t = name \<and>
         (\<forall>name'. normalize name' = normalize name \<longrightarrow> vh_getChild d name' t = (Some (Virt c), t)) \<and>
         map de_name (ic_getEntries d t) = map de_name (ic_getEntries d s) @ [name] \<and>
         ic_getNumEntries d t = Suc (ic_getNumEntries d s))"

lemma find_unique:
  "distinct (map g xs) \<Longrightarrow> x \<in> set xs \<Longrightarrow> find (\<lambda>y. g y = g x) xs = Some x"
  by (induction xs) (auto simp: image_iff)

lemma ic_getName_child:
  assumes v: "vdir s d" and m: "(k, n, c) \<in> set (v_children (ic_heap s d))"
  shows "ic_getName d c s = n"
  using find_unique [OF vdirD(5) [OF v] m] by (simp add: ic_getName_def)

text \<open>The names of a listing: the given name where it is known.\<close>

lemma ic_getEntries_names:
  assumes "vdir s d"
  shows "map de_name (ic_getEntries d s) =
      map (\<lambda>(k, _). case map_of (v_children (ic_heap s d)) k of None \<Rightarrow> k | Some (n, _) \<Rightarrow> n)
        (entries (ic_fs s) (v_real (ic_heap s d)))"
    "ic_getNumEntries d s = length (entries (ic_fs s) (v_real (ic_heap s d)))"
  using vdirD(3) [OF assms]
  by (auto simp: ic_getEntries_def ic_getNumEntries_def getNumEntries_def getEntries_def mounts_def
      rdir_def devirtualize_def memdir_getEntries_def memdir_getNumEntries_def split: option.splits)

lemma icase_inserted:
  assumes v: "vdir s d" and name: "plain_name name"
    "child_of (ic_fs s) (v_real (ic_heap s d)) (normalize name) = None"
    and n: "entries_of_node n = []" "dcache_of_node n = []"
    and ins: "ins s = ic_inserted d name
      (Some (fs_next (ic_fs s)), insert_new (v_real (ic_heap s d)) (normalize name) n m (ic_fs s)) s"
  shows "icase_insert_spec s d name (vh_inserted d ins s)"
proof -
  let ?k = "normalize name" and ?r = "v_real (ic_heap s d)" and ?f = "fs_next (ic_fs s)"
  define s1 where "s1 = s\<lparr>ic_fs := insert_new ?r ?k n m (ic_fs s)\<rparr>"
  define u where "u = adopt d name ?f s1"
  define t where "t = v_updateMTime d u"
  have k: "plain_name ?k" using name(1) by simp
  note s1 = vdir_insert_new(1) [OF v k name(2) n, of m, folded s1_def]
    vdir_insert_new(2) [OF v k name(2) n]
  have e1: "entries (ic_fs s1) ?r = entries (ic_fs s) ?r @ [(?k, ?f)]"
    using rdir_insert_new(2) [OF vdirD(3) [OF v] k name(2) n] by (simp add: s1_def)
  have same: "ic_next s1 = ic_next s" "ic_heap s1 = ic_heap s"
    by (simp_all add: s1_def)
  have d: "d \<noteq> ic_next s1" using vdirD(1) [OF s1(1)] by simp
  note u = vdir_adopt [OF s1(1), of name ?f, unfolded same e1, OF _ s1(2), folded u_def, simplified]
  have t: "vsame u t" "vdir t d"
    using v_updateMTime_same vdir_vsame [of u t d] u(1) by (simp_all add: t_def)
  have m: "map_of (v_children (ic_heap t d)) =
      (map_of (v_children (ic_heap s d)))(?k \<mapsto> (name, ic_next s))"
    using u(2) t(1) by (simp add: vsame_def)
  have tt: "same_shape (ic_fs u) (ic_fs t)" "v_real (ic_heap t d) = ?r"
    using t(1) d by (simp_all add: vsame_def u_def adopt_effect(3) [OF d] same)
  have et: "entries (ic_fs t) (v_real (ic_heap t d)) = entries (ic_fs s) ?r @ [(?k, ?f)]"
    using same_shapeD(5) [OF adopt_effect(2) [OF d, of name ?f, folded u_def], of ?r]
      same_shapeD(5) [OF tt(1), of ?r] e1 tt(2) by simp
  have "vh_inserted d ins s = (Some (ic_next s), t)"
    using vdirD(2) [OF v]
    by (auto simp: vh_inserted_def ins ic_inserted_def t_def u_def adopt_def split_beta Let_def
        fst_virtualize same simp flip: s1_def)
  moreover have "ic_getName d (ic_next s) t = name"
    by (rule ic_getName_child [OF t(2) map_of_SomeD [where k = ?k]]) (simp add: m)
  moreover have "vh_getChild d name' t = (Some (Virt (ic_next s)), t)"
    if "normalize name' = ?k" for name'
    by (rule vh_getChild_respelled [OF t(2) name(1) that]) (simp add: m)
  moreover have "?k \<notin> fst ` set (entries (ic_fs s) ?r)"
    using name(2) unfolding getChild_rdir(2) [OF vdirD(3) [OF v] k] map_of_eq_None_iff .
  then have "map de_name (ic_getEntries d t) = map de_name (ic_getEntries d s) @ [name]"
    unfolding ic_getEntries_names(1) [OF v] ic_getEntries_names(1) [OF t(2)] et m
    by (auto simp: image_iff intro!: list.map_cong0)
  moreover have "ic_getNumEntries d t = Suc (ic_getNumEntries d s)"
    unfolding ic_getEntries_names(2) [OF v] ic_getEntries_names(2) [OF t(2)] et by simp
  ultimately show ?thesis
    using t(2) by (simp add: icase_insert_spec_def)
qed

lemma icase_insert_data:
  assumes v: "vdir s d" and p: "plain_name name"
    and free: "child_of (ic_fs s) (v_real (ic_heap s d)) (normalize name) = None"
  shows "icase_insert_spec s d name (vh_insertDataFile d name mode s)"
proof -
  obtain q where q: "parent_of (ic_fs s) (v_real (ic_heap s d)) = Some q"
    using vdirD(3) [OF v] by (auto simp: rdir_def)
  show ?thesis
    unfolding vh_insertDataFile_def
    by (rule icase_inserted [OF v p free, of "MemoryDataFile []"])
      (simp_all add: ic_insertDataFile_def devirtualize_def inserts_new [OF q])
qed

text \<open>
  C34: inserting a file, a directory or a symlink under a name that is free in every spelling gives a
  child that keeps its name as given, is listed under it, last and once, and is found again, as the
  same virtual file, under every spelling of the name.
\<close>

theorem icase_insert:
  assumes v: "vdir s d" and name: "name \<noteq> ''.''" "name \<noteq> ''..''"
    and free: "child_of (ic_fs s) (v_real (ic_heap s d)) (normalize name) = None"
  shows "icase_insert_spec s d name (vh_insertDataFile d name mode s) \<and>
    icase_insert_spec s d name (vh_insertDirectory d name mode s) \<and>
    icase_insert_spec s d name (vh_insertSymlink d name tgt s)"
proof -
  have p: "plain_name name" using name by (simp add: plain_name_def)
  obtain q where q: "parent_of (ic_fs s) (v_real (ic_heap s d)) = Some q"
    using vdirD(3) [OF v] by (auto simp: rdir_def)
  note ins = icase_inserted [OF v p free]
  have "icase_insert_spec s d name (vh_insertDataFile d name mode s)"
    by (rule icase_insert_data [OF v p free])
  moreover have "icase_insert_spec s d name (vh_insertDirectory d name mode s)"
    unfolding vh_insertDirectory_def
    by (rule ins [of "MemoryDirectory [] []"]) (simp_all add: ic_insertDirectory_def devirtualize_def inserts_new [OF q])
  moreover have "icase_insert_spec s d name (vh_insertSymlink d name tgt s)"
    unfolding vh_insertSymlink_def
    by (rule ins [of "MemorySymlink tgt"]) (simp_all add: ic_insertSymlink_def devirtualize_def inserts_new [OF q])
  ultimately show ?thesis by blast
qed

section \<open>Removing\<close>

lemma distinct_map_eqD: "distinct (map g xs) \<Longrightarrow> x \<in> set xs \<Longrightarrow> y \<in> set xs \<Longrightarrow> g x = g y \<Longrightarrow> x = y"
  by (auto simp: distinct_map inj_on_def)

lemma rdir_removeChild:
  assumes r: "rdir x r" and e: "(k, f) \<in> set (entries x r)"
  shows "\<exists>y. removeChild r k x = (Inr (), y) \<and> rdir y r \<and>
    set (entries y r) = {e \<in> set (entries x r). fst e \<noteq> k} \<and> parent_of y f = None"
proof -
  have good: "good_entries (entries x r)" and r': "is_dir x r" "dcache x r = []"
    using r by (simp_all add: rdir_def)
  have find: "findEntry k (entries x r) = Some (k, f)"
    using find_unique [of fst, OF _ e(1)] good by (simp add: findEntry_def good_entries_def)
  define y where "y = updateMTime r (set_entries r (erase_entry k (entries x r)) (setParent f None x))"
  have run: "removeChild r k x = (Inr (), y)"
    by (simp add: removeChild_def r' memdir_removeChild_def find y_def)
  have eff: "entries y r = erase_entry k (entries x r)" "is_dir y r" "dcache y r = []"
    "fs_next y = fs_next x" "parent_of y g = (if g = f then None else parent_of x g)" for g
    using r' by (simp_all add: y_def)
  have s: "set (entries y r) = {e \<in> set (entries x r). fst e \<noteq> k}"
    unfolding eff(1) by (rule set_erase_entry [OF good])
  have "g \<noteq> f" if "(n, g) \<in> set (entries x r)" "n \<noteq> k" for n g
    using distinct_map_eqD [of snd, OF _ that(1) e] good that(2) by (auto simp: good_entries_def)
  moreover have "good_entries (entries y r)"
    unfolding eff(1) by (rule good_erase_entry [OF good])
  ultimately have "rdir y r"
    using r e by (auto simp: rdir_def s eff(2-))
  then show ?thesis
    using run s eff(5) by simp
qed

definition icase_remove_spec :: "icfs \<Rightarrow> vid \<Rightarrow> string \<Rightarrow> vid \<Rightarrow> bool" where
  "icase_remove_spec s d name c =
    (case vh_removeChild d name s of
       Some (Inr _, t) \<Rightarrow>
         vdir t d \<and> v_parent (ic_heap t c) = None \<and> parent_of (ic_fs t) (devirtualize s c) = None \<and>
         (\<forall>name'. normalize name' = normalize name \<longrightarrow> vh_getChild d name' t = (None, t))
     | _ \<Rightarrow> False)"

lemma look_known:
  assumes v: "vdir s d" and p: "plain_name name" and look: "vh_getChild d name s = (Some (Virt c), t)"
  shows "vdir t d" "\<exists>n. map_of (v_children (ic_heap t d)) (normalize name) = Some (n, c)"
proof -
  have "vdir t d \<and> (\<exists>n. map_of (v_children (ic_heap t d)) (normalize name) = Some (n, c))"
  proof (cases "map_of (v_children (ic_heap s d)) (normalize name)")
    case None
    then obtain f where f: "child_of (ic_fs s) (v_real (ic_heap s d)) (normalize name) = Some f"
      using vh_getChild_none [OF v p] look by fastforce
    show ?thesis
      using vh_getChild_fresh [OF v p None f] look by auto
  next
    case (Some e)
    then obtain n c' where m: "map_of (v_children (ic_heap s d)) (normalize name) = Some (n, c')"
      by (cases e) auto
    show ?thesis
      using vh_getChild_known(1) [OF v p m] look m v by auto
  qed
  then show "vdir t d" "\<exists>n. map_of (v_children (ic_heap t d)) (normalize name) = Some (n, c)"
    by auto
qed

lemma icase_removed:
  assumes v: "vdir s d" and p: "plain_name name"
    and m: "map_of (v_children (ic_heap s d)) (normalize name) = Some (n, c)"
  shows "icase_remove_spec s d name c"
proof -
  let ?k = "normalize name" and ?r = "v_real (ic_heap s d)" and ?f = "v_real (ic_heap s c)"
  note vd = vdirD [OF v]
  have w: "wraps s d (?k, n, c)" by (rule vd(6) [OF map_of_SomeD [OF m]])
  then have cd: "c \<noteq> d" and e: "(?k, ?f) \<in> set (entries (ic_fs s) ?r)" by (simp_all add: wraps_def)
  obtain y where y: "removeChild ?r ?k (ic_fs s) = (Inr (), y)" "rdir y ?r"
      "set (entries y ?r) = {e \<in> set (entries (ic_fs s) ?r). fst e \<noteq> ?k}" "parent_of y ?f = None"
    using rdir_removeChild [OF vd(3) e] by blast
  define u where "u = upd_vobj d (v_children_update (omap_erase ?k))
      (upd_vobj c (v_parent_update (\<lambda>_. None)) (s\<lparr>ic_fs := y\<rparr>))"
  define t where "t = v_updateMTime d u"
  have run: "vh_removeChild d name s = Some (Inr (), t)"
    using m by (simp add: vh_removeChild_def ic_removeChild_def devirtualize_def y(1) t_def u_def Let_def)
  have eff: "ic_next u = ic_next s" "ic_fs u = y" "v_real (ic_heap u g) = v_real (ic_heap s g)"
      "v_parent (ic_heap u g) = (if g = c then None else v_parent (ic_heap s g))"
      "v_children (ic_heap u d) = omap_erase ?k (v_children (ic_heap s d))" for g
    using cd by (simp_all add: u_def upd_vobj_def)
  have "wraps u d e'" if e': "e' \<in> set (v_children (ic_heap s d))" "fst e' \<noteq> ?k" for e'
  proof -
    have "snd (snd e') \<noteq> c"
      using distinct_map_eqD [OF vd(5) e'(1) map_of_SomeD [OF m]] e'(2) by (cases e') auto
    then show ?thesis
      using vd(6) [OF e'(1)] e'(2) by (auto simp: wraps_def eff y(3))
  qed
  moreover have "distinct (map (snd \<circ> snd) (v_children (ic_heap u d)))"
    using vd(5) by (simp add: eff omap_erase_def distinct_map_filter)
  ultimately have "vdir u d"
    using vd(1-4) y(2) cd by (simp add: vdir_def eff sorted_omap_erase set_omap_erase)
  then have t: "vdir t d" and same: "vsame u t"
    using v_updateMTime_same vdir_vsame [of u t d] by (simp_all add: t_def)
  have "?k \<notin> fst ` set (entries y ?r)" by (auto simp: y(3))
  moreover have "child_of (ic_fs t) (v_real (ic_heap t d)) ?k = child_of y ?r ?k"
    using same by (simp add: vsame_def child_of_shape eff)
  ultimately have none: "child_of (ic_fs t) (v_real (ic_heap t d)) ?k = None"
    using p by (simp add: getChild_rdir(2) [OF y(2)] map_of_eq_None_iff)
  have "vh_getChild d name' t = (None, t)" if "normalize name' = ?k" for name'
    by (rule vh_getChild_none [OF t plain_respelled [OF that p]]) (simp only: that none)
  moreover have "parent_of (ic_fs t) ?f = None" "v_parent (ic_heap t c) = None"
    using same y(4) same_shapeD(7) [of y "ic_fs t" ?f] by (simp_all add: vsame_def eff)
  ultimately show ?thesis
    using t by (simp add: icase_remove_spec_def run devirtualize_def)
qed

text \<open>
  C35: a child that has been looked up is removed under any spelling: the removal succeeds, unlinks the
  virtual and the real file, and no spelling finds it afterwards.
\<close>

theorem icase_remove:
  assumes v: "vdir s d" and name: "name \<noteq> ''.''" "name \<noteq> ''..''"
    and look: "vh_getChild d name s = (Some (Virt c), t)"
    and same: "normalize name' = normalize name"
  shows "icase_remove_spec t d name' c"
proof -
  have p: "plain_name name" "plain_name name'"
    using name plain_respelled [OF same] by (simp_all add: plain_name_def)
  note known = look_known [OF v p(1) look]
  show ?thesis
    using icase_removed [OF known(1) p(2)] known(2) same by auto
qed

section \<open>A mounted root\<close>

text \<open>A directory the backend has just created, once it is mounted, is well formed and empty.\<close>

lemma vdir_createDirectory:
  assumes "ic_createDirectory mode b s = (d, t)"
  shows "vdir (v_setParent d (Some (Outer p)) t) d"
    "entries (ic_fs (v_setParent d (Some (Outer p)) t)) (v_real (ic_heap t d)) = []"
proof -
  obtain r x where r: "createDirectory mode b (ic_fs s) = (r, x)" by (rule prod.exhaust)
  note eff = new_file_effect [OF r [unfolded createDirectory_def]]
  obtain ts y where y: "date_now (setParent r (Some r) x) = (ts, y)" by (rule prod.exhaust)
  note sh = same_shapeD [OF date_now_shape [OF y]]
  have "rdir y r" "entries y r = []"
    by (simp_all add: rdir_def good_entries_def sh eff)
  moreover have "d = ic_next s" "v_real (ic_heap t d) = r" "ic_fs t = y" "ic_next t = Suc (ic_next s)"
      "v_children (ic_heap t d) = []"
    using assms by (auto simp: ic_createDirectory_def r virtualize_def y Let_def)
  ultimately show "vdir (v_setParent d (Some (Outer p)) t) d"
      "entries (ic_fs (v_setParent d (Some (Outer p)) t)) (v_real (ic_heap t d)) = []"
    by (simp_all add: vdir_def v_setParent_def upd_vobj_def)
qed

definition no_icase :: "fs \<Rightarrow> icfs" where
  "no_icase x = \<lparr>ic_fs = x, ic_heap = \<lambda>_. \<lparr>v_kind = UnknownKind, v_mode = 0, v_atime = Fin 0,
     v_mtime = Fin 0, v_ctime = Fin 0, v_parent = None, v_real = 0, v_children = []\<rparr>, ic_next = 0\<rparr>"

definition demo_icase :: icfs where
  "demo_icase = v_setParent 0 (Some (Outer 8)) (snd (ic_createDirectory 0x1FF (Some 0) (no_icase demo_fs)))"

text \<open>The root that is mounted, as \<open>/tmp/ci\<close> say, over an empty real directory.\<close>

lemma demo_icase_root:
  "vdir demo_icase 0" "child_of (ic_fs demo_icase) (v_real (ic_heap demo_icase 0)) (normalize ''Foo'') = None"
proof -
  obtain d t where dt: "ic_createDirectory 0x1FF (Some 0) (no_icase demo_fs) = (d, t)"
    by (rule prod.exhaust)
  then have "d = 0"
    by (auto simp: ic_createDirectory_def virtualize_def no_icase_def Let_def split: prod.splits)
  then have s: "demo_icase = v_setParent d (Some (Outer 8)) t" "d = 0"
    using dt by (simp_all add: demo_icase_def)
  have "vdir demo_icase d"
    unfolding s(1) by (rule vdir_createDirectory(1) [OF dt])
  then show v: "vdir demo_icase 0"
    unfolding s(2) .
  have "v_real (ic_heap demo_icase 0) = v_real (ic_heap t d)"
    by (simp add: s v_setParent_def upd_vobj_def)
  moreover have p: "plain_name (normalize ''Foo'')"
    unfolding normalize_plain by (simp add: plain_name_def)
  ultimately show "child_of (ic_fs demo_icase) (v_real (ic_heap demo_icase 0)) (normalize ''Foo'') = None"
    unfolding getChild_rdir(2) [OF vdirD(3) [OF v] p] using vdir_createDirectory(2) [OF dt, of 8] s
    by simp
qed

theorem icase_lookup_witness: "icase_lookup_spec demo_icase 0 ''README.txt''"
  by (rule icase_lookup [OF demo_icase_root(1)]) simp_all

theorem icase_insert_witness:
  "icase_insert_spec demo_icase 0 ''Foo'' (vh_insertDataFile 0 ''Foo'' 0x1B6 demo_icase)"
  using icase_insert [OF demo_icase_root(1) _ _ demo_icase_root(2)] by simp

theorem icase_remove_witness:
  "case vh_insertDataFile 0 ''Foo'' 0x1B6 demo_icase of
     (Some c, t) \<Rightarrow> icase_remove_spec t 0 ''fOO'' c | _ \<Rightarrow> False"
proof -
  have "normalize ''fOO'' = normalize ''Foo''" by code_simp
  then show ?thesis
    using icase_insert_data [OF demo_icase_root(1) _ demo_icase_root(2), where mode = "0x1B6"]
      icase_remove [where name = "''Foo''" and name' = "''fOO''"]
    by (auto simp: icase_insert_spec_def plain_name_def split: prod.splits option.splits)
qed

end
