(* ===== verification/Meta_Laws.thy ===== *)
theory Meta_Laws
  imports Icase_Laws
begin

text \<open>
  What the calls on metadata do: times set through \<open>utimensat\<close> are read back by \<open>stat\<close>.
\<close>

section \<open>Finding a file again\<close>

lemma parseFile_extends:
  assumes wf: "wf_fs s" "wf_fs t" and ext: "extends s t"
    and found: "parseFile path fd FollowLinks s = Some (Inr f, s)"
  shows "parseFile path fd FollowLinks t = Some (Inr f, t)"
proof (rule parseFile_found [OF wf(1) found])
  fix base k
  assume r: "getBaseDir fd s = Inr base" "k \<le> 40" "resolvesN s base path k f"
  have "resolvesN t base path k f"
    using resolution_extends(3) [OF wfD(1) [OF wf(1)] ext r(3)]
      getBaseDir_dir [OF wfD(1) [OF wf(1)] r(1)] by simp
  then show ?thesis
    using parseFile_gives [OF wf(2) extends_base [OF wf(1) ext r(1)]] r(2) by simp
qed

lemma quiet_extends:
  assumes "quiet s t" "\<And>f. node_of t f = node_of s f" "fs_ofiles t = fs_ofiles s"
  shows "extends s t"
proof -
  have sh: "same_shape s t" "fs_table t = fs_table s"
    using assms(1) by (simp_all add: quiet_def)
  show ?thesis
    using assms(2,3) sh(2) child_of_shape [OF sh(1)] same_shapeD(1-4) [OF sh(1)]
    by (auto simp: extends_def getEntry_def)
qed

section \<open>Times\<close>

text \<open>
  C36: Times in whole milliseconds that \<open>utimensat\<close> sets are the times \<open>stat\<close> then reports, although they
  are kept as doubles; every other field, and every other file, is as before.
\<close>

theorem utimens_stat_roundtrip:
  assumes wf: "wf_fs s" and path: "parseFile path (- 100) FollowLinks s = Some (Inr f, s)" "path \<noteq> []"
    and size: "0 \<le> sint (getSize f s)"
    and a: "0 \<le> asec" "asec < 2 ^ 43" "0 \<le> ams" "ams < 1000"
    and m: "0 \<le> msec" "msec < 2 ^ 43" "0 \<le> mms" "mms < 1000"
  shows "\<exists>t. syscall_utimensat (- 100) path
       (Some (Timespec asec (ams * 1000000), Timespec msec (mms * 1000000))) 0 s = Some (0, t) \<and>
     syscall_stat64 path t = Some ((0, Some ((stat_of f s)\<lparr>st_atim := Some (asec, ams * 1000000),
       st_mtim := Some (msec, mms * 1000000)\<rparr>)), t) \<and>
     (\<forall>g. g \<noteq> f \<longrightarrow> fs_heap t g = fs_heap s g)"
proof -
  define t where "t = set_both f (double_ms asec (ams * 1000000)) (double_ms msec (mms * 1000000)) s"
  have heap: "fs_heap t = (fs_heap s)(f := (fs_heap s f)
      \<lparr>f_atime := Fin (of_int (1000 * asec + ams)), f_mtime := Fin (of_int (1000 * msec + mms))\<rparr>)"
    by (simp add: t_def set_both_def double_ms_whole [OF a] double_ms_whole [OF m] fs_defs)
  have q: "quiet s t"
    unfolding t_def by (rule set_both_quiet)
  have rest: "fs_ofiles t = fs_ofiles s" "fs_pipes t = fs_pipes s"
    by (simp_all add: t_def set_both_def double_ms_whole [OF a] double_ms_whole [OF m] fs_defs)
  have node: "node_of t g = node_of s g" "mode_of t g = mode_of s g" for g
    by (simp_all add: heap)
  have again: "parseFile path (- 100) FollowLinks t = Some (Inr f, t)"
    by (rule parseFile_extends [OF wf wf_quiet [OF wf q] quiet_extends [OF q node(1) rest(1)] path(1)])
  have sz: "getSize f t = getSize f s"
    by (simp add: getSize_def node rest split: node.split)
  have "syscall_utimensat (- 100) path
      (Some (Timespec asec (ams * 1000000), Timespec msec (mms * 1000000))) 0 s = Some (0, t)"
    by (simp add: syscall_utimensat_def getFileAt_def path timespec_to_ms_def t_def)
  moreover have "stat_of f t = (stat_of f s)\<lparr>st_atim := Some (asec, ams * 1000000),
      st_mtim := Some (msec, mms * 1000000)\<rparr>"
    by (simp add: stat_of_def sz node heap ms_to_timespec_whole [OF a] ms_to_timespec_whole [OF m]
        del: of_int_add of_int_mult)
  then have "syscall_stat64 path t = Some ((0, Some ((stat_of f s)\<lparr>st_atim := Some (asec, ams * 1000000),
       st_mtim := Some (msec, mms * 1000000)\<rparr>)), t)"
    using size by (simp add: syscall_stat64_def syscall_newfstatat_def getFileAt_def again sz)
  moreover have "\<forall>g. g \<noteq> f \<longrightarrow> fs_heap t g = fs_heap s g"
    by (simp add: heap)
  ultimately show ?thesis by blast
qed

theorem utimens_stat_roundtrip_witness:
  "\<exists>t. syscall_utimensat (- 100) ''/tmp'' (Some (Timespec 1700000000 123000000, Timespec 0 0)) 0 demo_fs = Some (0, t) \<and>
     (\<exists>st. syscall_stat64 ''/tmp'' t = Some ((0, Some st), t) \<and>
        st_atim st = Some (1700000000, 123000000) \<and> st_mtim st = Some (0, 0) \<and> st_mode st = 0x41FF)"
proof -
  have "parseFile ''/tmp'' (- 100) FollowLinks demo_fs = Some (Inr 8, demo_fs)"
    using parseFile_gives [OF demo_wf _ demo_resolves, of "- 100"] by (simp add: getBaseDir_def demo_tree)
  moreover have "getSize 8 demo_fs = 4096"
    using demo_tree(7) by (auto simp: getSize_def kind_of_dir_iff)
  ultimately show ?thesis
    using utimens_stat_roundtrip [OF demo_wf, of "''/tmp''" 8 1700000000 123 0 0]
    by (auto simp: stat_of_def demo_tree)
qed

text \<open>Half a second before 1970 is reported as second 0 and a negative number of nanoseconds.\<close>

lemma stat_before_1970: "ms_to_timespec (Fin (- 500)) = Some (0, - 500000000)"
  by code_simp

end
