(* ===== verification/OpfsBackend.thy ===== *)
theory OpfsBackend
  imports Meta_Laws
begin

text \<open>
  The backend on the origin private file system of a browser (opfs_backend.cpp). The functions of
  library_wasmfs_opfs.js are not part of the repository: they are a record of functions on a host of
  type \<open>'h\<close>. The proxy runs a function on another thread and waits for it, so a proxied call is a
  call. \<open>None\<close> is \<open>WASMFS_UNREACHABLE\<close>.
\<close>

section \<open>The calls into JavaScript\<close>

text \<open>
  Handles and errors are 32-bit integers, negative for an error. What a call stores through an out
  parameter is part of its result.
\<close>

record 'h opfs_calls =
  oc_init_root_directory :: "'h \<Rightarrow> 'h"
  oc_get_child :: "u32 \<Rightarrow> string \<Rightarrow> 'h \<Rightarrow> (u32 \<times> u32) \<times> 'h"
  oc_insert_file :: "u32 \<Rightarrow> string \<Rightarrow> 'h \<Rightarrow> u32 \<times> 'h"
  oc_insert_directory :: "u32 \<Rightarrow> string \<Rightarrow> 'h \<Rightarrow> u32 \<times> 'h"
  oc_move_file :: "u32 \<Rightarrow> u32 \<Rightarrow> string \<Rightarrow> 'h \<Rightarrow> u32 \<times> 'h"
  oc_remove_child :: "u32 \<Rightarrow> string \<Rightarrow> 'h \<Rightarrow> u32 \<times> 'h"
  oc_get_entries :: "u32 \<Rightarrow> 'h \<Rightarrow> (u32 \<times> (string \<times> FileKind) list) \<times> 'h"
  oc_open_access :: "u32 \<Rightarrow> 'h \<Rightarrow> u32 \<times> 'h"
  oc_open_blob :: "u32 \<Rightarrow> 'h \<Rightarrow> u32 \<times> 'h"
  oc_close_access :: "u32 \<Rightarrow> 'h \<Rightarrow> u32 \<times> 'h"
  oc_close_blob :: "u32 \<Rightarrow> 'h \<Rightarrow> 'h"
  oc_free_file :: "u32 \<Rightarrow> 'h \<Rightarrow> 'h"
  oc_free_directory :: "u32 \<Rightarrow> 'h \<Rightarrow> 'h"
  oc_read_access :: "u32 \<Rightarrow> u32 \<Rightarrow> u32 \<Rightarrow> 'h \<Rightarrow> (u32 \<times> byte list) \<times> 'h"
  oc_read_blob :: "u32 \<Rightarrow> u32 \<Rightarrow> u32 \<Rightarrow> 'h \<Rightarrow> (u32 \<times> byte list) \<times> 'h"
  oc_write_access :: "u32 \<Rightarrow> byte list \<Rightarrow> u32 \<Rightarrow> 'h \<Rightarrow> u32 \<times> 'h"
  oc_get_size_access :: "u32 \<Rightarrow> 'h \<Rightarrow> u64 \<times> 'h"
  oc_get_size_blob :: "u32 \<Rightarrow> 'h \<Rightarrow> u32 \<times> 'h"
  oc_get_size_file :: "u32 \<Rightarrow> 'h \<Rightarrow> u64 \<times> 'h"
  oc_set_size_access :: "u32 \<Rightarrow> u64 \<Rightarrow> 'h \<Rightarrow> u32 \<times> 'h"
  oc_set_size_file :: "u32 \<Rightarrow> u64 \<Rightarrow> 'h \<Rightarrow> u32 \<times> 'h"
  oc_flush_access :: "u32 \<Rightarrow> 'h \<Rightarrow> u32 \<times> 'h"

section \<open>The open state of a file\<close>

datatype open_kind = NotOpen | Access | Blob

record OpenState =
  os_kind :: open_kind
  os_id :: u32
  os_openCount :: u32

definition OpenState_init :: OpenState where
  "OpenState_init = \<lparr>os_kind = NotOpen, os_id = - 1, os_openCount = 0\<rparr>"

text \<open>A fresh handle: its id is kept even when it is an error.\<close>

definition OpenState_fresh :: "open_kind \<Rightarrow> u32 \<times> 'h \<Rightarrow> OpenState \<Rightarrow> u32 \<times> OpenState \<times> 'h" where
  "OpenState_fresh k res st =
    (let (i, h) = res; st = st\<lparr>os_id := i\<rparr> in
     if sint i < 0 then (i, st, h)
     else (0, st\<lparr>os_kind := k, os_openCount := os_openCount st + 1\<rparr>, h))"

definition OpenState_open ::
    "'h opfs_calls \<Rightarrow> u32 \<Rightarrow> u32 \<Rightarrow> OpenState \<Rightarrow> 'h \<Rightarrow> (u32 \<times> OpenState \<times> 'h) option" where
  "OpenState_open oc fileID flags st h =
    (if os_kind st = NotOpen then
       if flags = O_RDWR \<or> flags = O_WRONLY then Some (OpenState_fresh Access (oc_open_access oc fileID h) st)
       else if flags = O_RDONLY then Some (OpenState_fresh Blob (oc_open_blob oc fileID h) st)
       else None
     else if os_kind st = Blob \<and> (flags = O_WRONLY \<or> flags = O_RDWR) then
       let (newID, h) = oc_open_access oc fileID h in
       if sint newID < 0 then Some (newID, st, h)
       else
         let h = oc_close_blob oc (os_id st) h in
         Some (0, st\<lparr>os_id := newID, os_kind := Access, os_openCount := os_openCount st + 1\<rparr>, h)
     else Some (0, st\<lparr>os_openCount := os_openCount st + 1\<rparr>, h))"

definition OpenState_close :: "'h opfs_calls \<Rightarrow> OpenState \<Rightarrow> 'h \<Rightarrow> (u32 \<times> OpenState \<times> 'h) option" where
  "OpenState_close oc st h =
    (let st = st\<lparr>os_openCount := os_openCount st - 1\<rparr> in
     if os_openCount st = 0 then
       (case os_kind st of
          NotOpen \<Rightarrow> None
        | Access \<Rightarrow>
            let (err, h) = oc_close_access oc (os_id st) h in
            Some (err, st\<lparr>os_kind := NotOpen, os_id := - 1\<rparr>, h)
        | Blob \<Rightarrow> Some (0, st\<lparr>os_kind := NotOpen, os_id := - 1\<rparr>, oc_close_blob oc (os_id st) h))
     else Some (0, st, h))"

section \<open>Files\<close>

record OPFSFile =
  of_fileID :: u32
  of_state :: OpenState

text \<open>The size of a blob is an unsigned 32-bit integer.\<close>

definition OPFSFile_getSize :: "'h opfs_calls \<Rightarrow> OPFSFile \<Rightarrow> 'h \<Rightarrow> u64 \<times> 'h" where
  "OPFSFile_getSize oc f h =
    (case os_kind (of_state f) of
       NotOpen \<Rightarrow> oc_get_size_file oc (of_fileID f) h
     | Access \<Rightarrow> oc_get_size_access oc (os_id (of_state f)) h
     | Blob \<Rightarrow> let (n, h) = oc_get_size_blob oc (os_id (of_state f)) h in (ucast n, h))"

definition OPFSFile_setSize :: "'h opfs_calls \<Rightarrow> OPFSFile \<Rightarrow> u64 \<Rightarrow> 'h \<Rightarrow> u32 \<times> 'h" where
  "OPFSFile_setSize oc f sz h =
    (case os_kind (of_state f) of
       Access \<Rightarrow> oc_set_size_access oc (os_id (of_state f)) sz h
     | Blob \<Rightarrow> (neg_errno EIO, h)
     | NotOpen \<Rightarrow> oc_set_size_file oc (of_fileID f) sz h)"

definition OPFSFile_open :: "'h opfs_calls \<Rightarrow> u32 \<Rightarrow> OPFSFile \<Rightarrow> 'h \<Rightarrow> (u32 \<times> OPFSFile \<times> 'h) option" where
  "OPFSFile_open oc flags f h =
    map_option (\<lambda>(r, st, h). (r, f\<lparr>of_state := st\<rparr>, h)) (OpenState_open oc (of_fileID f) flags (of_state f) h)"

definition OPFSFile_close :: "'h opfs_calls \<Rightarrow> OPFSFile \<Rightarrow> 'h \<Rightarrow> (u32 \<times> OPFSFile \<times> 'h) option" where
  "OPFSFile_close oc f h =
    map_option (\<lambda>(r, st, h). (r, f\<lparr>of_state := st\<rparr>, h)) (OpenState_close oc (of_state f) h)"

text \<open>The offset is cut to 32 bits.\<close>

definition OPFSFile_read ::
    "'h opfs_calls \<Rightarrow> OPFSFile \<Rightarrow> u32 \<Rightarrow> u64 \<Rightarrow> 'h \<Rightarrow> ((u32 \<times> byte list) \<times> 'h) option" where
  "OPFSFile_read oc f len offset h =
    (case os_kind (of_state f) of
       Access \<Rightarrow> Some (oc_read_access oc (os_id (of_state f)) len (ucast offset) h)
     | Blob \<Rightarrow> Some (oc_read_blob oc (os_id (of_state f)) len (ucast offset) h)
     | NotOpen \<Rightarrow> None)"

definition OPFSFile_write :: "'h opfs_calls \<Rightarrow> OPFSFile \<Rightarrow> byte list \<Rightarrow> u64 \<Rightarrow> 'h \<Rightarrow> u32 \<times> 'h" where
  "OPFSFile_write oc f data offset h = oc_write_access oc (os_id (of_state f)) data (ucast offset) h"

definition OPFSFile_flush :: "'h opfs_calls \<Rightarrow> OPFSFile \<Rightarrow> 'h \<Rightarrow> u32 \<times> 'h" where
  "OPFSFile_flush oc f h =
    (case os_kind (of_state f) of
       Access \<Rightarrow> oc_flush_access oc (os_id (of_state f)) h | _ \<Rightarrow> (0, h))"

text \<open>The two destructors.\<close>

definition OPFSFile_destroy :: "'h opfs_calls \<Rightarrow> OPFSFile \<Rightarrow> 'h \<Rightarrow> 'h" where
  "OPFSFile_destroy oc f = oc_free_file oc (of_fileID f)"

definition OPFSDirectory_destroy :: "'h opfs_calls \<Rightarrow> u32 \<Rightarrow> 'h \<Rightarrow> 'h" where
  "OPFSDirectory_destroy oc dirID h = (if dirID \<noteq> 0 then oc_free_directory oc dirID h else h)"

section \<open>Directories\<close>

text \<open>A new child: a file with its open state or a directory with its id, and its mode.\<close>

datatype opfs_child = OFile u32 OPFSFile | ODir u32 u32

definition new_opfs_file :: "u32 \<Rightarrow> u32 \<Rightarrow> opfs_child" where
  "new_opfs_file mode fileID = OFile mode \<lparr>of_fileID = fileID, of_state = OpenState_init\<rparr>"

definition OPFSDirectory_getChild ::
    "'h opfs_calls \<Rightarrow> u32 \<Rightarrow> string \<Rightarrow> 'h \<Rightarrow> (opfs_child option \<times> 'h) option" where
  "OPFSDirectory_getChild oc dirID name h =
    (let ((childType, childID), h) = oc_get_child oc dirID name h in
     if sint childID < 0 then Some (None, h)
     else if childType = 1 then Some (Some (new_opfs_file 0x1FF childID), h)
     else if childType = 2 then Some (Some (ODir 0x1FF childID), h)
     else None)"

definition OPFSDirectory_insertDataFile ::
    "'h opfs_calls \<Rightarrow> u32 \<Rightarrow> string \<Rightarrow> u32 \<Rightarrow> 'h \<Rightarrow> opfs_child option \<times> 'h" where
  "OPFSDirectory_insertDataFile oc dirID name mode h =
    (let (childID, h) = oc_insert_file oc dirID name h in
     (if sint childID < 0 then None else Some (new_opfs_file mode childID), h))"

definition OPFSDirectory_insertDirectory ::
    "'h opfs_calls \<Rightarrow> u32 \<Rightarrow> string \<Rightarrow> u32 \<Rightarrow> 'h \<Rightarrow> opfs_child option \<times> 'h" where
  "OPFSDirectory_insertDirectory oc dirID name mode h =
    (let (childID, h) = oc_insert_directory oc dirID name h in
     (if sint childID < 0 then None else Some (ODir mode childID), h))"

definition OPFSDirectory_insertSymlink :: "u32 \<Rightarrow> string \<Rightarrow> string \<Rightarrow> 'h \<Rightarrow> opfs_child option \<times> 'h" where
  "OPFSDirectory_insertSymlink dirID name tgt h = (None, h)"

definition OPFSDirectory_insertMove :: "'h opfs_calls \<Rightarrow> u32 \<Rightarrow> string \<Rightarrow> opfs_child \<Rightarrow> 'h \<Rightarrow> u32 \<times> 'h" where
  "OPFSDirectory_insertMove oc dirID name child h =
    (case child of
       OFile _ f \<Rightarrow> oc_move_file oc (of_fileID f) dirID name h
     | ODir _ _ \<Rightarrow> (neg_errno EBUSY, h))"

definition OPFSDirectory_removeChild :: "'h opfs_calls \<Rightarrow> u32 \<Rightarrow> string \<Rightarrow> 'h \<Rightarrow> u32 \<times> 'h" where
  "OPFSDirectory_removeChild oc dirID name h = oc_remove_child oc dirID name h"

definition opfs_record_entry :: "dirent list \<Rightarrow> string \<times> FileKind \<Rightarrow> dirent list" where
  "opfs_record_entry es e = es @ [\<lparr>de_name = fst e, de_kind = snd e, de_ino = 0\<rparr>]"

definition OPFSDirectory_getEntries :: "'h opfs_calls \<Rightarrow> u32 \<Rightarrow> 'h \<Rightarrow> (u32 + dirent list) \<times> 'h" where
  "OPFSDirectory_getEntries oc dirID h =
    (let ((err, es), h) = oc_get_entries oc dirID h in
     (if err \<noteq> 0 then Inl err else Inr (foldl opfs_record_entry [] es), h))"

definition OPFSDirectory_getNumEntries :: "'h opfs_calls \<Rightarrow> u32 \<Rightarrow> 'h \<Rightarrow> u32 \<times> 'h" where
  "OPFSDirectory_getNumEntries oc dirID h =
    (case OPFSDirectory_getEntries oc dirID h of
       (Inl err, h) \<Rightarrow> (err, h) | (Inr es, h) \<Rightarrow> (of_nat (length es), h))"

text \<open>The backend: only directories can be created, and the root is the directory of id 1.\<close>

definition OPFSBackend_createFile :: "u32 \<Rightarrow> opfs_child option" where
  "OPFSBackend_createFile mode = None"

definition OPFSBackend_createDirectory :: "'h opfs_calls \<Rightarrow> u32 \<Rightarrow> 'h \<Rightarrow> opfs_child \<times> 'h" where
  "OPFSBackend_createDirectory oc mode h = (ODir mode 1, oc_init_root_directory oc h)"

definition OPFSBackend_createSymlink :: "string \<Rightarrow> opfs_child option" where
  "OPFSBackend_createSymlink tgt = None"

section \<open>Opens and closes of one file\<close>

text \<open>
  What the JavaScript library promises for handles: \<open>opened h\<close> are the handles that are open, with the
  file each is for. A successful open gives a handle that was not open; a close frees it.
\<close>

type_synonym 'h opfs_opened = "'h \<Rightarrow> open_kind \<times> u32 \<Rightarrow> u32 option"

definition opens_handle :: "'h opfs_opened \<Rightarrow> open_kind \<Rightarrow> u32 \<Rightarrow> 'h \<Rightarrow> u32 \<times> 'h \<Rightarrow> bool" where
  "opens_handle opened k fileID h res \<longleftrightarrow>
    (if sint (fst res) < 0 then opened (snd res) = opened h
     else opened h (k, fst res) = None \<and> opened (snd res) = (opened h)((k, fst res) \<mapsto> fileID))"

definition opfs_handles :: "'h opfs_opened \<Rightarrow> 'h opfs_calls \<Rightarrow> bool" where
  "opfs_handles opened oc \<longleftrightarrow>
    (\<forall>f h. opens_handle opened Access f h (oc_open_access oc f h)) \<and>
    (\<forall>f h. opens_handle opened Blob f h (oc_open_blob oc f h)) \<and>
    (\<forall>i h. opened (snd (oc_close_access oc i h)) = (opened h)((Access, i) := None)) \<and>
    (\<forall>i h. opened (oc_close_blob oc i h) = (opened h)((Blob, i) := None))"

lemma opfs_handlesD:
  assumes "opfs_handles opened oc"
  shows "opens_handle opened Access f h (oc_open_access oc f h)"
    "opens_handle opened Blob f h (oc_open_blob oc f h)"
    "opened (snd (oc_close_access oc i h)) = (opened h)((Access, i) := None)"
    "opened (oc_close_blob oc i h) = (opened h)((Blob, i) := None)"
  using assms by (simp_all add: opfs_handles_def)

text \<open>
  The states a file goes through, with the access modes of its opens that are not closed yet; fewer
  than $2^{32}$ are outstanding.
\<close>

inductive opfs_run ::
    "'h opfs_calls \<Rightarrow> u32 \<Rightarrow> 'h \<Rightarrow> u32 list \<Rightarrow> OPFSFile \<Rightarrow> 'h \<Rightarrow> bool" for oc fileID h0 where
  start: "opfs_run oc fileID h0 [] \<lparr>of_fileID = fileID, of_state = OpenState_init\<rparr> h0"
| opens: "opfs_run oc fileID h0 fs x h \<Longrightarrow> f = O_RDONLY \<or> f = O_WRONLY \<or> f = O_RDWR \<Longrightarrow>
    length fs < 2 ^ 32 - 1 \<Longrightarrow> OPFSFile_open oc f x h = Some (r, x', h') \<Longrightarrow>
    opfs_run oc fileID h0 (if r = 0 then f # fs else fs) x' h'"
| closes: "opfs_run oc fileID h0 (fs @ f # gs) x h \<Longrightarrow> OPFSFile_close oc x h = Some (r, x', h') \<Longrightarrow>
    opfs_run oc fileID h0 (fs @ gs) x' h'"

text \<open>The invariant of one file: its one handle, of a kind that serves every open.\<close>

definition writes :: "u32 \<Rightarrow> bool" where
  "writes f \<longleftrightarrow> f = O_WRONLY \<or> f = O_RDWR"

definition opfs_inv :: "'h opfs_opened \<Rightarrow> u32 \<Rightarrow> 'h \<Rightarrow> u32 list \<Rightarrow> OpenState \<Rightarrow> 'h \<Rightarrow> bool" where
  "opfs_inv opened fileID h0 fs st h \<longleftrightarrow>
    length fs < 2 ^ 32 \<and> os_openCount st = of_nat (length fs) \<and>
    (if fs = [] then os_kind st = NotOpen \<and> opened h = opened h0
     else os_kind st \<noteq> NotOpen \<and> opened h0 (os_kind st, os_id st) = None \<and>
       opened h = (opened h0)((os_kind st, os_id st) \<mapsto> fileID) \<and>
       ((\<exists>f \<in> set fs. writes f) \<longrightarrow> os_kind st = Access))"

lemma opfs_open_step:
  assumes host: "opfs_handles opened oc" and inv: "opfs_inv opened fileID h0 fs st h"
    and f: "f = O_RDONLY \<or> f = O_WRONLY \<or> f = O_RDWR" "length fs < 2 ^ 32 - 1"
    and run: "OpenState_open oc fileID f st h = Some (r, st', h')"
  shows "opfs_inv opened fileID h0 (if r = 0 then f # fs else fs) st' h'"
proof -
  have neg: "r \<noteq> 0" if "sint r < 0" for r :: u32
    using that by auto
  consider (fresh) "fs = []" | (widen) "fs \<noteq> []" "os_kind st = Blob" "writes f"
    | (reuse) "fs \<noteq> []" "\<not> (os_kind st = Blob \<and> writes f)"
    by blast
  then show ?thesis
  proof cases
    case fresh
    then have st: "os_kind st = NotOpen" "opened h = opened h0" "os_openCount st = 0"
      using inv by (simp_all add: opfs_inv_def)
    define k where "k = (if writes f then Access else Blob)"
    define res where "res = (if writes f then oc_open_access oc fileID h else oc_open_blob oc fileID h)"
    have law: "opens_handle opened k fileID h res"
      using opfs_handlesD(1,2) [OF host] by (simp add: k_def res_def)
    have "OpenState_fresh k res st = (r, st', h')"
      using run f(1) st(1) by (auto simp: OpenState_open_def k_def res_def writes_def)
    then show ?thesis
      using law st neg [of "fst res"] fresh
      by (auto simp: OpenState_fresh_def opens_handle_def opfs_inv_def k_def Let_def split: prod.splits if_splits)
  next
    case widen
    then have st: "opened h0 (Blob, os_id st) = None" "opened h = (opened h0)((Blob, os_id st) \<mapsto> fileID)"
        "os_openCount st = of_nat (length fs)" "length fs < 2 ^ 32"
      using inv by (simp_all add: opfs_inv_def)
    obtain x k where x: "oc_open_access oc fileID h = (x, k)" by (rule prod.exhaust)
    have law: "opens_handle opened Access fileID h (x, k)"
      using opfs_handlesD(1) [OF host, of fileID h] by (simp only: x)
    show ?thesis
    proof (cases "sint x < 0")
      case True
      then have "r = x" "st' = st" "opened h' = opened h"
        using run widen(2,3) law by (auto simp: OpenState_open_def x writes_def opens_handle_def)
      then show ?thesis
        using inv neg [OF True] by (simp add: opfs_inv_def)
    next
      case False
      then have eq: "r = 0" "st' = st\<lparr>os_id := x, os_kind := Access, os_openCount := os_openCount st + 1\<rparr>"
          "h' = oc_close_blob oc (os_id st) k"
        using run widen(2,3) by (auto simp: OpenState_open_def x writes_def)
      have new: "opened h (Access, x) = None" "opened k = (opened h)((Access, x) \<mapsto> fileID)"
        using law False by (simp_all add: opens_handle_def)
      have "opened h' = (opened h0)((Access, x) \<mapsto> fileID)"
        using st(1) by (auto simp: eq(3) opfs_handlesD(4) [OF host] new(2) st(2) fun_eq_iff)
      moreover have "opened h0 (Access, x) = None"
        using new(1) by (simp add: st(2) split: if_splits)
      ultimately show ?thesis
        using st(3) f(2) by (simp add: opfs_inv_def eq)
    qed
  next
    case reuse
    then have open_st: "os_kind st \<noteq> NotOpen"
      using inv by (simp add: opfs_inv_def)
    then have eq: "r = 0" "st' = st\<lparr>os_openCount := os_openCount st + 1\<rparr>" "h' = h"
      using run reuse(2) by (auto simp: OpenState_open_def writes_def split: if_splits)
    have "writes f \<Longrightarrow> os_kind st = Access"
      using reuse(2) open_st by (cases "os_kind st") auto
    then show ?thesis
      using inv reuse(1) f(2) by (auto simp: opfs_inv_def eq)
  qed
qed

lemma opfs_close_step:
  assumes host: "opfs_handles opened oc" and inv: "opfs_inv opened fileID h0 (fs @ f # gs) st h"
    and run: "OpenState_close oc st h = Some (r, st', h')"
  shows "opfs_inv opened fileID h0 (fs @ gs) st' h'"
proof -
  have st: "os_kind st \<noteq> NotOpen" "opened h0 (os_kind st, os_id st) = None"
      "opened h = (opened h0)((os_kind st, os_id st) \<mapsto> fileID)"
      "(\<exists>g \<in> set (fs @ gs). writes g) \<Longrightarrow> os_kind st = Access"
      "os_openCount st = of_nat (Suc (length (fs @ gs)))" "Suc (length (fs @ gs)) < 2 ^ 32"
    using inv by (auto simp: opfs_inv_def)
  have count: "os_openCount st - 1 = of_nat (length (fs @ gs))"
    by (simp add: st(5))
  have zero: "of_nat (length (fs @ gs)) = (0 :: u32) \<longleftrightarrow> fs @ gs = []"
    using st(6) of_nat_zero_u32 [of "length (fs @ gs)"] by simp
  show ?thesis
  proof (cases "fs @ gs = []")
    case True
    then have c: "os_openCount st - 1 = 0" using count by simp
    have "opened h' = (opened h)((os_kind st, os_id st) := None)" "os_kind st' = NotOpen" "os_openCount st' = 0"
      using run st(1) c opfs_handlesD(3) [OF host, of "os_id st" h] opfs_handlesD(4) [OF host, of "os_id st" h]
      by (auto simp: OpenState_close_def Let_def split: open_kind.splits prod.splits)
    then show ?thesis
      using True st(2,3) by (auto simp: opfs_inv_def fun_eq_iff)
  next
    case False
    then have "os_openCount st - 1 \<noteq> 0" using count zero by simp
    then have "st' = st\<lparr>os_openCount := os_openCount st - 1\<rparr>" "h' = h"
      using run by (auto simp: OpenState_close_def Let_def)
    then show ?thesis
      using st count False by (simp add: opfs_inv_def)
  qed
qed

lemma opfs_run_inv:
  assumes host: "opfs_handles opened oc" and run: "opfs_run oc fileID h0 fs x h"
  shows "of_fileID x = fileID \<and> opfs_inv opened fileID h0 fs (of_state x) h"
  using run
proof induction
  case start
  then show ?case by (simp add: opfs_inv_def OpenState_init_def)
next
  case (opens fs x h f r x' h')
  then obtain st' where st': "OpenState_open oc fileID f (of_state x) h = Some (r, st', h')"
      "x' = x\<lparr>of_state := st'\<rparr>"
    by (auto simp: OPFSFile_open_def)
  show ?case
    using opfs_open_step [OF host _ opens.hyps(2,3) st'(1)] opens.IH st'(2) by simp
next
  case (closes fs f gs x h r x' h')
  then obtain st' where st': "OpenState_close oc (of_state x) h = Some (r, st', h')"
      "x' = x\<lparr>of_state := st'\<rparr>"
    by (auto simp: OPFSFile_close_def)
  show ?case
    using opfs_close_step [OF host conjunct2 [OF closes.IH] st'(1)] closes.IH st'(2) by simp
qed

text \<open>
  C40: However one OPFS file is opened and closed, it holds one handle while any open is outstanding, an
  access handle as soon as one of the opens writes, and none when all are closed; reading then always
  goes through a handle that is open for this file.
\<close>

theorem opfs_one_handle:
  assumes "opfs_handles opened oc" "opfs_run oc fileID h0 fs x h"
  shows "os_openCount (of_state x) = of_nat (length fs) \<and> (fs = [] \<longrightarrow> opened h = opened h0) \<and>
    (fs \<noteq> [] \<longrightarrow> opened h = (opened h0)((os_kind (of_state x), os_id (of_state x)) \<mapsto> fileID) \<and>
      opened h0 (os_kind (of_state x), os_id (of_state x)) = None \<and>
      ((\<exists>f \<in> set fs. writes f) \<longrightarrow> os_kind (of_state x) = Access) \<and>
      OPFSFile_read oc x len off h =
        Some ((if os_kind (of_state x) = Access then oc_read_access oc else oc_read_blob oc)
          (os_id (of_state x)) len (ucast off) h))"
proof -
  have inv: "opfs_inv opened fileID h0 fs (of_state x) h"
    using opfs_run_inv [OF assms] by simp
  have "OPFSFile_read oc x len off h =
      Some ((if os_kind (of_state x) = Access then oc_read_access oc else oc_read_blob oc)
        (os_id (of_state x)) len (ucast off) h)"
    if "os_kind (of_state x) \<noteq> NotOpen"
    using that by (cases "os_kind (of_state x)") (auto simp: OPFSFile_read_def)
  then show ?thesis
    using inv by (cases "fs = []") (simp_all add: opfs_inv_def)
qed

text \<open>A host with a table of handles, for the witness.\<close>

type_synonym handle_host = "((open_kind \<times> u32) \<times> u32) list"

definition handle_new :: "open_kind \<Rightarrow> u32 \<Rightarrow> handle_host \<Rightarrow> u32 \<times> handle_host" where
  "handle_new k f h = (if map_of h (k, 5) = None then (5, ((k, 5), f) # h) else (- 1, h))"

definition handle_free :: "open_kind \<Rightarrow> u32 \<Rightarrow> handle_host \<Rightarrow> handle_host" where
  "handle_free k i h = filter (\<lambda>e. fst e \<noteq> (k, i)) h"

definition handle_calls :: "handle_host opfs_calls" where
  "handle_calls = \<lparr>oc_init_root_directory = id, oc_get_child = \<lambda>_ _ h. ((1, 7), h),
     oc_insert_file = \<lambda>_ _ h. (8, h), oc_insert_directory = \<lambda>_ _ h. (9, h), oc_move_file = \<lambda>_ _ _ h. (0, h),
     oc_remove_child = \<lambda>_ _ h. (0, h), oc_get_entries = \<lambda>_ h. ((0, []), h),
     oc_open_access = handle_new Access, oc_open_blob = handle_new Blob,
     oc_close_access = \<lambda>i h. (0, handle_free Access i h), oc_close_blob = handle_free Blob,
     oc_free_file = \<lambda>_ h. h, oc_free_directory = \<lambda>_ h. h,
     oc_read_access = \<lambda>i len pos h. ((len, replicate (unat len) 1), h),
     oc_read_blob = \<lambda>i len pos h. ((len, replicate (unat len) 2), h),
     oc_write_access = \<lambda>i data pos h. (of_nat (length data), h),
     oc_get_size_access = \<lambda>_ h. (0, h), oc_get_size_blob = \<lambda>_ h. (0, h), oc_get_size_file = \<lambda>_ h. (0, h),
     oc_set_size_access = \<lambda>_ _ h. (0, h), oc_set_size_file = \<lambda>_ _ h. (0, h), oc_flush_access = \<lambda>_ h. (0, h)\<rparr>"

lemma handle_opens: "opfs_handles map_of handle_calls"
proof -
  have "map_of (handle_free k i h) = (map_of h)((k, i) := None)" for k i and h :: handle_host
    by (induction h) (auto simp: handle_free_def fun_eq_iff)
  then show ?thesis
    by (simp add: opfs_handles_def opens_handle_def handle_calls_def handle_new_def)
qed

text \<open>A file opened for reading, then for writing, and read.\<close>

theorem opfs_one_handle_witness:
  "\<exists>x h. opfs_run handle_calls 7 [] [O_WRONLY, O_RDONLY] x h \<and> os_openCount (of_state x) = 2 \<and>
     map_of h = [(Access, 5) \<mapsto> 7] \<and> OPFSFile_read handle_calls x 2 0 h = Some ((2, [1, 1]), h)"
proof -
  let ?x0 = "\<lparr>of_fileID = 7, of_state = OpenState_init\<rparr>"
  let ?x1 = "\<lparr>of_fileID = 7, of_state = \<lparr>os_kind = Blob, os_id = 5, os_openCount = 1\<rparr>\<rparr>"
  let ?x2 = "\<lparr>of_fileID = 7, of_state = \<lparr>os_kind = Access, os_id = 5, os_openCount = 2\<rparr>\<rparr>"
  have 1: "OPFSFile_open handle_calls O_RDONLY ?x0 [] = Some (0, ?x1, [((Blob, 5), 7)])"
    by (simp add: OPFSFile_open_def OpenState_open_def OpenState_init_def OpenState_fresh_def
        handle_calls_def handle_new_def)
  have 2: "OPFSFile_open handle_calls O_WRONLY ?x1 [((Blob, 5), 7)] = Some (0, ?x2, [((Access, 5), 7)])"
    by (simp add: OPFSFile_open_def OpenState_open_def handle_calls_def handle_new_def handle_free_def)
  have "opfs_run handle_calls 7 [] [O_RDONLY] ?x1 [((Blob, 5), 7)]"
    using opfs_run.opens [OF opfs_run.start _ _ 1] by simp
  then have run: "opfs_run handle_calls 7 [] [O_WRONLY, O_RDONLY] ?x2 [((Access, 5), 7)]"
    using opfs_run.opens [OF _ _ _ 2] by fastforce
  have "replicate (unat (2 :: u32)) (1 :: byte) = [1, 1]"
    by code_simp
  then have read: "oc_read_access handle_calls 5 2 0 h = ((2, [1, 1]), h)" for h
    by (simp only: handle_calls_def opfs_calls.simps)
  show ?thesis
    using opfs_one_handle [OF handle_opens run, of 2 0] run
    by (intro exI [of _ ?x2] exI [of _ "[((Access, 5), 7)]"]) (simp add: read)
qed

end
