(* ===== verification/JsFileBackend.thy ===== *)
theory JsFileBackend
  imports OpfsBackend
begin

text \<open>
  The backends whose files are implemented in JavaScript: files with synchronous calls
  (js_impl_backend.h, js_file_backend.cpp), files with proxied asynchronous calls
  (proxied_async_js_impl_backend.h), and files fetched from a URL (fetch_backend.cpp). The JavaScript
  functions are a record of functions on a host of type \<open>'h\<close>. A proxied call waits for its result, so
  both kinds of file are called alike. Directories are those of the memory backend; the directories
  of the fetch backend also know their path.
\<close>

section \<open>Files\<close>

text \<open>The calls take the address of the backend and of the file.\<close>

record 'h jsimpl_calls =
  jc_alloc_file :: "u32 \<Rightarrow> u32 \<Rightarrow> 'h \<Rightarrow> 'h"
  jc_free_file :: "u32 \<Rightarrow> u32 \<Rightarrow> 'h \<Rightarrow> 'h"
  jc_write :: "u32 \<Rightarrow> u32 \<Rightarrow> byte list \<Rightarrow> u64 \<Rightarrow> 'h \<Rightarrow> u32 \<times> 'h"
  jc_read :: "u32 \<Rightarrow> u32 \<Rightarrow> u32 \<Rightarrow> u64 \<Rightarrow> 'h \<Rightarrow> (u32 \<times> byte list) \<times> 'h"
  jc_get_size :: "u32 \<Rightarrow> u32 \<Rightarrow> 'h \<Rightarrow> u32 \<times> 'h"
  jc_get_size_async :: "u32 \<Rightarrow> u32 \<Rightarrow> 'h \<Rightarrow> u64 \<times> 'h"
  jc_set_size :: "u32 \<Rightarrow> u32 \<Rightarrow> u64 \<Rightarrow> 'h \<Rightarrow> u32 \<times> 'h"

record JSImplFile =
  jf_mode :: u32
  jf_backend :: u32
  jf_index :: u32

text \<open>The constructor tells JavaScript about the file, the destructor that it is gone.\<close>

definition JSImplFile_create :: "'h jsimpl_calls \<Rightarrow> u32 \<Rightarrow> u32 \<Rightarrow> u32 \<Rightarrow> 'h \<Rightarrow> JSImplFile \<times> 'h" where
  "JSImplFile_create jc mode backend index h =
    (\<lparr>jf_mode = mode OR S_IFREG, jf_backend = backend, jf_index = index\<rparr>, jc_alloc_file jc backend index h)"

definition JSImplFile_destroy :: "'h jsimpl_calls \<Rightarrow> JSImplFile \<Rightarrow> 'h \<Rightarrow> 'h" where
  "JSImplFile_destroy jc f = jc_free_file jc (jf_backend f) (jf_index f)"

definition JSImplFile_open :: "JSImplFile \<Rightarrow> u32 \<Rightarrow> u32" where
  "JSImplFile_open f flags = 0"

definition JSImplFile_close :: "JSImplFile \<Rightarrow> u32" where
  "JSImplFile_close f = 0"

definition JSImplFile_flush :: "JSImplFile \<Rightarrow> u32" where
  "JSImplFile_flush f = 0"

definition JSImplFile_write :: "'h jsimpl_calls \<Rightarrow> JSImplFile \<Rightarrow> byte list \<Rightarrow> u64 \<Rightarrow> 'h \<Rightarrow> u32 \<times> 'h" where
  "JSImplFile_write jc f = jc_write jc (jf_backend f) (jf_index f)"

definition JSImplFile_read :: "'h jsimpl_calls \<Rightarrow> JSImplFile \<Rightarrow> u32 \<Rightarrow> u64 \<Rightarrow> 'h \<Rightarrow> (u32 \<times> byte list) \<times> 'h" where
  "JSImplFile_read jc f = jc_read jc (jf_backend f) (jf_index f)"

text \<open>The synchronous size is an \<open>int\<close>, converted to \<open>off_t\<close>.\<close>

definition JSImplFile_getSize :: "'h jsimpl_calls \<Rightarrow> JSImplFile \<Rightarrow> 'h \<Rightarrow> u64 \<times> 'h" where
  "JSImplFile_getSize jc f h = (let (n, h) = jc_get_size jc (jf_backend f) (jf_index f) h in (scast n, h))"

definition JSImplFile_setSize :: "'h jsimpl_calls \<Rightarrow> JSImplFile \<Rightarrow> u64 \<Rightarrow> 'h \<Rightarrow> u32 \<times> 'h" where
  "JSImplFile_setSize jc f = jc_set_size jc (jf_backend f) (jf_index f)"

text \<open>The proxied file: its size is an \<open>off_t\<close>, its \<open>setSize\<close> is unreachable.\<close>

definition ProxiedFile_write :: "'h jsimpl_calls \<Rightarrow> JSImplFile \<Rightarrow> byte list \<Rightarrow> u64 \<Rightarrow> 'h \<Rightarrow> u32 \<times> 'h" where
  "ProxiedFile_write jc f = jc_write jc (jf_backend f) (jf_index f)"

definition ProxiedFile_read :: "'h jsimpl_calls \<Rightarrow> JSImplFile \<Rightarrow> u32 \<Rightarrow> u64 \<Rightarrow> 'h \<Rightarrow> (u32 \<times> byte list) \<times> 'h" where
  "ProxiedFile_read jc f = jc_read jc (jf_backend f) (jf_index f)"

definition ProxiedFile_getSize :: "'h jsimpl_calls \<Rightarrow> JSImplFile \<Rightarrow> 'h \<Rightarrow> u64 \<times> 'h" where
  "ProxiedFile_getSize jc f = jc_get_size_async jc (jf_backend f) (jf_index f)"

definition ProxiedFile_setSize :: "JSImplFile \<Rightarrow> u64 \<Rightarrow> 'h \<Rightarrow> (u32 \<times> 'h) option" where
  "ProxiedFile_setSize f sz h = None"

definition ProxiedFile_create :: "'h jsimpl_calls \<Rightarrow> u32 \<Rightarrow> u32 \<Rightarrow> u32 \<Rightarrow> 'h \<Rightarrow> JSImplFile \<times> 'h" where
  "ProxiedFile_create jc mode backend index h =
    (\<lparr>jf_mode = mode OR S_IFREG, jf_backend = backend, jf_index = index\<rparr>, jc_alloc_file jc backend index h)"

definition ProxiedFile_destroy :: "'h jsimpl_calls \<Rightarrow> JSImplFile \<Rightarrow> 'h \<Rightarrow> 'h" where
  "ProxiedFile_destroy jc f = jc_free_file jc (jf_backend f) (jf_index f)"

section \<open>The fetch backend\<close>

text \<open>
  A file with its URL, a directory with its path and the children of the memory backend's directory.
  The address of a new file object is an argument.
\<close>

datatype fetch_node =
    FetchFile string JSImplFile
  | FetchDirectory string u32 "(string \<times> fetch_node) list"

fun fetch_path :: "fetch_node \<Rightarrow> string" where
  "fetch_path (FetchFile p _) = p"
| "fetch_path (FetchDirectory p _ _) = p"

definition fetch_getChildPath :: "string \<Rightarrow> string \<Rightarrow> string" where
  "fetch_getChildPath dirPath name = dirPath @ CHR ''/'' # name"

definition FetchFile_create ::
    "'h jsimpl_calls \<Rightarrow> string \<Rightarrow> u32 \<Rightarrow> u32 \<Rightarrow> u32 \<Rightarrow> 'h \<Rightarrow> fetch_node \<times> 'h" where
  "FetchFile_create jc path mode backend index h =
    (let (f, h) = ProxiedFile_create jc mode backend index h in (FetchFile path f, h))"

text \<open>The two insertions, on a directory; \<open>insertChild\<close> appends. The new child is the last.\<close>

fun FetchDirectory_insertDataFile ::
    "'h jsimpl_calls \<Rightarrow> u32 \<Rightarrow> u32 \<Rightarrow> fetch_node \<Rightarrow> string \<Rightarrow> u32 \<Rightarrow> 'h \<Rightarrow> (fetch_node \<times> 'h) option" where
  "FetchDirectory_insertDataFile jc backend index (FetchDirectory p m es) name mode h =
    (let (child, h) = FetchFile_create jc (fetch_getChildPath p name) mode backend index h in
     Some (FetchDirectory p m (es @ [(name, child)]), h))"
| "FetchDirectory_insertDataFile jc backend index (FetchFile _ _) name mode h = None"

fun FetchDirectory_insertDirectory :: "fetch_node \<Rightarrow> string \<Rightarrow> u32 \<Rightarrow> fetch_node option" where
  "FetchDirectory_insertDirectory (FetchDirectory p m es) name mode =
    Some (FetchDirectory p m (es @ [(name, FetchDirectory (fetch_getChildPath p name) (mode OR S_IFDIR) [])]))"
| "FetchDirectory_insertDirectory (FetchFile _ _) name mode = None"

definition FetchBackend_createFile ::
    "'h jsimpl_calls \<Rightarrow> string \<Rightarrow> u32 \<Rightarrow> u32 \<Rightarrow> u32 \<Rightarrow> 'h \<Rightarrow> fetch_node \<times> 'h" where
  "FetchBackend_createFile jc baseUrl mode backend index = FetchFile_create jc baseUrl mode backend index"

definition FetchBackend_createDirectory :: "string \<Rightarrow> u32 \<Rightarrow> fetch_node" where
  "FetchBackend_createDirectory baseUrl mode = FetchDirectory baseUrl (mode OR S_IFDIR) []"

definition fetch_get_file_path :: "fetch_node option \<Rightarrow> string option" where
  "fetch_get_file_path ptr = map_option fetch_path ptr"

text \<open>Every node below the root of the backend has the URL its names spell.\<close>

inductive fetch_at :: "fetch_node \<Rightarrow> string list \<Rightarrow> fetch_node \<Rightarrow> bool" where
  here: "fetch_at n [] n"
| below: "(name, c) \<in> set es \<Longrightarrow> fetch_at c ks n \<Longrightarrow> fetch_at (FetchDirectory p m es) (name # ks) n"

fun fetch_url :: "string \<Rightarrow> string list \<Rightarrow> string" where
  "fetch_url base [] = base"
| "fetch_url base (name # ks) = fetch_url (fetch_getChildPath base name) ks"

definition urls_ok :: "fetch_node \<Rightarrow> bool" where
  "urls_ok r \<longleftrightarrow> (\<forall>ks n. fetch_at r ks n \<longrightarrow> fetch_path n = fetch_url (fetch_path r) ks)"

inductive_cases fetch_at_FileE: "fetch_at (FetchFile p f) ks n"
inductive_cases fetch_at_DirE: "fetch_at (FetchDirectory p m es) ks n"

lemma urls_ok_Dir:
  "urls_ok (FetchDirectory p m es) \<longleftrightarrow>
    (\<forall>(name, c) \<in> set es. fetch_path c = fetch_getChildPath p name \<and> urls_ok c)"
proof
  assume ok: "urls_ok (FetchDirectory p m es)"
  have "fetch_path c = fetch_getChildPath p name \<and> urls_ok c" if c: "(name, c) \<in> set es" for name c
  proof -
    have at: "fetch_path n = fetch_url (fetch_getChildPath p name) ks" if "fetch_at c ks n" for ks n
      using ok fetch_at.below [OF c that] by (fastforce simp: urls_ok_def)
    have "fetch_path c = fetch_getChildPath p name"
      using at [OF fetch_at.here] by simp
    then show ?thesis
      using at by (simp add: urls_ok_def)
  qed
  then show "\<forall>(name, c) \<in> set es. fetch_path c = fetch_getChildPath p name \<and> urls_ok c"
    by blast
next
  assume "\<forall>(name, c) \<in> set es. fetch_path c = fetch_getChildPath p name \<and> urls_ok c"
  then show "urls_ok (FetchDirectory p m es)"
    by (fastforce simp: urls_ok_def elim!: fetch_at_DirE)
qed

lemma urls_ok_File: "urls_ok (FetchFile p f)"
  by (auto simp: urls_ok_def elim: fetch_at_FileE)

text \<open>Insertions keep the URLs right.\<close>

lemma urls_ok_insert:
  assumes "urls_ok d"
  shows "FetchDirectory_insertDataFile jc backend index d name mode h = Some (d', h') \<Longrightarrow> urls_ok d'"
    "FetchDirectory_insertDirectory d name mode = Some d' \<Longrightarrow> urls_ok d'"
  using assms
  by (cases d; auto simp: urls_ok_Dir FetchFile_create_def urls_ok_File split: prod.splits)+

end
