(* ===== verification/Fuzz.thy ===== *)
theory Fuzz
  imports JsFileBackend
begin

text \<open>
  The parts of the test driver that compute: the generator of random data (random.cpp), the check of
  what a reader read (workload.cpp) and the command line (command-line.cpp). The threads of the
  workload are in the theory Workload.
\<close>

section \<open>Random data\<close>

text \<open>
  The seed bytes are signed characters. \<open>xorFactor\<close> is an \<open>int\<close> that is added to as an unsigned
  number. \<open>None\<close> is a read outside the vector, which only an empty seed gives.
\<close>

record rng =
  rg_bytes :: "byte list"
  rg_pos :: nat
  rg_finished :: bool
  rg_xor :: u32

definition rng_get :: "rng \<Rightarrow> (byte \<times> rng) option" where
  "rng_get st =
    (let st = (if rg_pos st = length (rg_bytes st)
               then st\<lparr>rg_finished := True, rg_pos := 0, rg_xor := rg_xor st + 1\<rparr> else st) in
     if rg_pos st < length (rg_bytes st)
     then Some (ucast ((scast (rg_bytes st ! rg_pos st) :: u32) XOR rg_xor st), st\<lparr>rg_pos := Suc (rg_pos st)\<rparr>)
     else None)"

text \<open>The wider numbers: each half is sign-extended before the two are combined.\<close>

definition rng_get16 :: "rng \<Rightarrow> (u16 \<times> rng) option" where
  "rng_get16 st =
    Option.bind (rng_get st) (\<lambda>(a, st). Option.bind (rng_get st) (\<lambda>(b, st).
      Some (push_bit 8 (scast a) OR scast b, st)))"

definition rng_get32 :: "rng \<Rightarrow> (u32 \<times> rng) option" where
  "rng_get32 st =
    Option.bind (rng_get16 st) (\<lambda>(a, st). Option.bind (rng_get16 st) (\<lambda>(b, st).
      Some (push_bit 16 (scast a) OR scast b, st)))"

definition rng_get64 :: "rng \<Rightarrow> (u64 \<times> rng) option" where
  "rng_get64 st =
    Option.bind (rng_get32 st) (\<lambda>(a, st). Option.bind (rng_get32 st) (\<lambda>(b, st).
      Some (push_bit 32 (scast a) OR scast b, st)))"

definition rng_raw :: "u32 \<Rightarrow> rng \<Rightarrow> (u32 \<times> rng) option" where
  "rng_raw x st =
    (if x \<le> 255 then map_option (\<lambda>(r, st). (scast r, st)) (rng_get st)
     else if x \<le> 65535 then map_option (\<lambda>(r, st). (scast r, st)) (rng_get16 st)
     else rng_get32 st)"

definition rng_upTo :: "u32 \<Rightarrow> rng \<Rightarrow> (u32 \<times> rng) option" where
  "rng_upTo x st =
    (if x = 0 then Some (0, st)
     else Option.bind (rng_raw x st) (\<lambda>(raw, st). Some (raw mod x, st\<lparr>rg_xor := rg_xor st + raw div x\<rparr>)))"

definition alphanum :: string where
  "alphanum = ''0123456789ABCDEFGHIJKLMNOPQRSTUVWXYZabcdefghijklmnopqrstuvwxyz''"

text \<open>The size is a signed byte; a negative one gives no characters.\<close>

fun rng_chars :: "nat \<Rightarrow> rng \<Rightarrow> (string \<times> rng) option" where
  "rng_chars 0 st = Some ([], st)"
| "rng_chars (Suc n) st =
    Option.bind (rng_upTo 62 st) (\<lambda>(i, st). Option.bind (rng_chars n st) (\<lambda>(cs, st).
      Some (alphanum ! unat i # cs, st)))"

definition rng_getString :: "byte \<Rightarrow> rng \<Rightarrow> (string \<times> rng) option" where
  "rng_getString sz = rng_chars (nat (sint sz))"

definition rng_getSingleSymbolString :: "u32 \<Rightarrow> rng \<Rightarrow> (string \<times> rng) option" where
  "rng_getSingleSymbolString len st = map_option (\<lambda>(s, st). (replicate (unat len) (hd s), st)) (rng_getString 1 st)"

text \<open>What the driver relies on: bounds, and strings of one alphanumeric character.\<close>

lemma rng_upTo_bound: "rng_upTo x st = Some (r, st') \<Longrightarrow> x \<noteq> 0 \<Longrightarrow> r < x"
  by (auto simp: rng_upTo_def bind_eq_Some_conv word_mod_less_divisor word_gt_0)

lemma rng_chars_alphanum:
  "rng_chars n st = Some (cs, st') \<Longrightarrow> length cs = n \<and> set cs \<subseteq> set alphanum"
proof (induction n arbitrary: st cs)
  case (Suc n)
  then obtain i st1 ds st2 where i: "rng_upTo 62 st = Some (i, st1)" "rng_chars n st1 = Some (ds, st2)"
      "cs = alphanum ! unat i # ds" "st' = st2"
    by (auto simp: bind_eq_Some_conv)
  have "i < 62" by (rule rng_upTo_bound [OF i(1)]) simp
  then have "unat i < unat (62 :: u32)" by (simp only: word_less_nat_alt)
  then have "unat i < length alphanum" by (simp add: alphanum_def)
  then show ?case
    using Suc.IH [OF i(2)[folded i(4)]] i(3) by simp
qed simp

lemma single_symbol:
  assumes "rng_getSingleSymbolString len st = Some (s, st')"
  shows "length s = unat len \<and> (\<exists>c \<in> set alphanum. set s \<subseteq> {c})"
proof -
  have "nat (sint (1 :: byte)) = Suc 0" by simp
  then obtain cs where cs: "rng_chars (Suc 0) st = Some (cs, st')" "s = replicate (unat len) (hd cs)"
    using assms by (auto simp: rng_getSingleSymbolString_def rng_getString_def simp del: rng_chars.simps)
  then have "hd cs \<in> set alphanum"
    using rng_chars_alphanum [OF cs(1)] by (cases cs) auto
  then show ?thesis
    by (auto simp: cs(2))
qed

text \<open>A low half that is negative fills the high half: the first byte is lost.\<close>

lemma rng_get16_loses_a_byte:
  "rng_get16 \<lparr>rg_bytes = [1, 0x80], rg_pos = 0, rg_finished = False, rg_xor = 0\<rparr> =
    Some (0xFF80, \<lparr>rg_bytes = [1, 0x80], rg_pos = 2, rg_finished = False, rg_xor = 0\<rparr>)"
  by code_simp

section \<open>Seeds\<close>

text \<open>
  \<open>Fuzzer::run\<close> fills 4096 bytes with the numbers of a generator of the standard library, which is an
  argument: its state and its next 64-bit number. Numbers are stored little end first.
\<close>

fun seed_bytes :: "('g \<Rightarrow> u64 \<times> 'g) \<Rightarrow> nat \<Rightarrow> 'g \<Rightarrow> byte list" where
  "seed_bytes getRand 0 g = []"
| "seed_bytes getRand (Suc n) g = (let (w, g) = getRand g in bytes_of_u64 w @ seed_bytes getRand n g)"

definition NUM_RAND_BYTES :: nat where
  "NUM_RAND_BYTES = 4096"

definition Fuzzer_rng :: "(u64 \<Rightarrow> 'g) \<Rightarrow> ('g \<Rightarrow> u64 \<times> 'g) \<Rightarrow> u64 \<Rightarrow> rng" where
  "Fuzzer_rng engine getRand seed =
    \<lparr>rg_bytes = seed_bytes getRand (NUM_RAND_BYTES div 8) (engine seed), rg_pos = 0, rg_finished = False, rg_xor = 0\<rparr>"

lemma length_seed_bytes: "length (seed_bytes getRand n g) = 8 * n"
  by (induction n arbitrary: g) (simp_all add: bytes_of_u64_def split: prod.split)

section \<open>The check of a reader\<close>

text \<open>All characters but the last, which is the terminator, are one character.\<close>

fun isSame_loop :: "char list \<Rightarrow> char list \<Rightarrow> bool" where
  "isSame_loop seen [] = True"
| "isSame_loop seen (c # cs) =
    (let seen = (if c \<in> set seen then seen else c # seen) in if 1 < length seen then False else isSame_loop seen cs)"

definition isSame :: "char list \<Rightarrow> bool" where
  "isSame tgt = isSame_loop [] (butlast tgt)"

lemma isSame_loop_one: "isSame_loop [c] cs \<longleftrightarrow> set cs \<subseteq> {c}"
  by (induction cs) auto

lemma isSame_iff: "isSame tgt \<longleftrightarrow> (\<exists>c. set (butlast tgt) \<subseteq> {c})"
proof (cases "butlast tgt")
  case (Cons c cs)
  then show ?thesis by (auto simp: isSame_def isSame_loop_one)
qed (simp add: isSame_def)

section \<open>The command line\<close>

datatype Arguments = ArgZero | ArgOne | ArgN | ArgOptional

record 'a option_spec =
  op_longName :: string
  op_shortName :: string
  op_description :: string
  op_arguments :: Arguments
  op_action :: "string \<Rightarrow> 'a \<Rightarrow> 'a"
  op_hidden :: bool
  op_seen :: nat

datatype cmd_error =
    UnexpectedPositional string | SecondPositional string | UnknownOption string
  | UnexpectedArgument string | SecondArgument string | MissingArgument string

text \<open>\<open>Options::add\<close>; what the driver's actions change is the state \<open>'a\<close>.\<close>

definition Options_add ::
    "string \<Rightarrow> string \<Rightarrow> string \<Rightarrow> Arguments \<Rightarrow> (string \<Rightarrow> 'a \<Rightarrow> 'a) \<Rightarrow> bool \<Rightarrow>
     'a option_spec list \<Rightarrow> 'a option_spec list" where
  "Options_add longName shortName description arguments action hidden options =
    options @ [\<lparr>op_longName = longName, op_shortName = shortName, op_description = description,
      op_arguments = arguments, op_action = action, op_hidden = hidden, op_seen = 0\<rparr>]"

definition Options_add_positional ::
    "string \<Rightarrow> Arguments \<Rightarrow> (string \<Rightarrow> 'a \<Rightarrow> 'a) \<Rightarrow> string \<times> Arguments \<times> (string \<Rightarrow> 'a \<Rightarrow> 'a)" where
  "Options_add_positional name arguments action = (name, arguments, action)"

definition dashes :: "string \<Rightarrow> nat" where
  "dashes s = length (takeWhile (\<lambda>c. c = CHR ''-'') s)"

text \<open>The name before the first \<open>=\<close> and the argument after it.\<close>

definition split_option :: "string \<Rightarrow> string \<times> string" where
  "split_option s = (takeWhile (\<lambda>c. c \<noteq> CHR ''='') s, drop 1 (dropWhile (\<lambda>c. c \<noteq> CHR ''='') s))"

text \<open>The loop over the options goes on after a match: the last one that has the name counts.\<close>

fun find_option :: "string \<Rightarrow> 'a option_spec list \<Rightarrow> nat \<Rightarrow> nat option \<Rightarrow> nat option" where
  "find_option name [] i found = found"
| "find_option name (x # xs) i found =
    find_option name xs (Suc i) (if op_longName x = name \<or> op_shortName x = name then Some i else found)"

definition run_option :: "nat \<Rightarrow> string \<Rightarrow> 'a option_spec list \<Rightarrow> 'a \<Rightarrow> 'a option_spec list \<times> 'a" where
  "run_option i arg xs a =
    (xs[i := (xs ! i)\<lparr>op_seen := Suc (op_seen (xs ! i))\<rparr>], op_action (xs ! i) arg a)"

fun parse_args ::
    "Arguments \<times> (string \<Rightarrow> 'a \<Rightarrow> 'a) \<Rightarrow> nat \<Rightarrow> string list \<Rightarrow> 'a option_spec list \<Rightarrow> 'a \<Rightarrow>
     cmd_error + 'a option_spec list \<times> 'a" where
  "parse_args pos seen [] xs a = Inr (xs, a)"
| "parse_args pos seen (cur # rest) xs a =
    (if dashes cur = 0 \<or> cur = ''-'' then
       if fst pos = ArgZero \<or> fst pos = ArgOptional then Inl (UnexpectedPositional cur)
       else if fst pos = ArgOne \<and> seen \<noteq> 0 then Inl (SecondPositional cur)
       else parse_args pos (Suc seen) rest xs (snd pos cur a)
     else
       let (name, arg) = split_option cur in
       (case find_option name xs 0 None of
          None \<Rightarrow> Inl (UnknownOption name)
        | Some i \<Rightarrow>
            let x = xs ! i in
            if op_arguments x = ArgZero then
              if arg \<noteq> [] then Inl (UnexpectedArgument arg)
              else let (xs, a) = run_option i arg xs a in parse_args pos seen rest xs a
            else if op_arguments x = ArgOne \<and> op_seen x \<noteq> 0 then Inl (SecondArgument arg)
            else if op_arguments x \<noteq> ArgOptional \<and> arg = [] then
              (case rest of
                 [] \<Rightarrow> Inl (MissingArgument name)
               | arg # rest \<Rightarrow> let (xs, a) = run_option i arg xs a in parse_args pos seen rest xs a)
            else let (xs, a) = run_option i arg xs a in parse_args pos seen rest xs a))"

text \<open>The argument vector without the name of the program.\<close>

definition parse_command :: "Arguments \<times> (string \<Rightarrow> 'a \<Rightarrow> 'a) \<Rightarrow> string list \<Rightarrow> 'a option_spec list \<Rightarrow> 'a \<Rightarrow>
     cmd_error + 'a option_spec list \<times> 'a" where
  "parse_command pos argv = parse_args pos 0 (tl argv)"

text \<open>Text wrapped to 80 columns, with a margin for every line after the first.\<close>

definition wrap_word :: "int \<Rightarrow> char option \<Rightarrow> int \<times> string \<times> string \<Rightarrow> int \<times> string \<times> string" where
  "wrap_word leftPad c st =
    (case st of (space, word, out) \<Rightarrow>
       if c \<noteq> None \<and> c \<noteq> Some CHR '' '' \<and> c \<noteq> Some (CHR 0x0A) then (space, word @ [the c], out)
       else
         let (space, out) =
               (if space < int (length word)
                then (80 - leftPad, out @ [CHR 0x0A] @ replicate (nat leftPad) (CHR '' '')) else (space, out));
             out = out @ word;
             space = space - (int (length word) + 1);
             out = (if 0 < space then out @ '' '' else out) in
         if c = Some (CHR 0x0A) then (80 - leftPad, [], out @ [CHR 0x0A]) else (space, [], out))"

definition printWrap :: "int \<Rightarrow> string \<Rightarrow> string" where
  "printWrap leftPad content =
    snd (snd (fold (wrap_word leftPad) (map Some content @ [None]) (80 - leftPad, [], [])))"

text \<open>The message of \<open>--help\<close>: the names of the options in a column, the descriptions wrapped beside it.\<close>

definition optionWidth :: "'a option_spec list \<Rightarrow> nat" where
  "optionWidth options =
    fold (\<lambda>x w. max w (length (op_longName x) + length (op_shortName x))) (filter (\<lambda>x. \<not> op_hidden x) options) 0"

definition help_line :: "nat \<Rightarrow> 'a option_spec \<Rightarrow> string" where
  "help_line width x =
    (let long_n_short = op_longName x \<noteq> [] \<and> op_shortName x \<noteq> [];
         pad = 1 + width - length (op_longName x) - length (op_shortName x) in
     [CHR 0x0A] @ ''  '' @ op_longName x @ (if long_n_short then '','' else '' '') @ op_shortName x @
     replicate pad (CHR '' '') @ printWrap (int (width + 4)) (op_description x) @ [CHR 0x0A])"

definition help_text :: "string \<Rightarrow> string \<Rightarrow> Arguments \<Rightarrow> string \<Rightarrow> 'a option_spec list \<Rightarrow> string" where
  "help_text command description positional positionalName options =
    command @ (if positional \<noteq> ArgZero then '' '' @ positionalName else []) @ [CHR 0x0A, CHR 0x0A] @
    printWrap 0 description @ [CHR 0x0A, CHR 0x0A] @ ''Options:'' @ [CHR 0x0A] @
    concat (map (help_line (optionWidth options)) (filter (\<lambda>x. \<not> op_hidden x) options)) @ [CHR 0x0A]"

text \<open>The padding of a listed option is never negative, so the columns are aligned.\<close>

lemma optionWidth_ge:
  assumes "x \<in> set options" "\<not> op_hidden x"
  shows "length (op_longName x) + length (op_shortName x) \<le> optionWidth options"
proof -
  have mono: "w \<le> fold (\<lambda>x w. max w (len x)) xs w" for len :: "'a option_spec \<Rightarrow> nat" and xs w
  proof (induction xs arbitrary: w)
    case (Cons y ys)
    show ?case
      using le_trans [OF max.cobounded1 Cons.IH [of "max w (len y)"]] by simp
  qed simp
  have ge: "len x \<le> fold (\<lambda>x w. max w (len x)) xs w" if "x \<in> set xs" for len :: "'a option_spec \<Rightarrow> nat" and xs w
    using that
  proof (induction xs arbitrary: w)
    case (Cons y ys)
    then show ?case
      using mono [of "max w (len x)" len ys] by (cases "y = x") auto
  qed simp
  show ?thesis
    unfolding optionWidth_def
    by (rule ge [of _ "\<lambda>x. length (op_longName x) + length (op_shortName x)"]) (use assms in simp)
qed

text \<open>An option that takes one argument is never given two: the second is an error.\<close>

lemma parse_one_argument:
  "case parse_command (ArgZero, \<lambda>_ a. a) [''prog'', ''--seed=1'', ''--seed'', ''2'']
     (Options_add ''--seed'' '''' '''' ArgOne (\<lambda>s _. s) False []) [] of
   Inl e \<Rightarrow> e = SecondArgument [] | Inr _ \<Rightarrow> False"
  by code_simp

lemma parse_one_option:
  "case parse_command (ArgZero, \<lambda>_ a. a) [''prog'', ''--seed'', ''42'']
     (Options_add ''--seed'' '''' '''' ArgOne (\<lambda>s _. s) False []) [] of
   Inr (_, s) \<Rightarrow> s = ''42'' | _ \<Rightarrow> False"
  by code_simp

end
