(* ===== verification/Workload.thy ===== *)
theory Workload
  imports Fuzz
begin

text \<open>
  The workload of the test driver (workload.cpp): one writer and twenty readers on one file. Every
  thread is a state machine whose step is a function of the shared state; the system interleaves them
  in any order. A system call is one step: \<open>writeAtOffset\<close> and \<open>readAtOffset\<close> hold the locks of the open
  file and of the file from before their first access to the end. Assertions that fail, and calls whose
  behaviour is undefined, lead to a failed state, which no interleaving reaches.
\<close>

section \<open>The shared state\<close>

text \<open>
  The functions of libc that only the driver calls, beside those of \<open>libc\<close>; \<open>fuzz_libc_wraps\<close> says
  which system call each one makes.
\<close>

record fuzz_libc = libc +
  lc_creat :: "string \<Rightarrow> u32 \<Rightarrow> u32 \<Rightarrow> syscall"
  lc_pwrite :: "u32 \<Rightarrow> u32 \<Rightarrow> u32 \<Rightarrow> u64 \<Rightarrow> syscall"
  lc_unlink :: "string \<Rightarrow> syscall"

definition fuzz_libc_wraps :: "fuzz_libc \<Rightarrow> bool" where
  "fuzz_libc_wraps lc \<longleftrightarrow>
    (\<forall>path flags mode s. lc_creat lc path flags mode s =
      map_option (\<lambda>(r, t). (libc_result r, t)) (syscall_openat AT_FDCWD path flags mode s)) \<and>
    (\<forall>fd buf len off s. lc_pread lc fd buf len off s =
      map_option (\<lambda>((e, n), t). (if e \<noteq> 0 then - 1 else (case n of None \<Rightarrow> 0 | Some n \<Rightarrow> n), t))
        (wasi_fd_pread fd [\<lparr>iov_buf = buf, iov_len = len\<rparr>] off s)) \<and>
    (\<forall>fd buf len off s. lc_pwrite lc fd buf len off s =
      map_option (\<lambda>((e, n), t). (if e \<noteq> 0 then - 1 else (case n of None \<Rightarrow> 0 | Some n \<Rightarrow> n), t))
        (wasi_fd_pwrite fd [\<lparr>iov_buf = buf, iov_len = len\<rparr>] off s)) \<and>
    (\<forall>path s. lc_unlink lc path s =
      map_option (\<lambda>(r, t). (libc_result r, t)) (syscall_unlinkat AT_FDCWD path 0 s)) \<and>
    (\<forall>fd s. lc_close lc fd s =
      Some (case wasi_fd_close fd s of (e, t) \<Rightarrow> (if e \<noteq> 0 then - 1 else 0, t)))"

text \<open>parameters.h\<close>

definition NUM_WRITERS :: nat where "NUM_WRITERS = 1"
definition NUM_READERS :: nat where "NUM_READERS = 20"
definition FILE_SIZE :: u32 where "FILE_SIZE = 20000000"
definition MAX_WORK :: u32 where "MAX_WORK = 10"

text \<open>Where each thread is; what a thread has in local variables is in its constructor.\<close>

datatype writer_pc = WWait | WLoop | WPick u32 | WCheck u32 u32 | WDone | WFailed
datatype reader_pc = RWait | RLoop | RCheck u32 "char list" | RDone | RFailed
datatype main_pc = MOpen | MFill | MSpawn | MGo | MSleep | MJoin | MUnlink | MClose | MEnd | MFailed

text \<open>\<open>ReadWrite\<close>, the random generator it refers to, and the threads.\<close>

record fuzz =
  fz_fs :: fs
  fz_rng :: rng
  fz_fd :: u32
  fz_go :: bool
  fz_stop :: bool
  fz_main :: main_pc
  fz_writers :: "writer_pc list"
  fz_readers :: "reader_pc list"

section \<open>The threads\<close>

text \<open>The strings to be written: a number of strings of one symbol.\<close>

fun make_strings :: "nat \<Rightarrow> u32 \<Rightarrow> rng \<Rightarrow> (string list \<times> rng) option" where
  "make_strings 0 sz st = Some ([], st)"
| "make_strings (Suc n) sz st =
    Option.bind (rng_getSingleSymbolString sz st) (\<lambda>(s, st). Option.bind (make_strings n sz st) (\<lambda>(ss, st).
      Some (s # ss, st)))"

definition make_work :: "u32 \<Rightarrow> rng \<Rightarrow> (string list \<times> rng) option" where
  "make_work sz st = Option.bind (rng_upTo MAX_WORK st) (\<lambda>(n, st). make_strings (unat (1 + n)) sz st)"

text \<open>
  \<open>writer\<close>: the string it writes is at \<open>a\<close>. The length of a string is a \<open>size_t\<close>, to which the result
  is compared after conversion to unsigned.
\<close>

fun writer_next :: "fuzz_libc \<Rightarrow> string list \<Rightarrow> u32 \<Rightarrow> writer_pc \<Rightarrow> fuzz \<Rightarrow> writer_pc \<times> fuzz" where
  "writer_next lc work a WWait z = (if fz_go z then WLoop else WWait, z)"
| "writer_next lc work a WLoop z =
    (if fz_stop z then (WDone, z)
     else (case rng_upTo (of_nat (length work)) (fz_rng z) of
             None \<Rightarrow> (WFailed, z)
           | Some (current, st) \<Rightarrow> (WPick current, z\<lparr>fz_rng := st\<rparr>)))"
| "writer_next lc work a (WPick current) z =
    (case lc_pwrite lc (fz_fd z) a (of_nat (length (work ! unat current))) 0 (fz_fs z) of
       None \<Rightarrow> (WFailed, z)
     | Some (bytesWritten, s) \<Rightarrow> (WCheck current bytesWritten, z\<lparr>fz_fs := s\<rparr>))"
| "writer_next lc work a (WCheck current bytesWritten) z =
    (if bytesWritten = of_nat (length (work ! unat current)) then WLoop else WFailed, z)"
| "writer_next lc work a WDone z = (WDone, z)"
| "writer_next lc work a WFailed z = (WFailed, z)"

text \<open>\<open>reader\<close>: its buffer at \<open>a\<close> is cleared, and has room for a terminator.\<close>

fun reader_next :: "fuzz_libc \<Rightarrow> string list \<Rightarrow> u32 \<Rightarrow> reader_pc \<Rightarrow> fuzz \<Rightarrow> reader_pc \<times> fuzz" where
  "reader_next lc work a RWait z = (if fz_go z then RLoop else RWait, z)"
| "reader_next lc work a RLoop z =
    (if fz_stop z then (RDone, z)
     else
       let size = of_nat (length (hd work));
           s = fz_fs z;
           s = s\<lparr>fs_mem := mem_store a (replicate (Suc (unat size)) 0) (fs_mem s)\<rparr> in
       (case lc_pread lc (fz_fd z) a size 0 s of
          None \<Rightarrow> (RFailed, z)
        | Some (bytesRead, s) \<Rightarrow>
            (RCheck bytesRead (map (\<lambda>b. char_of (unat b)) (mem_read s a (size + 1))), z\<lparr>fz_fs := s\<rparr>)))"
| "reader_next lc work a (RCheck bytesRead buf) z =
    (if bytesRead = of_nat (length (hd work)) \<and> isSame buf then RLoop else RFailed, z)"
| "reader_next lc work a RDone z = (RDone, z)"
| "reader_next lc work a RFailed z = (RFailed, z)"

text \<open>\<open>execute\<close>, after the strings have been made; the first string is at \<open>a\<close>.\<close>

fun main_next :: "fuzz_libc \<Rightarrow> string list \<Rightarrow> u32 \<Rightarrow> main_pc \<Rightarrow> fuzz \<Rightarrow> main_pc \<times> fuzz" where
  "main_next lc work a MOpen z =
    (case lc_creat lc ''test'' (O_CREAT OR O_RDWR) 0x1FF (fz_fs z) of
       None \<Rightarrow> (MFailed, z)
     | Some (fd, s) \<Rightarrow> (if fd = - 1 then MFailed else MFill, z\<lparr>fz_fd := fd, fz_fs := s\<rparr>))"
| "main_next lc work a MFill z =
    (case lc_pwrite lc (fz_fd z) a (of_nat (length (hd work))) 0 (fz_fs z) of
       None \<Rightarrow> (MFailed, z)
     | Some (r, s) \<Rightarrow> (if r = - 1 then MFailed else MSpawn, z\<lparr>fz_fs := s\<rparr>))"
| "main_next lc work a MSpawn z =
    (MGo, z\<lparr>fz_writers := replicate NUM_WRITERS WWait, fz_readers := replicate NUM_READERS RWait\<rparr>)"
| "main_next lc work a MGo z = (MSleep, z\<lparr>fz_go := True\<rparr>)"
| "main_next lc work a MSleep z = (MJoin, z\<lparr>fz_stop := True\<rparr>)"
| "main_next lc work a MJoin z =
    (if list_all (\<lambda>pc. pc = WDone) (fz_writers z) \<and> list_all (\<lambda>pc. pc = RDone) (fz_readers z)
     then MUnlink else MJoin, z)"
| "main_next lc work a MUnlink z =
    (case lc_unlink lc ''test'' (fz_fs z) of
       None \<Rightarrow> (MFailed, z) | Some (_, s) \<Rightarrow> (MClose, z\<lparr>fz_fs := s\<rparr>))"
| "main_next lc work a MClose z =
    (case lc_close lc (fz_fd z) (fz_fs z) of
       None \<Rightarrow> (MFailed, z) | Some (_, s) \<Rightarrow> (MEnd, z\<lparr>fz_fs := s\<rparr>))"
| "main_next lc work a MEnd z = (MEnd, z)"
| "main_next lc work a MFailed z = (MFailed, z)"

section \<open>Interleavings\<close>

text \<open>
  One step of the system is a step of one thread, or of code that changes other parts of the memory.
  A string that is about to be written is at its address, which is not null.
\<close>

definition holds_at :: "fuzz \<Rightarrow> u32 \<Rightarrow> string \<Rightarrow> bool" where
  "holds_at z a str \<longleftrightarrow> a \<noteq> 0 \<and> mem_read (fz_fs z) a (of_nat (length str)) = map of_char str"

inductive fuzz_step :: "fuzz_libc \<Rightarrow> string list \<Rightarrow> fuzz \<Rightarrow> fuzz \<Rightarrow> bool" for lc work where
  writer: "i < length (fz_writers z) \<Longrightarrow>
    (\<And>k. fz_writers z ! i = WPick k \<Longrightarrow> holds_at z a (work ! unat k)) \<Longrightarrow>
    writer_next lc work a (fz_writers z ! i) z = (pc, z') \<Longrightarrow>
    fuzz_step lc work z (z'\<lparr>fz_writers := (fz_writers z')[i := pc]\<rparr>)"
| reader: "i < length (fz_readers z) \<Longrightarrow> a \<noteq> 0 \<Longrightarrow>
    reader_next lc work a (fz_readers z ! i) z = (pc, z') \<Longrightarrow>
    fuzz_step lc work z (z'\<lparr>fz_readers := (fz_readers z')[i := pc]\<rparr>)"
| main: "(fz_main z = MFill \<Longrightarrow> holds_at z a (hd work)) \<Longrightarrow>
    main_next lc work a (fz_main z) z = (pc, z') \<Longrightarrow>
    fuzz_step lc work z (z'\<lparr>fz_main := pc\<rparr>)"
| other: "fuzz_step lc work z (z\<lparr>fz_fs := (fz_fs z)\<lparr>fs_mem := m\<rparr>\<rparr>)"

inductive fuzz_run :: "fuzz_libc \<Rightarrow> string list \<Rightarrow> fuzz \<Rightarrow> fuzz \<Rightarrow> bool" for lc work z where
  here: "fuzz_run lc work z z"
| more: "fuzz_run lc work z x \<Longrightarrow> fuzz_step lc work x y \<Longrightarrow> fuzz_run lc work z y"

text \<open>The state in which \<open>execute\<close> opens its file: no thread runs.\<close>

definition fuzz_init :: "rng \<Rightarrow> fs \<Rightarrow> fuzz" where
  "fuzz_init st s = \<lparr>fz_fs = s, fz_rng = st, fz_fd = 0, fz_go = False, fz_stop = False, fz_main = MOpen,
     fz_writers = [], fz_readers = []\<rparr>"

section \<open>The generator goes on\<close>

definition rng_ok :: "rng \<Rightarrow> bool" where
  "rng_ok st \<longleftrightarrow> rg_bytes st \<noteq> [] \<and> rg_pos st \<le> length (rg_bytes st)"

lemma rng_get_ok: "rng_ok st \<Longrightarrow> \<exists>b st'. rng_get st = Some (b, st') \<and> rng_ok st'"
  by (auto simp: rng_ok_def rng_get_def Let_def)

lemma rng_twice_ok:
  assumes g: "\<And>st. rng_ok st \<Longrightarrow> \<exists>b st'. g st = Some (b, st') \<and> rng_ok st'" and "rng_ok st"
  shows "\<exists>c st'. Option.bind (g st) (\<lambda>(a, st). Option.bind (g st) (\<lambda>(b, st). Some (f a b, st))) = Some (c, st') \<and>
    rng_ok st'"
proof -
  obtain a st1 where "g st = Some (a, st1)" "rng_ok st1" using g assms(2) by blast
  moreover from g [OF this(2)] obtain b st2 where "g st1 = Some (b, st2)" "rng_ok st2" by blast
  ultimately show ?thesis by simp
qed

lemma rng_get16_ok: "rng_ok st \<Longrightarrow> \<exists>b st'. rng_get16 st = Some (b, st') \<and> rng_ok st'"
  unfolding rng_get16_def by (rule rng_twice_ok [OF rng_get_ok])

lemma rng_get32_ok: "rng_ok st \<Longrightarrow> \<exists>b st'. rng_get32 st = Some (b, st') \<and> rng_ok st'"
  unfolding rng_get32_def by (rule rng_twice_ok [OF rng_get16_ok])

lemma rng_upTo_ok: "rng_ok st \<Longrightarrow> \<exists>r st'. rng_upTo x st = Some (r, st') \<and> rng_ok st'"
proof -
  assume ok: "rng_ok st"
  have "\<exists>r st'. rng_raw x st = Some (r, st') \<and> rng_ok st'"
    using rng_get_ok [OF ok] rng_get16_ok [OF ok] rng_get32_ok [OF ok] by (auto simp: rng_raw_def)
  then show ?thesis
    using ok by (auto simp: rng_upTo_def rng_ok_def)
qed

lemma Fuzzer_rng_ok: "rng_ok (Fuzzer_rng engine getRand seed)"
  using length_seed_bytes [of getRand "NUM_RAND_BYTES div 8" "engine seed"]
  by (auto simp: rng_ok_def Fuzzer_rng_def NUM_RAND_BYTES_def)

text \<open>The strings that are made: as many as asked for, of one length, each of one symbol.\<close>

definition good_work :: "nat \<Rightarrow> string list \<Rightarrow> bool" where
  "good_work n work \<longleftrightarrow> work \<noteq> [] \<and> length work < 2 ^ 32 \<and>
     (\<forall>w \<in> set work. length w = n \<and> (\<exists>c. set w \<subseteq> {c}))"

lemma make_strings_good:
  "make_strings n sz st = Some (ss, st') \<Longrightarrow>
    length ss = n \<and> (\<forall>w \<in> set ss. length w = unat sz \<and> (\<exists>c. set w \<subseteq> {c}))"
proof (induction n arbitrary: st ss)
  case (Suc n)
  then obtain w st1 ws where w: "rng_getSingleSymbolString sz st = Some (w, st1)"
    "make_strings n sz st1 = Some (ws, st')" "ss = w # ws"
    by (auto simp: bind_eq_Some_conv)
  then show ?case
    using Suc.IH [OF w(2)] single_symbol [OF w(1)] by auto
qed simp

lemma make_work_good: "make_work sz st = Some (work, st') \<Longrightarrow> good_work (unat sz) work"
proof -
  assume "make_work sz st = Some (work, st')"
  then obtain n st1 where n: "rng_upTo MAX_WORK st = Some (n, st1)"
    "make_strings (unat (1 + n)) sz st1 = Some (work, st')"
    by (auto simp: make_work_def bind_eq_Some_conv)
  have "n < 10"
    using rng_upTo_bound [OF n(1)] by (simp add: MAX_WORK_def)
  then have "unat (1 + n) = Suc (unat n)"
    by (simp add: word_less_nat_alt unat_word_ariths)
  then show ?thesis
    using make_strings_good [OF n(2)] unsigned_less [of "1 + n", where ?'a = nat]
    by (auto simp: good_work_def)
qed

lemma make_strings_ok:
  "rng_ok st \<Longrightarrow> \<exists>ss st'. make_strings n sz st = Some (ss, st') \<and> rng_ok st'"
proof (induction n arbitrary: st)
  case (Suc n)
  have "nat (sint (1 :: byte)) = Suc 0" by simp
  then have "\<exists>w st1. rng_getSingleSymbolString sz st = Some (w, st1) \<and> rng_ok st1"
    using rng_upTo_ok [OF Suc.prems, of 62]
    by (auto simp: rng_getSingleSymbolString_def rng_getString_def)
  then obtain w st1 where w: "rng_getSingleSymbolString sz st = Some (w, st1)" "rng_ok st1" by blast
  show ?case using Suc.IH [OF w(2)] w(1) by auto
qed simp

lemma make_work_ok: "rng_ok st \<Longrightarrow> \<exists>work st'. make_work sz st = Some (work, st') \<and> rng_ok st'"
proof -
  assume "rng_ok st"
  then obtain n st1 where n: "rng_upTo MAX_WORK st = Some (n, st1)" "rng_ok st1"
    using rng_upTo_ok by blast
  then show ?thesis
    using make_strings_ok [OF n(2)] by (auto simp: make_work_def)
qed

section \<open>The calls\<close>

lemma open_memory_mem [simp]: "open_memory (s\<lparr>fs_mem := m\<rparr>) fd oid b = open_memory s fd oid b"
  by (simp add: open_memory_def getEntry_def)

lemma wf_mem: "wf_fs s \<Longrightarrow> wf_fs (s\<lparr>fs_mem := m\<rparr>)"
  by (rule wf_quiet [OF _ quiet_setter(6)])

lemma pwrite_whole:
  assumes lc: "fuzz_libc_wraps lc" and fd: "open_memory s fd oid b" "wf_fs s"
    and a: "a \<noteq> 0" "mem_read s a n = data" "unat n \<le> 0x7FFFFFFF"
  shows "\<exists>t. lc_pwrite lc fd a n 0 s = Some (n, t) \<and> open_memory t fd oid (data @ drop (unat n) b) \<and> wf_fs t"
proof (rule pwrite_memory [OF fd(1), of "one_iov a n" 0])
  fix t
  assume t: "wasi_fd_pwrite fd (one_iov a n) 0 s = Some ((0, Some (of_nat (length (gather s (one_iov a n))))), t)"
    "open_memory t fd oid (write_spec (unat (0 :: u64)) (gather s (one_iov a n)) b)"
  have data: "length data = unat n" using a(2) by auto
  have "write_spec 0 data b = data @ drop (unat n) b"
    using data by (auto simp: write_spec_def resize_def overwrite_def max_def)
  moreover have "lc_pwrite lc fd a n 0 s = Some (n, t)"
    using lc t(1) by (simp add: fuzz_libc_wraps_def)
  moreover have "wf_fs t"
    using data_calls_wf(4) [OF fd(2) t(1)] .
  ultimately show ?thesis using t(2) a(2) by auto
qed (use a in auto)

lemma butlast_mem_read:
  assumes "unat n < 2 ^ 32 - 1"
  shows "butlast (mem_read s a (n + 1)) = mem_read s a n"
proof -
  have "unat (n + 1) = Suc (unat n)"
    using assms by (simp add: unat_word_ariths)
  then show ?thesis
    by (simp add: mem_read_def butlast_append)
qed

lemma pread_whole:
  assumes lc: "fuzz_libc_wraps lc" and fd: "open_memory s fd oid (data @ rest)" "wf_fs s"
    and a: "a \<noteq> 0" "length data = unat n" "unat n \<le> 0x7FFFFFFF"
  shows "\<exists>t. lc_pread lc fd a n 0 s = Some (n, t) \<and> butlast (mem_read t a (n + 1)) = data \<and>
    open_memory t fd oid (data @ rest) \<and> wf_fs t"
proof -
  define t where "t = s\<lparr>fs_mem := mem_store a data (fs_mem s)\<rparr>"
  have "wasi_fd_pread fd (one_iov a n) 0 s = Some ((0, Some n), t)"
    using pread_memory [OF fd(1), of "one_iov a n" 0] a by (simp add: t_def Let_def)
  then have "lc_pread lc fd a n 0 s = Some (n, t)" "wf_fs t"
    using lc data_calls_wf(3) [OF fd(2)] by (auto simp: fuzz_libc_wraps_def)
  moreover have "butlast (mem_read t a (n + 1)) = data"
    using a by (simp add: butlast_mem_read t_def mem_read_store)
  ultimately show ?thesis
    using fd(1) by (auto simp: t_def)
qed

text \<open>Opening the file: its name is free in the working directory, and a descriptor below $2^{31}$ is.\<close>

definition can_create :: "fs \<Rightarrow> bool" where
  "can_create s \<longleftrightarrow> child_of s (fs_cwd s) ''test'' = None \<and> parent_of s (fs_cwd s) \<noteq> None \<and>
     length (fs_table s) < 2 ^ 31"

lemma can_create_mem [simp]: "can_create (s\<lparr>fs_mem := m\<rparr>) = can_create s"
  by (simp add: can_create_def child_of_def cong: option.case_cong)

lemma parse_test: "parseParent ''test'' (- 100) s = Some (Inr (fs_cwd s, ''test''), s)"
  by (simp add: parseParent_def getBaseDir_def doParseParent_def strip_trailing_def drop_count_def
      parse_segments.simps)

lemma lowest_descriptor:
  assumes "\<forall>k < fd. getEntry k s \<noteq> None" "length (fs_table s) < 2 ^ 31"
  shows "unat fd \<le> length (fs_table s)"
proof (rule ccontr)
  assume "\<not> unat fd \<le> length (fs_table s)"
  moreover have "unat (of_nat (length (fs_table s)) :: u32) = length (fs_table s)"
    using assms(2) by (simp add: unat_of_nat)
  ultimately have "(of_nat (length (fs_table s)) :: u32) < fd" "getEntry (of_nat (length (fs_table s))) s = None"
    by (simp_all add: word_less_nat_alt getEntry_def tbl_get_def)
  then show False using assms(1) by blast
qed

lemma creat_test:
  assumes lc: "fuzz_libc_wraps lc" and wf: "wf_fs s" and can: "can_create s"
  shows "\<exists>fd t oid. lc_creat lc ''test'' 0x42 0x1FF s = Some (fd, t) \<and> fd \<noteq> - 1 \<and> open_memory t fd oid [] \<and> wf_fs t"
proof -
  obtain q where q: "child_of s (fs_cwd s) ''test'' = None" "parent_of s (fs_cwd s) = Some q"
    "length (fs_table s) < 2 ^ 31"
    using can by (auto simp: can_create_def)
  obtain fd t where t: "syscall_openat (- 100) ''test'' 0x42 0x1FF s = Some (fd, t)" "wf_fs t"
    "\<forall>k < fd. getEntry k s \<noteq> None" "getEntry fd t = Some (fs_ofnext s)"
    "file_of t (fs_ofnext s) = fs_next s" "node_of t (fs_next s) = MemoryDataFile []"
    using openat_creates [OF wf parse_test _ q(1,2), of "0x42" "0x1FF"] q(3) by auto
  have "unat fd < 2 ^ 31"
    using lowest_descriptor [OF t(3) q(3)] q(3) by simp
  then have sint: "sint fd = int (unat fd)"
    by (simp add: sint_below_half)
  then have "0 \<le> sint fd" by simp
  then have "fd \<noteq> - 1" by auto
  then show ?thesis
    using lc t sint by (auto simp: fuzz_libc_wraps_def libc_result_def open_memory_def)
qed

section \<open>The invariant\<close>

text \<open>
  While threads run, the file starts with one of the strings; what a thread has read or is about to
  check fits. Once the main thread has joined, every thread is done.
\<close>

definition content :: "string list \<Rightarrow> fuzz \<Rightarrow> bool" where
  "content work z \<longleftrightarrow> (\<exists>oid w rest. w \<in> set work \<and>
     open_memory (fz_fs z) (fz_fd z) oid (map of_char w @ rest))"

lemma content_frame [simp]:
  "content work (z\<lparr>fz_writers := ws\<rparr>) = content work z" "content work (z\<lparr>fz_readers := rs\<rparr>) = content work z"
  "content work (z\<lparr>fz_main := pc\<rparr>) = content work z" "content work (z\<lparr>fz_rng := st\<rparr>) = content work z"
  "content work (z\<lparr>fz_go := b\<rparr>) = content work z" "content work (z\<lparr>fz_stop := b\<rparr>) = content work z"
  by (simp_all add: content_def)

definition idle :: "fuzz \<Rightarrow> bool" where
  "idle z \<longleftrightarrow> (\<forall>pc \<in> set (fz_writers z). pc = WDone) \<and> (\<forall>pc \<in> set (fz_readers z). pc = RDone)"

fun phase :: "string list \<Rightarrow> fuzz \<Rightarrow> main_pc \<Rightarrow> bool" where
  "phase work z MOpen \<longleftrightarrow> can_create (fz_fs z) \<and> idle z"
| "phase work z MFill \<longleftrightarrow> (\<exists>oid. open_memory (fz_fs z) (fz_fd z) oid []) \<and> idle z"
| "phase work z MSpawn \<longleftrightarrow> content work z"
| "phase work z MGo \<longleftrightarrow> content work z"
| "phase work z MSleep \<longleftrightarrow> content work z"
| "phase work z MJoin \<longleftrightarrow> content work z"
| "phase work z MUnlink \<longleftrightarrow> idle z"
| "phase work z MClose \<longleftrightarrow> idle z"
| "phase work z MEnd \<longleftrightarrow> idle z"
| "phase work z MFailed \<longleftrightarrow> False"

fun writer_ok :: "string list \<Rightarrow> writer_pc \<Rightarrow> bool" where
  "writer_ok work (WPick k) \<longleftrightarrow> unat k < length work"
| "writer_ok work (WCheck k n) \<longleftrightarrow> n = of_nat (length (work ! unat k))"
| "writer_ok work WFailed \<longleftrightarrow> False"
| "writer_ok work _ \<longleftrightarrow> True"

fun reader_ok :: "string list \<Rightarrow> reader_pc \<Rightarrow> bool" where
  "reader_ok work (RCheck n buf) \<longleftrightarrow> n = of_nat (length (hd work)) \<and> (\<exists>w \<in> set work. butlast buf = w)"
| "reader_ok work RFailed \<longleftrightarrow> False"
| "reader_ok work _ \<longleftrightarrow> True"

definition fuzz_inv :: "string list \<Rightarrow> fuzz \<Rightarrow> bool" where
  "fuzz_inv work z \<longleftrightarrow> wf_fs (fz_fs z) \<and> rng_ok (fz_rng z) \<and> phase work z (fz_main z) \<and>
     (\<forall>pc \<in> set (fz_writers z). writer_ok work pc) \<and> (\<forall>pc \<in> set (fz_readers z). reader_ok work pc)"

lemma busy:
  "phase work z m \<Longrightarrow> \<not> idle z \<Longrightarrow> content work z \<and> (\<forall>y. content work y \<longrightarrow> phase work y m)"
  by (cases m) auto

text \<open>A thread that is not done keeps the invariant when it keeps the file and its own state is right.\<close>

lemma writer_moves:
  assumes inv: "fuzz_inv work z" and i: "i < length (fz_writers z)" "fz_writers z ! i \<noteq> WDone"
    and z': "wf_fs s" "rng_ok st" "content work z \<Longrightarrow> content work (z\<lparr>fz_fs := s\<rparr>)" and pc: "writer_ok work pc"
  shows "fuzz_inv work (z\<lparr>fz_fs := s, fz_rng := st, fz_writers := (fz_writers z)[i := pc]\<rparr>)"
proof -
  have "\<not> idle z"
    using i nth_mem by (force simp: idle_def)
  then show ?thesis
    using inv busy [of work z "fz_main z"] z' pc
    by (auto simp: fuzz_inv_def content_def dest!: set_update_subset_insert [THEN subsetD])
qed

lemma reader_moves:
  assumes inv: "fuzz_inv work z" and i: "i < length (fz_readers z)" "fz_readers z ! i \<noteq> RDone"
    and z': "wf_fs s" "content work z \<Longrightarrow> content work (z\<lparr>fz_fs := s\<rparr>)" and pc: "reader_ok work pc"
  shows "fuzz_inv work (z\<lparr>fz_fs := s, fz_readers := (fz_readers z)[i := pc]\<rparr>)"
proof -
  have "\<not> idle z"
    using i nth_mem by (force simp: idle_def)
  then show ?thesis
    using inv busy [of work z "fz_main z"] z' pc
    by (auto simp: fuzz_inv_def content_def dest!: set_update_subset_insert [THEN subsetD])
qed

lemma strings:
  assumes "good_work n work"
  shows "work \<noteq> []" "hd work \<in> set work" "w \<in> set work \<Longrightarrow> length w = n"
    "w \<in> set work \<Longrightarrow> \<exists>c. set w \<subseteq> {c}"
  using assms by (auto simp: good_work_def)

lemma unat_size: "n \<le> 0x7FFFFFFF \<Longrightarrow> unat (of_nat n :: u32) = n"
  by (simp add: unat_of_nat)

lemma write_string:
  assumes lc: "fuzz_libc_wraps lc" and work: "good_work n work" and fits: "n \<le> 0x7FFFFFFF"
    and z: "wf_fs (fz_fs z)" "open_memory (fz_fs z) (fz_fd z) oid b" and w: "w \<in> set work" "holds_at z a w"
  shows "\<exists>t. lc_pwrite lc (fz_fd z) a (of_nat n) 0 (fz_fs z) = Some (of_nat n, t) \<and> wf_fs t \<and>
    content work (z\<lparr>fz_fs := t\<rparr>)"
proof -
  have "length w = n" using strings(3) [OF work w(1)] .
  then obtain t where "lc_pwrite lc (fz_fd z) a (of_nat n) 0 (fz_fs z) = Some (of_nat n, t)" "wf_fs t"
    "open_memory t (fz_fd z) oid (map of_char w @ drop n b)"
    using pwrite_whole [OF lc z(2,1), of a "of_nat n" "map of_char w"] w(2) fits
    by (auto simp: holds_at_def unat_size [OF fits])
  then show ?thesis using w(1) by (auto simp: content_def)
qed

lemma writer_step:
  assumes lc: "fuzz_libc_wraps lc" and work: "good_work n work" and fits: "n \<le> 0x7FFFFFFF"
    and inv: "fuzz_inv work z" and i: "i < length (fz_writers z)"
    and a: "\<And>k. fz_writers z ! i = WPick k \<Longrightarrow> holds_at z a (work ! unat k)"
    and run: "writer_next lc work a (fz_writers z ! i) z = (pc, z')"
  shows "fuzz_inv work (z'\<lparr>fz_writers := (fz_writers z')[i := pc]\<rparr>)"
proof (cases "fz_writers z ! i = WDone")
  case True
  then have "z'\<lparr>fz_writers := (fz_writers z')[i := pc]\<rparr> = z"
    using run True list_update_id [of "fz_writers z" i] by auto
  then show ?thesis using inv by simp
next
  case False
  have ok: "writer_ok work (fz_writers z ! i)" "wf_fs (fz_fs z)" "rng_ok (fz_rng z)"
    using inv i by (auto simp: fuzz_inv_def)
  have "\<not> idle z"
    using i False nth_mem by (force simp: idle_def)
  then have content: "content work z"
    using inv busy by (auto simp: fuzz_inv_def)
  note moves = writer_moves [OF inv i False]
  note same = moves [OF ok(2,3)]
  show ?thesis
  proof (cases "fz_writers z ! i")
    case WLoop
    obtain r st where r: "rng_upTo (of_nat (length work)) (fz_rng z) = Some (r, st)" "rng_ok st"
      using rng_upTo_ok [OF ok(3)] by blast
    have len: "unat (of_nat (length work) :: u32) = length work" "(of_nat (length work) :: u32) \<noteq> 0"
      using work by (auto simp: good_work_def unat_of_nat word_of_nat_eq_0_iff dest: dvd_imp_le)
    have "r < of_nat (length work)"
      using rng_upTo_bound [OF r(1) len(2)] .
    then have "writer_ok work (WPick r)"
      using len(1) by (simp add: word_less_nat_alt)
    then show ?thesis
      using run WLoop r same [of WDone] moves [OF ok(2) r(2), of "WPick r"] by (auto split: if_splits)
  next
    case (WPick k)
    have k: "unat k < length work" "work ! unat k \<in> set work" "length (work ! unat k) = n"
      using ok(1) strings(3) [OF work] by (auto simp: WPick)
    obtain oid b where b: "open_memory (fz_fs z) (fz_fd z) oid b"
      using content by (auto simp: content_def)
    obtain t where t: "lc_pwrite lc (fz_fd z) a (of_nat n) 0 (fz_fs z) = Some (of_nat n, t)" "wf_fs t"
      "content work (z\<lparr>fz_fs := t\<rparr>)"
      using write_string [OF lc work fits ok(2) b k(2) a [OF WPick]] by blast
    have "writer_ok work (WCheck k (of_nat n))"
      using k(3) by simp
    from moves [OF t(2) ok(3) t(3) this] show ?thesis
      using run t(1) k(3) by (auto simp: WPick)
  qed (use run ok(1) same [of WLoop] same [of WWait] False in \<open>auto split: if_splits\<close>)
qed

lemma read_string:
  assumes lc: "fuzz_libc_wraps lc" and work: "good_work n work" and fits: "n \<le> 0x7FFFFFFF"
    and z: "wf_fs (fz_fs z)" "content work z" and a: "a \<noteq> 0"
  shows "\<exists>t w. lc_pread lc (fz_fd z) a (of_nat n) 0 ((fz_fs z)\<lparr>fs_mem := m\<rparr>) = Some (of_nat n, t) \<and> w \<in> set work \<and>
    butlast (map (\<lambda>b. char_of (unat b)) (mem_read t a (of_nat n + 1))) = w \<and> wf_fs t \<and> content work (z\<lparr>fz_fs := t\<rparr>)"
proof -
  obtain oid w rest where w: "w \<in> set work" "open_memory (fz_fs z) (fz_fd z) oid (map of_char w @ rest)"
    using z(2) by (auto simp: content_def)
  then obtain t where t: "lc_pread lc (fz_fd z) a (of_nat n) 0 ((fz_fs z)\<lparr>fs_mem := m\<rparr>) = Some (of_nat n, t)"
    "butlast (mem_read t a (of_nat n + 1)) = map of_char w" "open_memory t (fz_fd z) oid (map of_char w @ rest)" "wf_fs t"
    using pread_whole [OF lc, of "(fz_fs z)\<lparr>fs_mem := m\<rparr>" "fz_fd z" oid "map of_char w" rest a "of_nat n"]
      wf_mem [OF z(1)] a fits strings(3) [OF work] by (auto simp: unat_size [OF fits])
  have "unat (of_char c :: byte) = of_char c" for c
    by (simp add: of_char_def)
  then have "butlast (map (\<lambda>b. char_of (unat b)) (mem_read t a (of_nat n + 1))) = w"
    using t(2) by (simp add: map_butlast [symmetric] comp_def)
  then show ?thesis
    using t w(1) by (auto simp: content_def)
qed

lemma reader_step:
  assumes lc: "fuzz_libc_wraps lc" and work: "good_work n work" and fits: "n \<le> 0x7FFFFFFF"
    and inv: "fuzz_inv work z" and i: "i < length (fz_readers z)" and a: "a \<noteq> 0"
    and run: "reader_next lc work a (fz_readers z ! i) z = (pc, z')"
  shows "fuzz_inv work (z'\<lparr>fz_readers := (fz_readers z')[i := pc]\<rparr>)"
proof (cases "fz_readers z ! i = RDone")
  case True
  then have "z'\<lparr>fz_readers := (fz_readers z')[i := pc]\<rparr> = z"
    using run True list_update_id [of "fz_readers z" i] by auto
  then show ?thesis using inv by simp
next
  case False
  have ok: "reader_ok work (fz_readers z ! i)" "wf_fs (fz_fs z)"
    using inv i by (auto simp: fuzz_inv_def)
  have "\<not> idle z"
    using i False nth_mem by (force simp: idle_def)
  then have content: "content work z"
    using inv busy by (auto simp: fuzz_inv_def)
  note moves = reader_moves [OF inv i False]
  note same = moves [OF ok(2)]
  have len: "length (hd work) = n" using strings(2,3) [OF work] by blast
  show ?thesis
  proof (cases "fz_readers z ! i")
    case RLoop
    define m where "m = mem_store a (replicate (Suc n) 0) (fs_mem (fz_fs z))"
    obtain t w where t: "lc_pread lc (fz_fd z) a (of_nat n) 0 ((fz_fs z)\<lparr>fs_mem := m\<rparr>) = Some (of_nat n, t)"
      "w \<in> set work" "butlast (map (\<lambda>b. char_of (unat b)) (mem_read t a (of_nat n + 1))) = w" "wf_fs t"
      "content work (z\<lparr>fz_fs := t\<rparr>)"
      using read_string [OF lc work fits ok(2) content a] by metis
    have "reader_ok work (RCheck (of_nat n) (map (\<lambda>b. char_of (unat b)) (mem_read t a (of_nat n + 1))))"
      using t(2,3) len by simp
    from moves [OF t(4,5) this] show ?thesis
      using run t(1) same [of RDone] len by (auto simp: RLoop Let_def unat_size [OF fits] m_def split: if_splits)
  next
    case (RCheck r buf)
    then have "r = of_nat n" "isSame buf"
      using ok(1) strings(4) [OF work] len by (auto simp: isSame_iff)
    then show ?thesis
      using run same [of RLoop] len by (auto simp: RCheck)
  qed (use run ok(1) same [of RLoop] same [of RWait] False in \<open>auto split: if_splits\<close>)
qed

lemma main_step:
  assumes lc: "fuzz_libc_wraps lc" and work: "good_work n work" and fits: "n \<le> 0x7FFFFFFF"
    and inv: "fuzz_inv work z" and a: "fz_main z = MFill \<Longrightarrow> holds_at z a (hd work)"
    and run: "main_next lc work a (fz_main z) z = (pc, z')"
  shows "fuzz_inv work (z'\<lparr>fz_main := pc\<rparr>)"
proof -
  note parts = inv [unfolded fuzz_inv_def]
  have wf: "wf_fs (fz_fs z)" using parts by blast
  show ?thesis
  proof (cases "fz_main z")
    case MOpen
    then obtain fd t oid where "lc_creat lc ''test'' 0x42 0x1FF (fz_fs z) = Some (fd, t)" "fd \<noteq> - 1"
      "open_memory t fd oid []" "wf_fs t"
      using creat_test [OF lc wf] parts by auto
    then show ?thesis using run parts by (auto simp: MOpen fuzz_inv_def idle_def)
  next
    case MFill
    have len: "length (hd work) = n" using strings(2,3) [OF work] by blast
    obtain oid where "open_memory (fz_fs z) (fz_fd z) oid []"
      using parts by (auto simp: MFill)
    from write_string [OF lc work fits wf this strings(2) [OF work] a [OF MFill]] obtain t
      where t: "lc_pwrite lc (fz_fd z) a (of_nat n) 0 (fz_fs z) = Some (of_nat n, t)" "wf_fs t"
        "content work (z\<lparr>fz_fs := t\<rparr>)" by blast
    have "of_nat n \<noteq> (- 1 :: u32)"
    proof
      assume "of_nat n = (- 1 :: u32)"
      then have "sint (of_nat n :: u32) = - 1" by simp
      moreover have "sint (of_nat n :: u32) = int (unat (of_nat n :: u32))"
        by (rule sint_below_half) (use unat_size [OF fits] fits in simp)
      ultimately show False
        using of_nat_0_le_iff [of "unat (of_nat n :: u32)", where ?'a = int] by linarith
    qed
    then show ?thesis using run parts t len by (auto simp: MFill fuzz_inv_def content_def)
  next
    case MUnlink
    obtain r t where t: "syscall_unlinkat (- 100) ''test'' 0 (fz_fs z) = Some (r, t)" "wf_fs t"
      using unlinkat_safe [OF wf, of "- 100" "''test''" 0] by (auto simp: safe_def)
    then have "lc_unlink lc ''test'' (fz_fs z) = Some (libc_result r, t)"
      using lc by (simp add: fuzz_libc_wraps_def)
    then show ?thesis using run parts t(2) by (auto simp: MUnlink fuzz_inv_def idle_def)
  next
    case MClose
    obtain r where "lc_close lc (fz_fd z) (fz_fs z) = Some (r, snd (wasi_fd_close (fz_fd z) (fz_fs z)))"
      using lc by (cases "wasi_fd_close (fz_fd z) (fz_fs z)") (simp add: fuzz_libc_wraps_def)
    then show ?thesis using run parts close_wf [OF wf] by (auto simp: MClose fuzz_inv_def idle_def)
  next
    case MSpawn
    then show ?thesis
      using run parts by (auto simp: fuzz_inv_def)
  next
    case MJoin
    then show ?thesis
      using run parts by (auto simp: fuzz_inv_def idle_def list_all_iff split: if_splits)
  qed (use run parts in \<open>auto simp: fuzz_inv_def idle_def\<close>)
qed

lemma fuzz_step_inv:
  assumes run: "fuzz_libc_wraps lc" "good_work n work" "n \<le> 0x7FFFFFFF"
  shows "fuzz_step lc work z y \<Longrightarrow> fuzz_inv work z \<Longrightarrow> fuzz_inv work y"
proof (induction rule: fuzz_step.induct)
  case (other z m)
  have "phase work z k \<Longrightarrow> phase work (z\<lparr>fz_fs := (fz_fs z)\<lparr>fs_mem := m\<rparr>\<rparr>) k" for k
    by (cases k) (auto simp: content_def idle_def)
  then show ?case using other wf_mem by (simp add: fuzz_inv_def)
qed (blast intro: writer_step [OF run] reader_step [OF run] main_step [OF run])+

lemma fuzz_run_inv:
  assumes run: "fuzz_libc_wraps lc" "good_work n work" "n \<le> 0x7FFFFFFF"
  shows "fuzz_run lc work z y \<Longrightarrow> fuzz_inv work z \<Longrightarrow> fuzz_inv work y"
  by (induction rule: fuzz_run.induct) (blast intro: fuzz_step_inv [OF run])+

text \<open>Libc as the system calls give it is such a contract.\<close>

definition demo_fuzz_libc :: fuzz_libc where
  "demo_fuzz_libc = libc.extend demo_libc \<lparr>
    lc_creat = \<lambda>path flags mode s. map_option (\<lambda>(r, t). (libc_result r, t)) (syscall_openat AT_FDCWD path flags mode s),
    lc_pwrite = \<lambda>fd buf len off s.
      map_option (\<lambda>((e, n), t). (if e \<noteq> 0 then - 1 else (case n of None \<Rightarrow> 0 | Some n \<Rightarrow> n), t))
        (wasi_fd_pwrite fd [\<lparr>iov_buf = buf, iov_len = len\<rparr>] off s),
    lc_unlink = \<lambda>path s. map_option (\<lambda>(r, t). (libc_result r, t)) (syscall_unlinkat AT_FDCWD path 0 s)\<rparr>"

lemma demo_fuzz_libc: "fuzz_libc_wraps demo_fuzz_libc"
  by (simp add: fuzz_libc_wraps_def demo_fuzz_libc_def demo_libc_def libc.defs)

section \<open>No assertion fails\<close>



end
