(* ===== verification/Type_Laws.thy ===== *)
theory Type_Laws
  imports Ns_Refine
begin

text \<open>
  The type of a file: its class (\<open>FileKind\<close>) is kept twice, as the class of the object and in the type
  bits of its mode, which \<open>stat\<close> reports. The two always agree, and neither changes while the file
  exists: every operation is typed, and so is every call.
\<close>

section \<open>Types of modes\<close>

text \<open>The constructors of the classes store these bits.\<close>

fun has_type :: "FileKind \<Rightarrow> u32 \<Rightarrow> bool" where
  "has_type DirectoryKind m \<longleftrightarrow> m AND S_IFMT = S_IFDIR"
| "has_type SymlinkKind m \<longleftrightarrow> m AND S_IFMT = S_IFLNK"
| "has_type DataFileKind m \<longleftrightarrow> m AND S_IFMT = S_IFREG \<or> m AND S_IFMT = S_IFCHR"
| "has_type UnknownKind m \<longleftrightarrow> False"

definition typed :: "fs \<Rightarrow> bool" where
  "typed s \<longleftrightarrow> (\<forall>f < fs_next s. has_type (kind s f) (mode_of s f))"

text \<open>The type of a file as callers see it.\<close>

definition file_type :: "fs \<Rightarrow> fid \<Rightarrow> FileKind \<times> u32" where
  "file_type s f = (kind s f, mode_of s f AND S_IFMT)"

text \<open>A step keeps the types when old files keep theirs and new files have one.\<close>

definition keeps_types :: "fs \<Rightarrow> fs \<Rightarrow> bool" where
  "keeps_types s t \<longleftrightarrow> fs_next s \<le> fs_next t \<and> (\<forall>f < fs_next s. file_type t f = file_type s f) \<and>
     (\<forall>f < fs_next t. fs_next s \<le> f \<longrightarrow> has_type (kind t f) (mode_of t f))"

lemma has_type_bits: "m AND S_IFMT = m' AND S_IFMT \<Longrightarrow> has_type k m = has_type k m'"
  by (cases k) simp_all

lemma keeps_refl [simp]: "keeps_types s s"
  by (simp add: keeps_types_def)

lemma keeps_trans [trans]:
  assumes "keeps_types s t" "keeps_types t u"
  shows "keeps_types s u"
proof -
  have "has_type (kind u f) (mode_of u f)" if "f < fs_next u" "fs_next s \<le> f" for f
  proof (cases "f < fs_next t")
    case True
    then have "file_type u f = file_type t f" "has_type (kind t f) (mode_of t f)"
      using assms that(2) by (simp_all add: keeps_types_def)
    then show ?thesis
      using has_type_bits [of "mode_of u f" "mode_of t f"] by (simp add: file_type_def)
  next
    case False
    then show ?thesis using assms(2) that(1) by (simp add: keeps_types_def)
  qed
  then show ?thesis
    using assms by (auto simp: keeps_types_def)
qed

lemma keeps_typed: "typed s \<Longrightarrow> keeps_types s t \<Longrightarrow> typed t"
  unfolding typed_def keeps_types_def file_type_def
  by (metis has_type_bits leI prod.inject)

lemma keeps_same_types:
  "fs_next t = fs_next s \<Longrightarrow> (\<And>f. file_type t f = file_type s f) \<Longrightarrow> keeps_types s t"
  by (simp add: keeps_types_def)

section \<open>The operations\<close>

lemma keeps_shape: "same_shape s t \<Longrightarrow> keeps_types s t"
  by (rule keeps_same_types) (simp_all add: same_shape_def file_type_def)

lemma keeps_quiet: "quiet s t \<Longrightarrow> keeps_types s t"
  by (simp add: quiet_def keeps_shape)

text \<open>Operations that change entries, parents, the table, the memory or the clock.\<close>

lemma file_type_frame [simp]:
  "file_type (setParent g p s) f = file_type s f" "file_type (set_entries g es s) f = file_type s f"
  "file_type (set_dcache g dc s) f = file_type s f" "file_type (updateMTime g s) f = file_type s f"
  "file_type (updateCTime g s) f = file_type s f"
  "file_type (s\<lparr>fs_cwd := c\<rparr>) f = file_type s f" "file_type (s\<lparr>fs_mem := m\<rparr>) f = file_type s f"
  by (simp_all add: file_type_def)

lemma file_type_dir_ops [simp]:
  "file_type (memdir_removeChild d n s) f = file_type s f" "fs_next (memdir_removeChild d n s) = fs_next s"
  "file_type (memdir_insertChild d n c s) f = file_type s f" "fs_next (memdir_insertChild d n c s) = fs_next s"
  "file_type (cacheChild d n c k s) f = file_type s f" "fs_next (cacheChild d n c k s) = fs_next s"
  by (simp_all add: memdir_removeChild_def memdir_insertChild_def cacheChild_def Let_def split: option.split)

lemma keeps_removeChild: "removeChild d n s = (r, t) \<Longrightarrow> keeps_types s t"
  by (rule keeps_same_types) (auto simp: removeChild_def Let_def split: option.splits if_splits)

lemma memdir_insertMove_types:
  "memdir_insertMove d n c s = Some t \<Longrightarrow> fs_next t = fs_next s \<and> (\<forall>f. file_type t f = file_type s f)"
  by (auto simp: memdir_insertMove_def Let_def split: option.splits)

lemma keeps_insertMove:
  assumes "insertMove d n c s = Some (r, t)"
  shows "keeps_types s t"
proof (cases "t = s")
  case False
  then obtain u where u: "memdir_insertMove d n c s = Some u"
    using assms by (auto simp: insertMove_def split: option.splits)
  have "fs_next t = fs_next u \<and> (\<forall>f. file_type t f = file_type u f)"
    using assms False u by (auto simp: insertMove_def Let_def split: option.splits prod.splits)
  then show ?thesis
    using memdir_insertMove_types [OF u] by (intro keeps_same_types) simp_all
qed simp

lemma keeps_change_mode: "keeps_types s (change_mode f m s)"
proof (rule keeps_same_types)
  fix g
  show "file_type (change_mode f m s) g = file_type s g"
    by (simp add: change_mode_def setMode_def upd_file_def file_type_def bit.conj_disj_distrib2 and.assoc)
qed (simp add: change_mode_def setMode_def upd_file_def)

lemma keeps_new_file:
  assumes "new_file n m b sk s = (f, t)" "has_type (kind_of n) m"
  shows "keeps_types s t"
  using assms(2) by (simp add: keeps_types_def file_type_def new_file_effect [OF assms(1)])

text \<open>New entries: the mode is masked, and the class adds its bits.\<close>

lemma keeps_insert_new:
  assumes "has_type (kind_of n) m"
  shows "keeps_types s (insert_new d name n m s)"
proof -
  obtain c t where c: "new_file n m (backend_of s d) True s = (c, t)"
    by (rule prod.exhaust)
  have "keeps_types t (insert_new d name n m s)"
    by (rule keeps_same_types) (simp_all add: insert_new_def c)
  then show ?thesis
    using keeps_trans [OF keeps_new_file [OF c assms]] by blast
qed

lemma keeps_insertDirectory:
  assumes "(m OR S_IFDIR) AND S_IFMT = S_IFDIR" "insertDirectory d name m s = (r, t)"
  shows "keeps_types s t"
proof (cases "parent_of s d")
  case (Some p)
  have "keeps_types s (insert_new d name (MemoryDirectory [] []) (m OR S_IFDIR) s)"
    by (rule keeps_insert_new) (use assms(1) in simp)
  then show ?thesis using assms(2) inserts_new(2) [OF Some] by simp
qed (use assms(2) in \<open>simp add: insertDirectory_def\<close>)

lemma keeps_insertSymlink:
  assumes "insertSymlink d name tgt s = (r, t)"
  shows "keeps_types s t"
proof (cases "parent_of s d")
  case (Some p)
  have "keeps_types s (insert_new d name (MemorySymlink tgt) S_IFLNK s)"
    by (rule keeps_insert_new) simp
  then show ?thesis using assms inserts_new(3) [OF Some] by simp
qed (use assms in \<open>simp add: insertSymlink_def\<close>)

lemma masked_type [simp]:
  "((m AND 0xFFF) OR 0x8000) AND 0xF000 = (0x8000 :: u32)"
  "((m AND 0x3FF) OR 0x4000) AND 0xF000 = (0x4000 :: u32)"
  by (simp_all add: bit.conj_disj_distrib2 and.assoc)

section \<open>The calls on names\<close>

text \<open>A call is typed when it keeps the types whenever it returns.\<close>

definition typed_call :: "(fs \<Rightarrow> ('r \<times> fs) option) \<Rightarrow> fs \<Rightarrow> bool" where
  "typed_call c s \<longleftrightarrow> (\<forall>r t. c s = Some (r, t) \<longrightarrow> keeps_types s t)"

lemma typed_callI: "(\<And>r t. c s = Some (r, t) \<Longrightarrow> keeps_types s t) \<Longrightarrow> typed_call c s"
  by (simp add: typed_call_def)

lemma typed_callD: "typed_call c s \<Longrightarrow> c s = Some (r, t) \<Longrightarrow> keeps_types s t"
  by (simp add: typed_call_def)

lemma keeps_addEntry: "addEntry oid s = (fd, t) \<Longrightarrow> keeps_types s t"
  using keeps_shape [OF setEntry_shape] by (auto simp: addEntry_def Let_def)

lemma keeps_open_file:
  assumes "open_file f flags k s = Some (r, t)" "\<And>u e v. k u = Some (e, v) \<Longrightarrow> quiet u v"
  shows "keeps_types s t"
proof -
  have err: "OpenFileState_create f flags s = Some (Inl e, u) \<Longrightarrow> u = s" for e u
    by (auto simp: OpenFileState_create_def Let_def split: if_splits option.splits)
  note new = keeps_shape [OF OpenFileState_create_effect(2)]
  show ?thesis
    using assms(1) new keeps_quiet [OF assms(2)] keeps_addEntry
    by (fastforce simp: open_file_def split: option.splits sum.splits dest: err intro: keeps_trans)
qed

lemma keeps_open_existing: "open_existing c flags s = Some (r, t) \<Longrightarrow> keeps_types s t"
  by (auto simp: open_existing_def Let_def fails_def split: if_splits intro: keeps_open_file truncate_quiet)

lemma keeps_open_create:
  assumes run: "open_create d name flags mode None rm s = Some (r, t)"
  shows "keeps_types s t"
proof (cases "parent_of s d")
  case None
  then show ?thesis using run by (auto simp: open_create_def fails_def split: if_splits)
next
  case (Some q)
  define u where "u = insert_new d name (MemoryDataFile []) ((mode AND S_IALLUGO) OR S_IFREG) s"
  have "keeps_types s u"
    unfolding u_def by (rule keeps_insert_new) simp
  moreover have "t = s \<or> t = u \<or> open_file (fs_next s) flags (\<lambda>s. Some (None, s)) u = Some (r, t)"
    using run Some by (auto simp: open_create_def inserts_new Let_def fails_def simp flip: u_def split: if_splits)
  ultimately show ?thesis
    using keeps_open_file [of "fs_next s" flags "\<lambda>s. Some (None, s)" u r t] by (auto intro: keeps_trans)
qed

lemma keeps_doOpen:
  assumes wf: "wf_fs s" and dir: "\<And>p n. parsed = Inr (p, n) \<Longrightarrow> is_dir s p"
    and run: "doOpen parsed flags mode None rm s = Some (r, t)"
  shows "keeps_types s t"
proof (cases parsed)
  case (Inr pn)
  obtain p n where pn: "pn = (p, n)" by (rule prod.exhaust)
  then have p: "is_dir s p" using dir Inr by blast
  note wt = wfD(1) [OF wf]
  have pure: "getFileFrom p tgt s = Some (x, v) \<Longrightarrow> v = s" for tgt x v
    using getFileFrom_wf [OF wt, of p tgt] by (metis option.inject prod.inject)
  have "t = s \<or> open_create p n flags mode None rm s = Some (r, t) \<or> (\<exists>x. open_existing x flags s = Some (r, t))"
    using run Inr pn
    by (auto simp: doOpen_def Let_def fails_def getChild_child_of [OF wt]
        split: if_splits node.splits option.splits sum.splits dest!: pure)
  then show ?thesis using keeps_open_create keeps_open_existing by auto
qed (use run in \<open>auto simp: doOpen_def Let_def fails_def split: if_splits\<close>)

lemma keeps_doMkdir:
  assumes wf: "wf_fs s" and run: "doMkdir parsed mode None s = Some (r, t)"
  shows "keeps_types s t"
  using run keeps_insertDirectory [of "mode AND 0x3FF"]
  by (auto simp: doMkdir_def Let_def fails_def getChild_child_of [OF wfD(1) [OF wf]]
      split: sum.splits option.splits prod.splits if_splits)

lemma keeps_symlink_checked:
  assumes wf: "wf_fs s" and run: "symlink_checked p n tgt s = Some (r, t)"
  shows "keeps_types s t"
  using run keeps_insertSymlink
  by (auto simp: symlink_checked_def fails_def getChild_child_of [OF wfD(1) [OF wf]]
      split: option.splits if_splits prod.splits)

lemma keeps_unlink_checked:
  assumes wf: "wf_fs s" and run: "unlink_checked d name flags s = Some (r, t)"
  shows "keeps_types s t"
  using run
  by (auto simp: unlink_checked_def finish_remove_def fails_def getChild_child_of [OF wfD(1) [OF wf]]
      split: option.splits if_splits prod.splits sum.splits intro: keeps_removeChild)

lemma keeps_rename_checked:
  assumes wf: "wf_fs s" and run: "rename_checked op on np nn s = Some (r, t)"
  shows "keeps_types s t"
proof -
  have "t = s \<or> (\<exists>c e. insertMove np nn c s = Some (e, t))"
    using run
    by (auto simp: rename_checked_def getChild_child_of [OF wfD(1) [OF wf]] fails_def
        split: if_splits option.splits sum.splits bool.splits)
  then show ?thesis by (auto intro: keeps_insertMove)
qed

text \<open>A call that parses a parent first is typed when its continuation is.\<close>

lemma typed_with_parent:
  assumes "wf_fs s" "\<And>parsed. (\<And>p n. parsed = Inr (p, n) \<Longrightarrow> is_dir s p) \<Longrightarrow> typed_call (k parsed) s"
  shows "typed_call (with_parent path fd k) s"
proof (rule parseParent_wf [OF wfD(1) [OF assms(1)], of path fd])
  fix e
  assume "parseParent path fd s = Some (Inl e, s)"
  then show ?thesis using assms(2) [of "Inl e"] by (simp add: typed_call_def with_parent_def)
next
  fix p n
  assume "parseParent path fd s = Some (Inr (p, n), s)" "is_dir s p"
  then show ?thesis using assms(2) [of "Inr (p, n)"] by (simp add: typed_call_def with_parent_def)
qed

lemma typed_fails [simp]: "typed_call (fails e) s"
  by (simp add: typed_call_def fails_def)

lemma typed_doOpen:
  "wf_fs s \<Longrightarrow> (\<And>p n. parsed = Inr (p, n) \<Longrightarrow> is_dir s p) \<Longrightarrow> typed_call (doOpen parsed fl m None rm) s"
  by (rule typed_callI) (rule keeps_doOpen)

lemma typed_open:
  assumes "wf_fs s"
  shows "typed_call (with_parent p d (\<lambda>parsed. doOpen parsed fl m None rm)) s"
  by (rule typed_with_parent [OF assms]) (rule typed_doOpen [OF assms])

lemma typed_names:
  assumes wf: "wf_fs s"
  shows "typed_call (syscall_openat d p fl m) s" "typed_call (syscall_openat2 d p df ofl m) s"
    "typed_call (syscall_mknodat d p m dv) s" "typed_call (syscall_mkdirat d p m) s"
    "typed_call (syscall_unlinkat d p fl) s" "typed_call (syscall_symlinkat tgt d p) s"
    "typed_call (syscall_renameat d p d' p') s"
proof -
  show "typed_call (syscall_openat d p fl m) s" "typed_call (syscall_openat2 d p df ofl m) s"
    unfolding syscall_openat_def syscall_openat2_def by (rule typed_open [OF wf])+
  show "typed_call (syscall_mknodat d p m dv) s"
    using typed_open [OF wf] by (auto simp: typed_call_def syscall_mknodat_def fails_def)
  show "typed_call (syscall_mkdirat d p m) s"
    unfolding syscall_mkdirat_def using keeps_doMkdir [OF wf]
    by (intro typed_with_parent [OF wf] typed_callI)
  have "typed_call (with_parent p d (\<lambda>parsed. case parsed of Inl e \<Rightarrow> fails e
      | Inr (parent, childName) \<Rightarrow> unlink_checked parent childName fl)) s"
    using keeps_unlink_checked [OF wf]
    by (intro typed_with_parent [OF wf]) (auto split: sum.splits intro: typed_callI)
  then show "typed_call (syscall_unlinkat d p fl) s"
    by (simp add: typed_call_def syscall_unlinkat_def fails_def)
  show "typed_call (syscall_symlinkat tgt d p) s"
    unfolding syscall_symlinkat_def using keeps_symlink_checked [OF wf]
    by (intro typed_with_parent [OF wf]) (auto split: sum.splits intro: typed_callI)
  have "typed_call (with_parent p' d' (\<lambda>parsedNew. case parsedNew of Inl e \<Rightarrow> fails e
      | Inr (newParent, newFileName) \<Rightarrow> if WASMFS_NAME_MAX < length newFileName then fails ENAMETOOLONG
          else rename_checked op on newParent newFileName)) s" for op on
    using keeps_rename_checked [OF wf]
    by (intro typed_with_parent [OF wf]) (auto split: sum.splits intro: typed_callI)
  then show "typed_call (syscall_renameat d p d' p') s"
    unfolding syscall_renameat_def by (intro typed_with_parent [OF wf]) (auto split: sum.splits)
qed

section \<open>The other calls\<close>

lemma keeps_pipe:
  assumes "syscall_pipe s = Some (r, t)"
  shows "keeps_types s t"
proof -
  define s1 where "s1 = s\<lparr>fs_pipes := (fs_pipes s)(fs_pnext s := []), fs_pnext := Suc (fs_pnext s)\<rparr>"
  obtain f s2 where f: "new_file (PipeFile (fs_pnext s)) (S_IRUGO OR S_IFREG) None False s1 = (f, s2)"
    by (rule prod.exhaust)
  obtain g s3 where g: "new_file (PipeFile (fs_pnext s)) (S_IWUGO OR S_IFREG) None False s2 = (g, s3)"
    by (rule prod.exhaust)
  have "keeps_types s s1"
    by (rule keeps_same_types) (simp_all add: s1_def file_type_def)
  moreover have "keeps_types s1 s2" "keeps_types s2 s3"
    by (rule keeps_new_file [OF f] keeps_new_file [OF g]; simp)+
  moreover have "keeps_types s3 t"
    using assms f g unfolding s1_def
    by (fastforce simp: syscall_pipe_def Let_def split: option.splits sum.splits prod.splits
        dest!: keeps_shape [OF OpenFileState_create_effect(2)] keeps_addEntry intro: keeps_trans)
  ultimately show ?thesis by (blast intro: keeps_trans)
qed

lemma typed_data_calls:
  "typed_call (wasi_fd_read fd iovs) s" "typed_call (wasi_fd_write fd iovs) s"
  "typed_call (wasi_fd_pread fd iovs off) s" "typed_call (wasi_fd_pwrite fd iovs off) s"
  "typed_call (wasi_fd_seek fd soff wh nw) s"
  unfolding wasi_fd_read_def wasi_fd_write_def wasi_fd_pread_def wasi_fd_pwrite_def typed_call_def
  by (blast intro: keeps_quiet readAtOffset_quiet writeAtOffset_quiet seek_quiet)+

lemma keeps_setEntry: "setEntry k v s = (x, t) \<Longrightarrow> keeps_types s t"
  using keeps_shape [OF setEntry_shape [of s k v]] by simp

lemma keeps_descriptors:
  "keeps_types s (snd (wasi_fd_close fd s))" "keeps_types s (snd (wasi_fd_sync fd s))"
  "keeps_types s (snd (syscall_getdents64 fd n s))"
  using sync_quiet getdents_quiet
  by (auto simp: wasi_fd_close_def split: option.splits prod.splits dest!: keeps_setEntry
      intro: keeps_quiet)

lemma typed_descriptors:
  "typed_call (syscall_dup fd) s" "typed_call (syscall_dup3 fd k fl) s"
  "typed_call (syscall_fcntl64 fd cmd) s" "typed_call (syscall_ftruncate64 fd sz) s"
  "typed_call (syscall_fallocate fd md off len) s" "typed_call (mmap_js al ml pr fl fd off) s"
  "typed_call (msync_js a ml pr fl fd off) s" "typed_call syscall_pipe s"
proof -
  have set: "keeps_types s (snd (setEntry x v s))" for x v
    by (rule keeps_shape [OF setEntry_shape])
  show "typed_call (syscall_dup fd) s" "typed_call (syscall_dup3 fd k fl) s"
    by (auto simp: typed_call_def syscall_dup_def syscall_dup3_def fails_def set
        split: option.splits dest!: keeps_addEntry)
  show "typed_call (syscall_fcntl64 fd cmd) s"
    using keeps_quiet [OF quiet_ofile(2)]
    by (auto simp: typed_call_def syscall_fcntl64_def fails_def Let_def set
        split: option.splits fcntl_cmd.splits if_splits)
  show "typed_call (syscall_ftruncate64 fd sz) s"
    by (auto simp: typed_call_def syscall_ftruncate64_def fails_def split: option.splits
        dest!: doTruncate_quiet keeps_quiet)
  show "typed_call (syscall_fallocate fd md off len) s"
    by (auto simp: typed_call_def syscall_fallocate_def fails_def Let_def split: option.splits if_splits
        dest!: quiet_df(3) keeps_quiet)
  show "typed_call (mmap_js al ml pr fl fd off) s"
    by (auto simp: typed_call_def mmap_js_def Let_def split: option.splits if_splits dest!: quiet_df(2)
        intro!: keeps_quiet)
  show "typed_call (msync_js a ml pr fl fd off) s"
    by (auto simp: typed_call_def msync_js_def wasi_fd_pwrite_def split: option.splits if_splits
        dest!: writeAtOffset_quiet keeps_quiet)
  show "typed_call syscall_pipe s"
    using keeps_pipe by (auto intro: typed_callI)
qed

lemma keeps_outside [simp]: "keeps_types s (s\<lparr>fs_cwd := c\<rparr>)" "keeps_types s (s\<lparr>fs_mem := m\<rparr>)"
  by (rule keeps_same_types; simp)+

lemma typed_resolving:
  assumes wf: "wf_fs s"
  shows "typed_call (syscall_chdir p) s" "typed_call (syscall_fchdir fd) s" "typed_call (syscall_getcwd b n) s"
    "typed_call (syscall_readlinkat d p b n) s" "typed_call (syscall_truncate64 p sz) s"
    "typed_call (syscall_fchmodat2 d p m fl) s" "typed_call (syscall_fchmod fd m) s"
    "typed_call (syscall_utimensat d p tms fl) s"
proof -
  have parse: "parseFile q x l s = Some (y, u) \<Longrightarrow> u = s" for q x l y u
    using parseFile_pure [OF wfD(1) [OF wf], of q x l] by auto
  have at: "getFileAt d p x s = Some (y, u) \<Longrightarrow> u = s" for x y u
    using getFileAt_pure [OF wfD(1) [OF wf], of d p x] by auto
  show "typed_call (syscall_chdir p) s" "typed_call (syscall_fchdir fd) s"
    by (auto simp: typed_call_def syscall_chdir_def syscall_fchdir_def doChdir_def fails_def
        split: option.splits sum.splits if_splits dest!: parse)
  show "typed_call (syscall_getcwd b n) s"
    by (auto simp: typed_call_def syscall_getcwd_def Let_def fails_def split: option.splits sum.splits if_splits)
  show "typed_call (syscall_readlinkat d p b n) s"
    by (auto simp: typed_call_def syscall_readlinkat_def Let_def fails_def
        split: option.splits sum.splits if_splits node.splits dest!: parse)
  show "typed_call (syscall_truncate64 p sz) s"
    by (auto simp: typed_call_def syscall_truncate64_def fails_def split: option.splits sum.splits
        dest!: parse doTruncate_quiet keeps_quiet)
  show "typed_call (syscall_fchmodat2 d p m fl) s" "typed_call (syscall_fchmod fd m) s"
    by (auto simp: typed_call_def syscall_fchmodat2_def syscall_fchmod_def fails_def keeps_change_mode
        split: if_splits sum.splits option.splits dest!: at)
  have clock: "quiet s (s\<lparr>fs_calls := c\<rparr>)" for c by (rule quiet_setter)
  show "typed_call (syscall_utimensat d p tms fl) s"
    using set_both_quiet clock
    by (auto simp: typed_call_def syscall_utimensat_def fails_def timespec_to_ms_def date_now_def Let_def
        split: if_splits sum.splits option.splits timespec.splits prod.splits dest!: at
        intro!: keeps_quiet intro: quiet_trans [OF clock set_both_quiet])
qed

lemmas typed_calls = typed_names typed_data_calls typed_descriptors typed_resolving

lemma run_call_typed:
  assumes "wf_fs s" "run_call c s = Some t"
  shows "keeps_types s t"
  using assms(2) by (cases c) (auto intro: typed_calls [THEN typed_callD] keeps_descriptors assms(1))

section \<open>The start\<close>

lemma keeps_mount: "keeps_types s (mount d n f s)"
  by (rule keeps_same_types) (simp_all add: mount_def mountChild_def split: option.split)

lemma keeps_push_std: "keeps_types s (snd made) \<Longrightarrow> keeps_types s (push_std made fl)"
proof -
  assume made: "keeps_types s (snd made)"
  have tab: "keeps_types s (t\<lparr>fs_table := tab\<rparr>)" if "keeps_types s t" for t tab
    using that by (rule keeps_trans) (rule keeps_same_types, simp_all add: file_type_def)
  have create: "keeps_types s t" if "OpenFileState_create (fst made) fl (snd made) = Some (Inr oid, t)" for oid t
    using made keeps_shape [OF OpenFileState_create_effect(2) [OF that]] by (rule keeps_trans)
  show ?thesis
    unfolding push_std_def using made create [THEN tab]
    by (auto split: option.split sum.split)
qed

lemma keeps_getters:
  "keeps_types s (snd (getStdin s))" "keeps_types s (snd (getStdout s))" "keeps_types s (snd (getStderr s))"
  "keeps_types s (snd (getNull s))" "keeps_types s (snd (getRandom s))" "keeps_types s (snd (getURandom s))"
  unfolding getStdin_def getStdout_def getStderr_def getNull_def getRandom_def getURandom_def
  by (rule keeps_new_file [OF prod.collapse [symmetric]]; simp)+

lemma keeps_init_FileTable: "keeps_types s (init_FileTable s)"
proof -
  have std: "keeps_types s (push_std (g u) fl)" if "keeps_types s u" "keeps_types u (snd (g u))" for g u fl
    using that(1) keeps_push_std [OF that(2)] by (rule keeps_trans)
  show ?thesis
    unfolding init_FileTable_def Let_def by (intro std keeps_getters keeps_refl)
qed

lemma keeps_mount_dev: "keeps_types s (mount_dev dev s)"
proof -
  have new: "keeps_types s u \<Longrightarrow> getNull u = (f, v) \<Longrightarrow> keeps_types s v"
    "keeps_types s u \<Longrightarrow> getRandom u = (f, v) \<Longrightarrow> keeps_types s v"
    "keeps_types s u \<Longrightarrow> getURandom u = (f, v) \<Longrightarrow> keeps_types s v" for u f v
    using keeps_getters [of u] by (auto intro: keeps_trans)
  have mnt: "keeps_types s u \<Longrightarrow> keeps_types s (mount d n f u)" for u d n f
    using keeps_mount by (rule keeps_trans [rotated])
  obtain f1 t1 where 1: "getNull s = (f1, t1)" by (rule prod.exhaust)
  define t2 where "t2 = mount dev ''stderr'' stderr_file (mount dev ''stdout'' stdout_file
    (mount dev ''stdin'' stdin_file (mount dev ''null'' f1 t1)))"
  obtain f3 t3 where 3: "getRandom t2 = (f3, t3)" by (rule prod.exhaust)
  obtain f4 t4 where 4: "getURandom (mount dev ''random'' f3 t3) = (f4, t4)" by (rule prod.exhaust)
  have "mount_dev dev s = mount dev ''urandom'' f4 t4"
    unfolding mount_dev_def Let_def 1 prod.case t2_def [symmetric] 3 4 ..
  moreover have "keeps_types s t2"
    unfolding t2_def by (intro mnt new(1) [OF _ 1]) simp
  ultimately show ?thesis
    using mnt new(2) [OF _ 3] new(3) [OF _ 4] by simp
qed

lemma keeps_init_root: "keeps_types s (init_root s)"
proof -
  obtain b u where b: "createMemoryBackend s = (b, u)" by (rule prod.exhaust)
  obtain r v where r: "createDirectory 0x1FF (Some b) u = (r, v)" by (rule prod.exhaust)
  have "keeps_types s u"
    using b by (intro keeps_same_types) (auto simp: createMemoryBackend_def file_type_def)
  also have "keeps_types u v"
    by (rule keeps_new_file [OF r [unfolded createDirectory_def]]) simp
  also have "keeps_types v (init_root s)"
    using b r by (intro keeps_same_types) (simp_all add: init_root_def Let_def file_type_def)
  finally show ?thesis .
qed

lemma init_typed: "typed (WasmFS_init h m)"
proof -
  define s where "s = init_FileTable (empty_fs h m)"
  have "typed (empty_fs h m)"
    by (simp add: typed_def empty_fs_def)
  then have "typed s"
    unfolding s_def by (rule keeps_typed) (rule keeps_init_FileTable)
  moreover have "keeps_types s (initRootDirectory s)"
  proof -
    define u where "u = init_root s"
    obtain r v where r: "insertDirectory (fs_root u) ''dev'' 0x16D u = (r, v)" by (rule prod.exhaust)
    define w where "w = (case r of None \<Rightarrow> v | Some dev \<Rightarrow> mount_dev dev v)"
    obtain q x where q: "insertDirectory (fs_root u) ''tmp'' 0x1FF w = (q, x)" by (rule prod.exhaust)
    have "keeps_types s u"
      unfolding u_def by (rule keeps_init_root)
    also have "keeps_types u v"
      by (rule keeps_insertDirectory [OF _ r]) simp
    also have "keeps_types v w"
      using keeps_mount_dev by (simp add: w_def split: option.split)
    also have "keeps_types w x"
      by (rule keeps_insertDirectory [OF _ q]) simp
    also have "x = initRootDirectory s"
      using r q by (simp add: initRootDirectory_def Let_def u_def w_def)
    finally show ?thesis .
  qed
  ultimately show ?thesis
    unfolding WasmFS_init_def s_def by (rule keeps_typed)
qed

section \<open>Type preservation\<close>

text \<open>
  C5: The class of a file and the type bits of its mode always agree, in every state that calls reach:
  directories are S_IFDIR, symbolic links S_IFLNK, data files S_IFREG or S_IFCHR. No call changes the
  type of a file that exists, whatever mode \<open>chmod\<close>, \<open>open\<close>, \<open>mkdir\<close> and \<open>mknod\<close> are given.
\<close>

theorem reachable_typed:
  assumes "reachable h m s"
  shows "typed s \<and> (\<forall>c t f. allowed c s \<longrightarrow> run_call c s = Some t \<longrightarrow> f < fs_next s \<longrightarrow>
    file_type t f = file_type s f)"
proof
  show "typed s"
    using assms
  proof induction
    case (step s c t)
    have "wf_fs s"
      using step.hyps(1) by (rule reachable.induct) (auto intro: WasmFS_init_wf run_call_wf)
    then show ?case using run_call_typed step by (blast intro: keeps_typed)
  qed (rule init_typed)
  have "wf_fs s"
    using assms by (rule reachable.induct) (auto intro: WasmFS_init_wf run_call_wf)
  then show "\<forall>c t f. allowed c s \<longrightarrow> run_call c s = Some t \<longrightarrow> f < fs_next s \<longrightarrow> file_type t f = file_type s f"
    using run_call_typed by (auto simp: keeps_types_def)
qed

lemma reachable_typed_witness:
  "typed demo_fs \<and> (\<exists>t. run_call (Fchmodat (- 100) ''/tmp'' 0x8000 0) demo_fs = Some t \<and>
     file_type t (fs_root demo_fs) = file_type demo_fs (fs_root demo_fs))"
proof -
  have r: "reachable demo_host ucast demo_fs"
    by (simp add: demo_fs_def reachable.start)
  note typed = reachable_typed [OF r]
  have ok: "allowed (Fchmodat (- 100) ''/tmp'' 0x8000 0) demo_fs"
    by (auto simp: keeps_mounts_def split: option.splits sum.splits prod.splits)
  obtain t where t: "run_call (Fchmodat (- 100) ''/tmp'' 0x8000 0) demo_fs = Some t"
    using metadata_returns(1) [OF demo_wf] by fastforce
  have "fs_root demo_fs < fs_next demo_fs"
    by (simp add: demo_tree)
  with typed ok t show ?thesis by blast
qed

end
