(* ===== verification/Rename_Laws.thy ===== *)
theory Rename_Laws
  imports Ns_Refine
begin

text \<open>
  Renaming a directory onto a path that ends in a dot: the call reports success, and the tree below the
  directory is lost.
\<close>

text \<open>A file that is stored under the name ".", in a directory without mounts, is found under no name.\<close>

lemma dot_hides:
  assumes "wf_fs t" "(''.'', c) \<in> set (entries t g)" "dcache t g = []"
  shows "n \<noteq> ''.'' \<Longrightarrow> n \<noteq> ''..'' \<Longrightarrow> child_of t d n \<noteq> Some c"
proof
  note wt = wfD(1) [OF assms(1)]
  assume n: "n \<noteq> ''.''" "n \<noteq> ''..''" and c: "child_of t d n = Some c"
  have "names t (g, ''.'') = Some c"
    using assms(2) by (simp add: names_iff [OF wt])
  then have "d = g \<and> n = ''.''"
    by (rule names_inj [OF wt assms(3)]) (rule child_is_name [OF c n])
  then show False using n by simp
qed

text \<open>
  C21: Renaming a directory to a path that ends in "/." and names another, empty directory does not fail,
  nor does it replace that directory: the call returns 0, and afterwards no name in any directory leads to
  the directory that was moved.
\<close>

theorem rename_onto_dot:
  assumes "wf_fs s" "parseParent oldpath oldfd s = Some (Inr (od, on), s)"
    and "parseParent newpath newfd s = Some (Inr (nd, ''.''), s)" "child_of s od on = Some c"
    and "is_dir s c" "c \<noteq> fs_root s" "nd \<noteq> fs_root s" "entries s nd = []" "dcache s nd = []"
    and "parent_of s nd = Some q" "(nd, c) \<notin> (up s)\<^sup>*"
    and "mode_of s od AND 0x92 \<noteq> 0" "mode_of s nd AND 0x92 \<noteq> 0" "backend_of s od = backend_of s nd"
  shows "\<exists>t. syscall_renameat oldfd oldpath newfd newpath s = Some (0, t) \<and> wf_fs t \<and>
    (\<forall>d n. n \<noteq> ''.'' \<longrightarrow> n \<noteq> ''..'' \<longrightarrow> child_of t d n \<noteq> Some c)"
proof -
  note wt = wfD(1) [OF assms(1)]
  have od: "is_dir s od" and nd: "is_dir s nd"
    using parse_dir [OF assms(1)] assms(2,3) by blast+
  have dot: "child_of s nd ''.'' = Some nd"
    using assms(10) by (simp add: child_of_def)
  have ne: "nd \<noteq> c"
    using assms(11) by auto
  have "(nd, fs_root s) \<in> (up s)\<^sup>*"
    by (rule wf_dir(5) [OF wt nd assms(10)])
  then have meets: "meets c nd s = Some False"
    using meets_result [OF wf_root(2) [OF wt], of nd c] assms(11) by auto
  have over: "rename_over c nd s = None"
    using assms(5,8,9) nd by (simp add: rename_over_def getNumEntries_def memdir_getNumEntries_def mounts_def)
  obtain t where t: "insertMove nd ''.'' c s = Some (Inr (), t)" "wf_fs t" "(''.'', c) \<in> set (entries t nd)"
    "dcache t nd = []"
  proof (rule rename_move [OF assms(1) od assms(12) nd assms(13,10,4,6), of "''.''"])
    fix u
    assume "insertMove nd ''.'' c s = Some (Inr (), u)" "wf_fs u" "(''.'', c) \<in> set (entries u nd)"
      "\<And>g. dcache u g = dcache s g"
    then show thesis using that assms(9) by simp
  qed (use dot ne meets over assms(7) in auto)
  have "rename_checked od on nd ''.'' s = Some (0, t)"
    using assms(4,6,7,12-14) dot ne meets over t(1)
    by (simp add: rename_checked_def getChild_child_of [OF wt])
  then have "syscall_renameat oldfd oldpath newfd newpath s = Some (0, t)"
    by (simp add: renameat_run [OF assms(2,3)])
  moreover have "n \<noteq> ''.'' \<Longrightarrow> n \<noteq> ''..'' \<Longrightarrow> child_of t d n \<noteq> Some c" for d n
    by (rule dot_hides [OF t(2,3,4)])
  ultimately show ?thesis using t(2) by blast
qed

text \<open>Two empty directories, /tmp/a and /tmp/b.\<close>

definition demo_two :: fs where
  "demo_two = insert_new 8 ''b'' (MemoryDirectory [] []) 0x41FF demo_dir"

lemmas demo_two_facts = insert_path [OF demo_dir_facts(1) demo_dir_parses(2) demo_dir_b(1) demo_dir_tmp(4),
    of "MemoryDirectory [] []" "0x41FF", folded demo_two_def, simplified demo_dir_facts demo_tree, simplified]

lemmas demo_two_effect = insert_new_effect [OF wfD(1) [OF demo_dir_facts(1)] demo_dir_tmp(2),
    of "MemoryDirectory [] []" "''b''" "0x41FF", folded demo_two_def, simplified demo_dir_facts, simplified]

lemma demo_two_tmp: "child_of demo_two 3 ''tmp'' = Some 8" "child_of demo_two 8 ''a'' = Some 9"
  "child_of demo_two 8 ''b'' = Some 10" "is_dir demo_two 8" "is_dir demo_two 9" "is_dir demo_two 10"
  "parent_of demo_two 8 = Some 3" "parent_of demo_two 9 = Some 8" "dcache demo_two 10 = []"
  using demo_two_facts demo_dir_tmp demo_dir_b demo_dir_facts(4,5,7) demo_two_effect by simp_all

lemma demo_two_parse: "parseParent ''/tmp/a'' (- 100) demo_two = Some (Inr (8, ''a''), demo_two)"
    "parseParent ''/tmp/b/.'' (- 100) demo_two = Some (Inr (10, ''.''), demo_two)"
proof -
  show "parseParent ''/tmp/a'' (- 100) demo_two = Some (Inr (8, ''a''), demo_two)"
    by (rule parseParent_extends [OF demo_dir_facts(1) demo_two_facts(1,2) demo_dir_parses(1)])
  have "path_names ''/tmp/b/.'' = [''tmp'', ''b''] @ [''.'']"
    by (simp add: path_names_def comps_def)
  moreover have "dirsN demo_two 8 [''b''] (0 + 0) 10"
    by (rule dirsN_Cons [OF demo_two_tmp(3) followsN_file demo_two_tmp(6) dirsN_Nil]) (simp add: demo_two_tmp)
  then have "dirsN demo_two 3 [''tmp'', ''b''] (0 + 0) 10"
    using dirsN_Cons [OF demo_two_tmp(1) followsN_file demo_two_tmp(4), of "[''b'']" 0 10] demo_two_tmp by simp
  then have "dirsN demo_two (path_start demo_two 3 ''/tmp/b/.'') [''tmp'', ''b''] 0 10"
    by (simp add: path_start_def demo_two_facts)
  ultimately show "parseParent ''/tmp/b/.'' (- 100) demo_two = Some (Inr (10, ''.''), demo_two)"
    using parseParent_gives [OF demo_two_facts(1), of "- 100" 3 "''/tmp/b/.''"]
    by (simp add: getBaseDir_def demo_two_facts)
qed

lemma rename_onto_dot_witness:
  "child_of demo_two 8 ''a'' = Some 9 \<and>
   (\<exists>t. syscall_renameat (- 100) ''/tmp/a'' (- 100) ''/tmp/b/.'' demo_two = Some (0, t) \<and>
     (\<forall>d n. n \<noteq> ''.'' \<longrightarrow> n \<noteq> ''..'' \<longrightarrow> child_of t d n \<noteq> Some 9))"
proof -
  have "(10, 9) \<notin> (up demo_two)\<^sup>*"
  proof
    assume "(10, 9) \<in> (up demo_two)\<^sup>*"
    then have "9 \<in> {10, 8, 3 :: nat}"
    proof (induction rule: rtrancl_induct)
      case (step y z)
      then show ?case
        using demo_two_facts(7,14) demo_two_tmp(7) wf_root(2) [OF wfD(1) [OF demo_two_facts(1)]]
        by (auto simp: up_def)
    qed simp
    then show False by simp
  qed
  moreover have "backend_of demo_two 8 = backend_of demo_two 10"
    using demo_two_facts by simp
  ultimately show ?thesis
    using rename_onto_dot [OF demo_two_facts(1) demo_two_parse demo_two_tmp(2,5)] demo_two_facts demo_two_tmp
    by auto
qed

end
