(* ===== verification/Wasi_Laws.thy ===== *)
theory Wasi_Laws
  imports Ns_Refine
begin

text \<open>
  What a client of the exported WASI functions (memfs.cpp) gets: the results of the functions on paths,
  opening, and links.
\<close>

section \<open>Results\<close>

text \<open>A call on names returns 0 or a negated error number.\<close>

definition zero_or_error :: "syscall \<Rightarrow> bool" where
  "zero_or_error c \<longleftrightarrow> (\<forall>s r t. c s = Some (r, t) \<longrightarrow> r = 0 \<or> (\<exists>e. r = neg_errno e))"

lemma zero_or_errorI:
  "(\<And>s r t. c s = Some (r, t) \<Longrightarrow> r \<noteq> 0 \<Longrightarrow> \<exists>e. r = neg_errno e) \<Longrightarrow> zero_or_error c"
  by (auto simp: zero_or_error_def)

lemma zero_or_error_fails [simp]: "zero_or_error (fails e)"
  by (auto simp: zero_or_error_def fails_def)

lemma zero_or_error_with_parent:
  assumes "\<And>parsed. zero_or_error (k parsed)"
  shows "zero_or_error (with_parent path fd k)"
  using assms by (auto simp: zero_or_error_def with_parent_def split: option.splits prod.splits)

lemma zero_or_error_steps:
  "zero_or_error (unlink_checked d n fl)" "zero_or_error (symlink_checked d n tgt)"
  "zero_or_error (rename_checked d n d' n')" "zero_or_error (doMkdir parsed m b)"
  by (rule zero_or_errorI,
      auto simp: unlink_checked_def finish_remove_def symlink_checked_def rename_checked_def doMkdir_def
        fails_def Let_def split: option.splits if_splits prod.splits sum.splits bool.splits)+

lemma zero_or_error_calls:
  "zero_or_error (syscall_unlinkat fd path fl)" "zero_or_error (syscall_symlinkat tgt fd path)"
  "zero_or_error (syscall_renameat fd path fd' path')" "zero_or_error (syscall_mkdirat fd path m)"
proof -
  have "zero_or_error (with_parent path fd (\<lambda>parsed. case parsed of Inl e \<Rightarrow> fails e
      | Inr (parent, childName) \<Rightarrow> unlink_checked parent childName fl))"
    by (rule zero_or_error_with_parent) (auto simp: zero_or_error_steps split: sum.split prod.split)
  then show "zero_or_error (syscall_unlinkat fd path fl)"
    by (auto simp: zero_or_error_def syscall_unlinkat_def fails_def)
  show "zero_or_error (syscall_symlinkat tgt fd path)" "zero_or_error (syscall_mkdirat fd path m)"
    unfolding syscall_symlinkat_def syscall_mkdirat_def
    by (rule zero_or_error_with_parent, auto simp: zero_or_error_steps split: sum.split prod.split)+
  show "zero_or_error (syscall_renameat fd path fd' path')"
    unfolding syscall_renameat_def
    by (intro zero_or_error_with_parent)
      (auto simp: zero_or_error_steps split: sum.split prod.split intro!: zero_or_error_with_parent)
qed

lemma cut_error: "ucast (neg_errno e) = - wasi e" "- wasi e \<noteq> wasi e'" "- wasi e \<noteq> 0"
  by (cases e; cases e'; simp add: neg_errno_def wasi_def)+

text \<open>
  C37: The exported functions that change names return 0, or the code of the failure with the wrong sign:
  a number that is no WASI code at all, because a negative error of the system call is cut to 16 bits.
\<close>

theorem wasi_path_results:
  assumes "c \<in> {path_unlink_file fd p, path_remove_directory fd p, path_rename fd p fd' p', path_symlink p fd p',
      path_link fd fl p fd' p', path_create_directory a fd p}"
    and "c s = Some (r, t)"
  shows "r = 0 \<or> (\<exists>e. r = - wasi e \<and> (\<forall>e'. r \<noteq> wasi e'))"
proof -
  have "\<exists>k. zero_or_error k \<and> c = wasi_call k"
    using assms(1)
    by (auto intro: zero_or_error_calls simp: path_unlink_file_def path_remove_directory_def path_rename_def path_symlink_def path_link_def
        path_create_directory_def)
  then obtain k where k: "zero_or_error k" "wasi_call k s = Some (r, t)"
    using assms(2) by blast
  then obtain q where q: "k s = Some (q, t)" "r = ucast q"
    by (auto simp: wasi_call_def split: option.splits)
  then consider "q = 0" | e where "q = neg_errno e"
    using k(1) by (auto simp: zero_or_error_def)
  then show ?thesis
    using q(2) cut_error(1,2) by cases auto
qed

lemma wasi_path_results_witness:
  "\<exists>r t. path_unlink_file (- 100) ''/tmp/a'' demo_fs = Some (r, t) \<and>
     (r = 0 \<or> (\<exists>e. r = - wasi e \<and> (\<forall>e'. r \<noteq> wasi e')))"
proof -
  obtain r t where "path_unlink_file (- 100) ''/tmp/a'' demo_fs = Some (r, t)"
    using unlinkat_safe [OF demo_wf, of "- 100" "''/tmp/a''" 0]
    by (auto simp: path_unlink_file_def wasi_call_def safe_def)
  then show ?thesis
    using wasi_path_results [of "path_unlink_file (- 100) ''/tmp/a''" "- 100" "''/tmp/a''"] by blast
qed

section \<open>Opening\<close>

text \<open>The flags of the interface are creat (1), directory (2), excl (4) and trunc (8).\<close>

lemma small_flags:
  fixes w :: u16
  assumes "w < 16"
  shows "w \<in> {15, 14, 13, 12, 11, 10, 9, 8, 7, 6, 5, 4, 3, 2, 1, 0}"
proof -
  have "unat w < 16"
    using assms by (simp add: word_less_nat_alt)
  then have "unat w \<in> {0..<16}" by simp
  moreover have "w = of_nat (unat w)" by simp
  ultimately have "w \<in> of_nat ` {0..<16}" by (rule rev_image_eqI)
  then show ?thesis
    by (simp add: atLeastLessThan_nat_numeral)
qed

lemma ucast_small_flags:
  fixes w :: u16
  assumes "w < 16"
  shows "ucast w AND (0x40 :: u32) = 0" "ucast w AND (0x200003 :: u32) = ucast (w AND 3)"
    "w AND 3 \<in> {0, 1, 2, 3}"
  using small_flags [OF assms] by auto

lemma doOpen_no_create:
  assumes wf: "wf_fs s" and dir: "\<And>p n. parsed = Inr (p, n) \<Longrightarrow> is_dir s p" and fl: "fl AND 0x40 = 0"
    and run: "doOpen parsed fl m None rm s = Some (r, t)"
  shows "abs_ns t = abs_ns s"
proof (cases "t = s")
  case False
  obtain p n where parsed: "parsed = Inr (p, n)"
    using run False by (cases parsed) (auto simp: doOpen_def Let_def fails_def split: if_splits)
  have p: "is_dir s p" by (rule dir [OF parsed])
  note wt = wfD(1) [OF wf]
  have pure: "getFileFrom p tgt s = Some (x, v) \<Longrightarrow> v = s" for tgt x v
    using getFileFrom_wf [OF wt, of p tgt] by (metis option.inject prod.inject)
  have "\<exists>x. open_existing x fl s = Some (r, t)"
    using run False parsed fl
    by (auto simp: doOpen_def open_create_def Let_def fails_def getChild_child_of [OF wt]
        split: if_splits node.splits option.splits sum.splits dest!: pure)
  then show ?thesis using ns_open_existing by blast
qed simp

lemma with_parent_cases:
  assumes "wf_fs s" "with_parent path fd k s = Some (r, t)"
    and "\<And>parsed. (\<And>p n. parsed = Inr (p, n) \<Longrightarrow> is_dir s p) \<Longrightarrow> k parsed s = Some (r, t) \<Longrightarrow> P"
  shows P
proof (rule parseParent_wf [OF wfD(1) [OF assms(1)], of path fd])
  fix e
  assume "parseParent path fd s = Some (Inl e, s)"
  then show P using assms(2) assms(3) [of "Inl e"] by (simp add: with_parent_def)
next
  fix p n
  assume "parseParent path fd s = Some (Inr (p, n), s)" "is_dir s p"
  then show P using assms(2) assms(3) [of "Inr (p, n)"] by (simp add: with_parent_def)
qed

text \<open>
  C38: \<open>path_open\<close> never creates a file: the flags of the interface are taken for those of POSIX, among
  which none of them means creation. It always reports success: when the name is missing, the descriptor
  that it stores is a negated error number.
\<close>

theorem wasi_open_never_creates:
  assumes "wf_fs s" "oflags < 16"
  shows "\<exists>fd t. path_open dirfd dirflags path oflags base inheriting fdflags s = Some ((0, fd), t) \<and>
    abs_ns t = abs_ns s \<and>
    (\<forall>d n. parseParent path dirfd s = Some (Inr (d, n), s) \<longrightarrow> child_of s d n = None \<longrightarrow> length n \<le> 255 \<longrightarrow>
      t = s \<and> fd = neg_errno (if oflags AND 3 = 3 then EINVAL else ENOENT))"
proof -
  obtain fd t where t: "syscall_openat2 dirfd path dirflags oflags 0 s = Some (fd, t)"
    using openat2_safe [OF assms(1), of dirfd path dirflags oflags 0] by (auto simp: safe_def)
  note flags = ucast_small_flags [OF assms(2)]
  have "abs_ns t = abs_ns s"
    using t unfolding syscall_openat2_def
  proof (rule with_parent_cases [OF assms(1)])
    fix parsed
    assume "\<And>p n. parsed = Inr (p, n) \<Longrightarrow> is_dir s p" "doOpen parsed (ucast oflags) 0 None ReturnFD s = Some (fd, t)"
    then show "abs_ns t = abs_ns s"
      by (rule doOpen_no_create [OF assms(1) _ flags(1)])
  qed
  moreover have "t = s \<and> fd = neg_errno (if oflags AND 3 = 3 then EINVAL else ENOENT)"
    if "parseParent path dirfd s = Some (Inr (d, n), s)" "child_of s d n = None" "length n \<le> 255" for d n
    using t that flags
    by (auto simp: syscall_openat2_def with_parent_def doOpen_def open_create_def Let_def fails_def
        getChild_child_of [OF wfD(1) [OF assms(1)]] split: if_splits)
  ultimately show ?thesis
    using t by (auto simp: path_open_def)
qed

lemma wasi_open_never_creates_witness:
  "\<exists>t. path_open (- 100) 0 ''/tmp/a'' 1 0 0 0 demo_fs = Some ((0, neg_errno ENOENT), t) \<and> t = demo_fs"
proof -
  obtain fd t where t: "path_open (- 100) 0 ''/tmp/a'' 1 0 0 0 demo_fs = Some ((0, fd), t)"
    "\<forall>d n. parseParent ''/tmp/a'' (- 100) demo_fs = Some (Inr (d, n), demo_fs) \<longrightarrow> child_of demo_fs d n = None \<longrightarrow>
      length n \<le> 255 \<longrightarrow> t = demo_fs \<and> fd = neg_errno (if (1 :: u16) AND 3 = 3 then EINVAL else ENOENT)"
    using wasi_open_never_creates [OF demo_wf, of 1 "- 100" 0 "''/tmp/a''" 0 0 0] by auto
  from t(2) have "t = demo_fs \<and> fd = neg_errno (if (1 :: u16) AND 3 = 3 then EINVAL else ENOENT)"
    using demo_parse demo_tmp_child by simp
  then show ?thesis using t(1) by simp
qed

section \<open>Links\<close>

text \<open>
  C39: \<open>path_symlink\<close> and \<open>path_link\<close> exchange their paths: both make a symbolic link at the old path, where
  nothing was, which leads to the new path; reading that link gives the new path.
\<close>

theorem wasi_links_exchanged:
  assumes "wf_fs s" "parseParent old_path fd s = Some (Inr (d, n), s)" "length n \<le> 255"
    and "child_of s d n = None" "parent_of s d = Some q" "unat buf_len < 2 ^ 31"
  shows "\<exists>t u. path_symlink old_path fd new_path s = Some (0, t) \<and>
    path_link old_fd old_flags old_path fd new_path s = Some (0, t) \<and> wf_fs t \<and>
    path_readlink fd old_path buf buf_len t =
      Some ((0, Some (of_nat (min (unat buf_len) (length new_path)))), u) \<and>
    mem_read u buf (of_nat (min (unat buf_len) (length new_path))) = chars_to_bytes (take (unat buf_len) new_path)"
proof -
  obtain t u where t: "syscall_symlinkat new_path fd old_path s = Some (0, t)" "wf_fs t"
    "syscall_readlinkat fd old_path buf buf_len t = Some (of_nat (min (unat buf_len) (length new_path)), u)"
    "mem_read u buf (of_nat (min (unat buf_len) (length new_path))) = chars_to_bytes (take (unat buf_len) new_path)"
    using symlinkat_readlinkat [OF assms(1-5), of new_path buf buf_len] by blast
  have "sint (of_nat (min (unat buf_len) (length new_path)) :: u32) =
      int (unat (of_nat (min (unat buf_len) (length new_path)) :: u32))"
    by (rule sint_below_half) (use assms(6) in \<open>simp add: unat_of_nat\<close>)
  then have "0 \<le> sint (of_nat (min (unat buf_len) (length new_path)) :: u32)"
    by simp
  then show ?thesis
    using t by (auto simp: path_symlink_def path_link_def path_readlink_def wasi_call_def)
qed

lemma wasi_links_exchanged_witness:
  "\<exists>t u. path_symlink ''/tmp/a'' (- 100) ''b'' demo_fs = Some (0, t) \<and>
    path_readlink (- 100) ''/tmp/a'' 64 16 t = Some ((0, Some 1), u) \<and> mem_read u 64 1 = chars_to_bytes ''b''"
  using wasi_links_exchanged [OF demo_wf demo_parse, of 3 16 "''b''" 0 0 64]
  by (auto simp: demo_tmp_child demo_tree)

end
