(* ===== verification/Support.thy ===== *)
theory Support
  imports Wasi
begin

text \<open>
  What is linked beside the file system: the end of code that must not be reached (support.cpp), and the
  three functions that a program without a file system gets instead (no_fs.c).
\<close>

section \<open>Unreachable code\<close>

text \<open>
  \<open>handle_unreachable\<close> prints its messages, in a build with assertions, and traps; a null pointer is
  \<open>None\<close>. The result of a trap is \<open>None\<close>, as everywhere in the model.
\<close>

definition unreachable_messages :: "string option \<Rightarrow> (string \<times> string) option \<Rightarrow> string list" where
  "unreachable_messages msg place =
    (case msg of None \<Rightarrow> [] | Some m \<Rightarrow> [m]) @ [''UNREACHABLE executed''] @
    (case place of None \<Rightarrow> [] | Some (f, line) \<Rightarrow> [''at '' @ f @ '':'' @ line])"

definition handle_unreachable ::
    "bool \<Rightarrow> string option \<Rightarrow> (string \<times> string) option \<Rightarrow> string list \<times> 'a option" where
  "handle_unreachable ndebug msg place = (if ndebug then [] else unreachable_messages msg place, None)"

text \<open>The macro: release builds trap without a message.\<close>

definition WASMFS_UNREACHABLE :: "bool \<Rightarrow> string \<Rightarrow> string \<Rightarrow> string \<Rightarrow> string list \<times> 'a option" where
  "WASMFS_UNREACHABLE ndebug msg f line =
    (if ndebug then ([], None) else handle_unreachable ndebug (Some msg) (Some (f, line)))"

lemma unreachable_traps:
  "snd (WASMFS_UNREACHABLE ndebug msg f line) = None" "fst (WASMFS_UNREACHABLE True msg f line) = []"
  "msg \<in> set (fst (WASMFS_UNREACHABLE False msg f line))"
  by (simp_all add: WASMFS_UNREACHABLE_def handle_unreachable_def unreachable_messages_def)

section \<open>Programs without a file system\<close>

text \<open>The function \<open>fd_write\<close> of the outside is an argument.\<close>

definition nofs_fd_write ::
    "(u32 \<Rightarrow> iovec list \<Rightarrow> 'h \<Rightarrow> (u16 \<times> u32 option) \<times> 'h) \<Rightarrow> u32 \<Rightarrow> iovec list \<Rightarrow> 'h \<Rightarrow> (u16 \<times> u32 option) \<times> 'h" where
  "nofs_fd_write imported fd iovs h = imported fd iovs h"

definition nofs_fd_close :: "u32 \<Rightarrow> u16" where
  "nofs_fd_close fd = 0"

definition nofs_fd_fdstat_get :: "u32 \<Rightarrow> u16" where
  "nofs_fd_fdstat_get fd = wasi ENOSYS"

text \<open>
  On the streams that such a program has open, closing gives what the file system gives; the status of a
  descriptor is refused, and that of a closed one too.
\<close>

lemma nofs_close_agrees: "getEntry fd s \<noteq> None \<Longrightarrow> fst (wasi_fd_close fd s) = nofs_fd_close fd"
  by (auto simp: wasi_fd_close_def nofs_fd_close_def split: option.split prod.split)

lemma nofs_fdstat_fails: "nofs_fd_fdstat_get fd \<noteq> 0" "nofs_fd_fdstat_get fd \<noteq> fst (wasi_fd_fdstat_get k s)"
  by (auto simp: nofs_fd_fdstat_get_def wasi_fd_fdstat_get_def wasi_def split: option.split)

end
