(* ===== verification/Spec2Isabelle.thy ===== *)
theory Spec2Isabelle
  imports Workload Meta_Laws OpfsBackend Type_Laws Rename_Laws Wasi_Laws Support
begin

text \<open>
  A model of WasmFS as this repository builds it: memfs.cpp includes every source of src/wasmfs and
  exports the WASI functions on top, a file system in the linear memory of one WebAssembly module.

  The parts of the program and the theories that model them, in the order of the code's layers:

  \<^item> Prelude: the words (\<open>u16\<close>, \<open>u32\<close>, \<open>u64\<close>; signed readings are written with \<open>sint\<close>), the
    error numbers, the flags, ordered maps as sorted association lists, removal from a vector.
  \<^item> State: file.h, the fields of file_table.h, pipe_backend.h and wasmfs.h. A
    \<open>std::shared_ptr<File>\<close> is an index into a store of file objects, so that aliasing is explicit;
    the record \<open>fs\<close> also holds the open file table, the pipes, the linear memory and the host.
  \<^item> MemoryBackend: memory_backend.h and .cpp, byte vectors and directories as vectors of entries.
    The locales \<open>data_file\<close> and \<open>directory_backend\<close> state the contracts of \<open>DataFile\<close> and \<open>Directory\<close>.
  \<^item> DataFiles: the virtual methods of \<open>DataFile\<close> over every class (memory, null, stdin, stdout and
    stderr, random, pipe).
  \<^item> Directory and Tree: \<open>Directory::Handle\<close> of file.cpp, and the invariant \<open>wf_tree\<close> of the directory
    tree that its operations keep.
  \<^item> FileTable: file_table.cpp. The locale \<open>fd_table\<close> is the contract of a descriptor table; \<open>wf_table\<close>
    says that use counts count descriptors.
  \<^item> Paths: paths.cpp. The relations \<open>follows\<close>, \<open>dirs\<close> and \<open>resolves\<close> say what a path means.
  \<^item> ReadWrite, Namespace, Descriptors, Metadata: syscalls.cpp, by subject. NamespaceInv shows that the
    calls on names keep the invariant and are free of undefined behaviour.
  \<^item> Doubles: the rounding of double arithmetic, for the times that are kept in milliseconds.
  \<^item> Wasi: the exported functions of memfs.cpp. Init: the constructor of wasmfs.cpp.
  \<^item> Demo: one concrete state, built by the constructor, on which the properties are applied.

  \<^item> JsApi: js_api.cpp and emscripten.cpp, the functions for JavaScript callers. The functions of libc and
    the allocator they call are arguments.
  \<^item> NodeBackend, OpfsBackend, JsFileBackend: node_backend.cpp, opfs_backend.cpp, and the backends with files
    in JavaScript (js_impl_backend.h, proxied_async_js_impl_backend.h, fetch_backend.cpp), over the
    functions they import from JavaScript (a record of functions on a host, an argument). A call that is
    proxied to another thread waits for its result, so it is a call.
  \<^item> IgnoreCase: ignore_case_backend.cpp and virtual.h, over the memory backend, with the handle of a
    virtual directory.
  \<^item> Fuzz and Workload: the test driver, its random generator and command line, and its threads as state
    machines that any order of steps interleaves. Support: traps, and the stubs of no_fs.c.

  The properties. Data_Laws: reading, writing, sizes, positions, pipes. System: every state that calls
  reach is well-formed, and calls return. Path_Laws (with Path_Mono and Name_Laws below it): path
  resolution against its relation. Name_Calls: what each call on names changes. Dir_Laws: \<open>getcwd\<close> and
  listings. Ns_Refine: every call is a step of an abstract name space. Fd_Laws: descriptors. Js_Laws:
  whole files and paths of descriptors for JavaScript. NodeBackend and OpfsBackend: one descriptor or
  handle of the host for each file. Icase_Laws: spellings of a name are one child. Meta_Laws: times that
  are set are the times reported. Type_Laws: the class of a file and the type bits of its mode agree, and
  no call changes them. Workload: no interleaving of the test driver's threads makes an assertion fail.
  Wasi_Laws: what clients of the exported functions get. Rename_Laws: a rename that loses a directory.

  Conventions. A system call is a function from the state to an optional result and state; \<open>None\<close> is
  undefined behaviour of the source (a null pointer dereferenced, a signed overflow, an access outside
  a vector, an abort) or a loop that does not end. Path resolution recurses on a fuel of 40, the value
  of \<open>MAX_RECURSIONS\<close>: every level of recursion counts one link, and the code gives up beyond 40, so
  the fuel never runs out (\<open>resolution_terminates\<close>). The ancestor loops of \<open>rename\<close> and
  \<open>getcwd\<close> are \<open>partial_function (option)\<close>, and return because every linked directory reaches the root.

  Bounds of the model. One thread, so locks have no state; the theory Workload interleaves the threads of
  the test driver, with a read or a write, which holds its locks throughout, as one step. Allocation
  never fails. File objects are never freed, so a weak parent pointer always finds its target. The array
  of I/O vectors does not overlap the buffers it names. Assertions of the file system are compiled out
  (memfs.cpp defines \<open>NDEBUG\<close>), those of the test driver are not. The invariant covers directories of the memory backend; mounts are files in directories without write
  permission, as the constructor makes them in /dev, and the property on reachable states excludes
  making such a directory writable (TODO in \<open>insertMove\<close>).

  Times are doubles, as the code keeps them: the operations on them round to 53 bits, and the property on
  times holds up to $2^{43}$ seconds. The backends that call JavaScript are modelled class by class and are
  not installed in the state \<open>fs\<close>, whose files are those of the memory backend and the special files.

  Not modelled: printing, the endless loop of the test driver's \<open>main\<close>, the worker threads of
  thread_utils.h below the calls that are proxied to them, the destructor of the file system and the hook
  of the leak checker. Of the Node backend, what the source leaves as \<open>abort\<close> (symlinks, moves,
  \<open>setSize\<close>, \<open>flush\<close>).
\<close>

end
